theory Spec2Isabelle
  imports
    Complex_Main
    "HOL-Library.Stream"
    "HOL-Library.AList"
    "HOL-Library.Char_ord"
    "HOL-Library.List_Lexorder"
begin

section \<open>Python values, faults and the random source\<close>

text \<open>
  The notebooks are Python. A fault that Python raises is a value of \<open>py_error\<close>, and a
  function that can raise returns \<open>py_error + 'a\<close> with \<open>Inl\<close> for the fault. No step
  function of the repository catches a fault, so the first fault ends the step.
\<close>

datatype py_error =
    IndexError
  | KeyError string
  | NameError string
  | ValueError
  | TypeError
  | FileNotFoundError string
  | AttributeError string
  | Cv2Error

text \<open>
  Indexing a sequence with a Python integer: a negative index counts from the end, and
  an index outside \<open>[-n, n)\<close> raises IndexError (lists and numpy arrays alike).
\<close>

definition py_get :: "'a list \<Rightarrow> int \<Rightarrow> py_error + 'a" where
  "py_get xs i =
     (if 0 \<le> i \<and> i < int (length xs) then Inr (xs ! nat i)
      else if i < 0 \<and> - int (length xs) \<le> i then Inr (xs ! nat (int (length xs) + i))
      else Inl IndexError)"

text \<open>Storing into an existing slot of an array, \<open>xs[i] = v\<close> with \<open>i \<ge> 0\<close>.\<close>

definition py_set :: "'a list \<Rightarrow> nat \<Rightarrow> 'a \<Rightarrow> py_error + 'a list" where
  "py_set xs i v = (if i < length xs then Inr (xs[i := v]) else Inl IndexError)"

text \<open>
  A slice \<open>xs[a:b]\<close> with \<open>0 \<le> a \<le> b\<close> never raises: it is cut at the end of the
  sequence.
\<close>

definition py_slice :: "'a list \<Rightarrow> nat \<Rightarrow> nat \<Rightarrow> 'a list" where
  "py_slice xs a b = take (b - a) (drop a xs)"

text \<open>
  The module \<open>random\<close> is one generator whose state advances at every call. It is a
  stream of draws; a draw is read as a float of \<open>[0, 1)\<close> by \<open>random.random()\<close> and
  as an integer below \<open>n\<close> by \<open>random.choice\<close> and \<open>random.randint\<close> (which both go
  through the generator's integer-below-n routine).
\<close>

datatype draw = Draw (unit_float: real) (raw_bits: nat)

type_synonym rng = "draw stream"

definition random_random :: "rng \<Rightarrow> real \<times> rng" where
  "random_random g = (unit_float (shd g), stl g)"

definition randbelow :: "nat \<Rightarrow> rng \<Rightarrow> nat \<times> rng" where
  "randbelow n g = (raw_bits (shd g) mod n, stl g)"

text \<open>\<open>random.choice(seq)\<close>: IndexError on an empty sequence, else \<open>seq[randbelow(len(seq))]\<close>.\<close>

definition random_choice :: "'a list \<Rightarrow> rng \<Rightarrow> py_error + ('a \<times> rng)" where
  "random_choice seq g =
     (if seq = [] then Inl IndexError
      else (case randbelow (length seq) g of (i, g') \<Rightarrow> Inr (seq ! i, g')))"

text \<open>The item that \<open>random.choice\<close> returns from a non-empty sequence on one draw.\<close>

definition drawn_item :: "'a list \<Rightarrow> draw \<Rightarrow> 'a" where
  "drawn_item seq dr = seq ! (raw_bits dr mod length seq)"

text \<open>
  \<open>random.randint(a, b)\<close> is \<open>randrange(a, b + 1)\<close>: an integer \<open>N\<close> with
  \<open>a \<le> N \<le> b\<close>, both ends included; ValueError when the range is empty.
\<close>

definition random_randint :: "int \<Rightarrow> int \<Rightarrow> rng \<Rightarrow> py_error + (int \<times> rng)" where
  "random_randint a b g =
     (if b < a then Inl ValueError
      else (case randbelow (nat (b - a + 1)) g of (k, g') \<Rightarrow> Inr (a + int k, g')))"

section \<open>Fingerprint notebook: the evaluation step's probe\<close>

text \<open>
  \<^verbatim>\<open>
    random_idx = random.randint(0, len(x_val))
    random_img = x_val[random_idx]
    random_label = label_val[random_idx]
  \<close>
  of \<open>evaluate_model\<close>, as a function of the validation arrays and the generator.
\<close>

definition evaluate_model_probe ::
  "'a list \<Rightarrow> 'b list \<Rightarrow> rng \<Rightarrow> py_error + (('a \<times> 'b) \<times> rng)" where
  "evaluate_model_probe x_val label_val g =
     (case random_randint 0 (int (length x_val)) g of
        Inl e \<Rightarrow> Inl e
      | Inr (random_idx, g') \<Rightarrow>
          (case py_get x_val random_idx of
             Inl e \<Rightarrow> Inl e
           | Inr random_img \<Rightarrow>
               (case py_get label_val random_idx of
                  Inl e \<Rightarrow> Inl e
                | Inr random_label \<Rightarrow> Inr ((random_img, random_label), g'))))"


section \<open>Fingerprint notebook: the pairwise data generator\<close>

subsection \<open>Label keys and the dictionary of reference images\<close>

text \<open>
  A label row is an integer array (subject id, gender, hand, finger). Its key is
  \<^verbatim>\<open>''.join(l.astype(str)).zfill(6)\<close>: the decimal strings of the entries, joined and
  padded with zeros on the left to six characters (after the sign, if the string starts
  with one).
\<close>

definition digit_char :: "nat \<Rightarrow> char" where
  "digit_char d = ''0123456789'' ! d"

function str_nat :: "nat \<Rightarrow> string" where
  "str_nat n = (if n < 10 then [digit_char n] else str_nat (n div 10) @ [digit_char (n mod 10)])"
  by pat_completeness auto
termination
  by (relation "measure id") auto

declare str_nat.simps [simp del]

definition str_int :: "int \<Rightarrow> string" where
  "str_int i = (if i < 0 then CHR ''-'' # str_nat (nat (- i)) else str_nat (nat i))"

definition zfill :: "nat \<Rightarrow> string \<Rightarrow> string" where
  "zfill width s =
     (if width \<le> length s then s
      else (case s of
              c # rest \<Rightarrow>
                (if c = CHR ''+'' \<or> c = CHR ''-''
                 then c # replicate (width - length s) CHR ''0'' @ rest
                 else replicate (width - length s) CHR ''0'' @ s)
            | [] \<Rightarrow> replicate width CHR ''0''))"

definition label_key :: "int list \<Rightarrow> string" where
  "label_key l = zfill 6 (concat (map str_int l))"

text \<open>
  \<^verbatim>\<open>
    label_real_dict = {}
    for i, y in enumerate(y_real):
        key = y.astype(str)
        key = ''.join(key).zfill(6)
        label_real_dict[key] = i
  \<close>
  A Python dict keeps its keys in the order of their first insertion and a later store
  to a key replaces the value in place, which \<open>AList.update\<close> does on an association
  list. \<open>list(d.items())\<close> is then the list itself and \<open>d[k]\<close> is \<open>map_of\<close>, with
  KeyError on a missing key.
\<close>

type_synonym label_dict = "(string \<times> nat) list"

definition build_label_real_dict :: "int list list \<Rightarrow> label_dict" where
  "build_label_real_dict y_real =
     fold (\<lambda>(i, y) d. AList.update (label_key y) i d) (enumerate 0 y_real) []"

definition dict_get :: "label_dict \<Rightarrow> string \<Rightarrow> py_error + nat" where
  "dict_get d k = (case map_of d k of None \<Rightarrow> Inl (KeyError k) | Some v \<Rightarrow> Inr v)"

subsection \<open>The rejection loop for an unmatched reference\<close>

text \<open>
  \<^verbatim>\<open>
    while True:
        unmatch_key, unmatch_idx = random.choice(list(self.label_real_dict.items()))
        if unmatch_key != match_key:
            break
  \<close>
  The loop has no bound, so it is a partial function: \<open>None\<close> is the run that never
  leaves the loop, \<open>Some (Inl e)\<close> the run that ends in a fault and
  \<open>Some (Inr ((key, idx), g))\<close> the run that breaks with that item, leaving the
  generator in state \<open>g\<close>.
\<close>

partial_function (option) sample_unmatched ::
  "label_dict \<Rightarrow> string \<Rightarrow> rng \<Rightarrow> (py_error + ((string \<times> nat) \<times> rng)) option" where
  "sample_unmatched d match_key g =
     (case random_choice d g of
        Inl e \<Rightarrow> Some (Inl e)
      | Inr (item, g') \<Rightarrow>
          (if fst item \<noteq> match_key then Some (Inr (item, g'))
           else sample_unmatched d match_key g'))"

subsection \<open>The generator\<close>

record 'img DataGenerator =
  x :: "'img list"
  label :: "int list list"
  x_real :: "'img list"
  label_real_dict :: label_dict
  batch_size :: nat
  shuffle :: bool

text \<open>
  \<open>__init__\<close> stores its arguments and calls \<open>on_epoch_end\<close>, which, when \<open>shuffle\<close>
  is set, replaces \<open>x\<close> and \<open>label\<close> by one common random reordering of both
  (\<open>sklearn.utils.shuffle\<close>); \<open>perm\<close> is the order that call draws. The defaults are
  \<open>batch_size=16\<close> and \<open>shuffle=True\<close>.
\<close>

definition on_epoch_end :: "nat list \<Rightarrow> 'img DataGenerator \<Rightarrow> 'img DataGenerator" where
  "on_epoch_end perm gen =
     (if shuffle gen
      then gen\<lparr>x := map ((!) (x gen)) perm, label := map ((!) (label gen)) perm\<rparr>
      else gen)"

definition DataGenerator_init ::
  "nat list \<Rightarrow> 'img list \<Rightarrow> int list list \<Rightarrow> 'img list \<Rightarrow> label_dict \<Rightarrow> nat \<Rightarrow> bool
     \<Rightarrow> 'img DataGenerator" where
  "DataGenerator_init perm xs labels xs_real d bs sh =
     on_epoch_end perm
       \<lparr>x = xs, label = labels, x_real = xs_real, label_real_dict = d,
        batch_size = bs, shuffle = sh\<rparr>"

text \<open>
  The body of the loop over the batch, for one probe with label row \<open>l\<close>: the reference
  image paired with it and the pair's label.
  \<^verbatim>\<open>
    match_key = l.astype(str)
    match_key = ''.join(match_key).zfill(6)
    if random.random() > 0.5:
        x2_batch[i] = self.x_real[self.label_real_dict[match_key]]
        y_batch[i] = 1.
    else:
        while True: ...
        x2_batch[i] = self.x_real[unmatch_idx]
        y_batch[i] = 0.
  \<close>
\<close>

definition pair_probe ::
  "'img DataGenerator \<Rightarrow> int list \<Rightarrow> rng \<Rightarrow> (py_error + (('img \<times> real) \<times> rng)) option" where
  "pair_probe gen l g =
     (let match_key = label_key l in
      case random_random g of
        (u, g1) \<Rightarrow>
          if u > 0.5 then
            (case dict_get (label_real_dict gen) match_key of
               Inl e \<Rightarrow> Some (Inl e)
             | Inr idx \<Rightarrow>
                 (case py_get (x_real gen) (int idx) of
                    Inl e \<Rightarrow> Some (Inl e)
                  | Inr img \<Rightarrow> Some (Inr ((img, 1), g1))))
          else
            (case sample_unmatched (label_real_dict gen) match_key g1 of
               None \<Rightarrow> None
             | Some (Inl e) \<Rightarrow> Some (Inl e)
             | Some (Inr ((unmatch_key, unmatch_idx), g2)) \<Rightarrow>
                 (case py_get (x_real gen) (int unmatch_idx) of
                    Inl e \<Rightarrow> Some (Inl e)
                  | Inr img \<Rightarrow> Some (Inr ((img, 0), g2)))))"

text \<open>The loop \<open>for i, l in enumerate(label_batch)\<close>, storing each pair at row \<open>i\<close>.\<close>

fun pair_loop ::
  "'img DataGenerator \<Rightarrow> (nat \<times> int list) list \<Rightarrow> 'img list \<times> real list \<Rightarrow> rng
     \<Rightarrow> (py_error + (('img list \<times> real list) \<times> rng)) option" where
  "pair_loop gen [] batches g = Some (Inr (batches, g))"
| "pair_loop gen ((i, l) # rest) (x2_batch, y_batch) g =
     (case pair_probe gen l g of
        None \<Rightarrow> None
      | Some (Inl e) \<Rightarrow> Some (Inl e)
      | Some (Inr ((img, y), g')) \<Rightarrow>
          (case py_set x2_batch i img of
             Inl e \<Rightarrow> Some (Inl e)
           | Inr x2_batch' \<Rightarrow>
               (case py_set y_batch i y of
                  Inl e \<Rightarrow> Some (Inl e)
                | Inr y_batch' \<Rightarrow> pair_loop gen rest (x2_batch', y_batch') g')))"

text \<open>
  \<open>__getitem__\<close>. Three things are outside the repository and are parameters:
  \<open>augment\<close> is \<open>seq.augment_images\<close> of the imgaug sequence (Gaussian blur and affine
  scale, translation and rotation in random order), \<open>scale\<close> is
  \<open>.astype(np.float32) / 255.\<close> on one image, and \<open>junk\<close> is what \<open>np.empty\<close> leaves
  in a row that is never stored to.
\<close>

definition getitem ::
  "('img list \<Rightarrow> 'img list) \<Rightarrow> ('img \<Rightarrow> 'img) \<Rightarrow> 'img \<Rightarrow> 'img DataGenerator \<Rightarrow> nat \<Rightarrow> rng
     \<Rightarrow> (py_error + ((('img list \<times> 'img list) \<times> real list) \<times> rng)) option" where
  "getitem augment scale junk gen index g =
     (let x1_batch = py_slice (x gen) (index * batch_size gen) ((index + 1) * batch_size gen);
          label_batch =
            py_slice (label gen) (index * batch_size gen) ((index + 1) * batch_size gen);
          x2_batch = replicate (batch_size gen) junk;
          y_batch = replicate (batch_size gen) 0;
          x1_batch = (if shuffle gen then augment x1_batch else x1_batch)
      in case pair_loop gen (enumerate 0 label_batch) (x2_batch, y_batch) g of
           None \<Rightarrow> None
         | Some (Inl e) \<Rightarrow> Some (Inl e)
         | Some (Inr ((x2_batch', y_batch'), g')) \<Rightarrow>
             Some (Inr (((map scale x1_batch, map scale x2_batch'), y_batch'), g')))"

text \<open>
  The two generators that \<open>train_model\<close> builds and hands to \<open>fit_generator\<close>:
  \<^verbatim>\<open>
    train_gen = DataGenerator(x_train, label_train, x_real, label_real_dict, shuffle=False)
    val_gen = DataGenerator(x_val, label_val, x_real, label_real_dict, shuffle=False)
  \<close>
\<close>

definition train_gen ::
  "nat list \<Rightarrow> 'img list \<Rightarrow> int list list \<Rightarrow> 'img list \<Rightarrow> int list list \<Rightarrow> 'img DataGenerator" where
  "train_gen perm x_train label_train xs_real y_real =
     DataGenerator_init perm x_train label_train xs_real (build_label_real_dict y_real) 16 False"

definition val_gen ::
  "nat list \<Rightarrow> 'img list \<Rightarrow> int list list \<Rightarrow> 'img list \<Rightarrow> int list list \<Rightarrow> 'img DataGenerator" where
  "val_gen perm x_val label_val xs_real y_real =
     DataGenerator_init perm x_val label_val xs_real (build_label_real_dict y_real) 16 False"

subsection \<open>The distribution of the draws\<close>

text \<open>
  The module \<open>random\<close> documents its generator: \<open>random.random()\<close> returns the
  multiples of \<open>2 ^ -53\<close> in \<open>[0, 1)\<close> (53-bit precision floats), evenly spaced and
  equally likely, and \<open>random.choice(seq)\<close> picks a position below \<open>len(seq)\<close>, each
  equally likely; successive calls are independent. A draw, read as a float by one call
  or as a position in a sequence of \<open>n\<close> items by another, is therefore one of the
  \<open>2 ^ 53 * n\<close> values of \<open>draw_space n\<close>, all equally likely, and so are the words of \<open>L\<close>
  successive draws, \<open>draw_words n L\<close>.
\<close>

definition float_values :: "real set" where
  "float_values = (\<lambda>k. real k / 2 ^ 53) ` {..<2 ^ 53}"

definition draw_space :: "nat \<Rightarrow> draw set" where
  "draw_space n = {dr. unit_float dr \<in> float_values \<and> raw_bits dr < n}"

definition draw_words :: "nat \<Rightarrow> nat \<Rightarrow> draw list set" where
  "draw_words n L = {w. length w = L \<and> set w \<subseteq> draw_space n}"

text \<open>
  \<open>returns_after run w a\<close>: the run that starts on the draws \<open>w\<close> returns \<open>a\<close> having
  consumed exactly \<open>w\<close>, whatever draws follow. \<open>word_share n S L\<close> is the share of the words
  of \<open>L\<close> draws that lie in \<open>S\<close>, and \<open>chance_at n run A L\<close> is the chance that \<open>run\<close>
  returns a value of \<open>A\<close> after exactly \<open>L\<close> draws: the share of the words of \<open>L\<close> draws
  after which it does. A run returns after at most one prefix of a stream of draws, so
  the chance that it returns a value of \<open>A\<close> within \<open>L\<close> draws is the sum of
  \<open>chance_at n run A i\<close> over \<open>i \<le> L\<close>, and the chance that it returns a value of \<open>A\<close> is
  the sum over all \<open>L\<close>: it is \<open>p\<close> when \<open>chance_at n run A sums p\<close>.
\<close>

definition returns_after ::
  "(rng \<Rightarrow> (py_error + ('a \<times> rng)) option) \<Rightarrow> draw list \<Rightarrow> 'a \<Rightarrow> bool" where
  "returns_after run w a = (\<forall>s. run (w @- s) = Some (Inr (a, s)))"

definition word_share :: "nat \<Rightarrow> draw list set \<Rightarrow> nat \<Rightarrow> real" where
  "word_share n S L = real (card {w \<in> draw_words n L. w \<in> S}) / real (card (draw_words n L))"

definition chance_at ::
  "nat \<Rightarrow> (rng \<Rightarrow> (py_error + ('a \<times> rng)) option) \<Rightarrow> 'a set \<Rightarrow> nat \<Rightarrow> real" where
  "chance_at n run A = word_share n {w. \<exists>a\<in>A. returns_after run w a}"

subsection \<open>The pairing of a probe as a distribution\<close>

text \<open>
  What the pairing of one probe is to be, as a distribution over the pairs (reference as
  returned, label). \<open>pairing_chance scale gen l A\<close> is the chance of a pair in \<open>A\<close> for the
  probe with label row \<open>l\<close>: with the chance of a float above 0.5, which is
  \<open>(2 ^ 52 - 1) / 2 ^ 53\<close>, the pair is the match \<open>x_real[label_real_dict[match_key]]\<close> with
  label 1; with the remaining \<open>(2 ^ 52 + 1) / 2 ^ 53\<close> it is the reference of an item of the
  dictionary whose key is not the match key, with label 0, every such item as likely as
  every other. \<open>pairings scale gen l\<close> are the pairs the probe can get at all.

  \<open>batches_in X1 J b As\<close> are the batches \<open>((x1, x2), y)\<close> of \<open>b\<close> rows with \<open>x1 = X1\<close>
  whose pair \<open>(x2[j], y[j])\<close> lies in the \<open>j\<close>-th set of \<open>As\<close>, for every \<open>j\<close> below the length
  of \<open>As\<close>; the rows from there on are as the arrays were created (\<open>J\<close> and 0).
\<close>

definition pairing_chance ::
  "('img \<Rightarrow> 'img) \<Rightarrow> 'img DataGenerator \<Rightarrow> int list \<Rightarrow> ('img \<times> real) set \<Rightarrow> real" where
  "pairing_chance scale gen l A =
     (let d = label_real_dict gen;
          unmatched = filter (\<lambda>item. fst item \<noteq> label_key l) d
      in (case map_of d (label_key l) of
            None \<Rightarrow> 0
          | Some idx \<Rightarrow> if (scale (x_real gen ! idx), 1) \<in> A then (2 ^ 52 - 1) / 2 ^ 53 else 0)
         + (2 ^ 52 + 1) / 2 ^ 53
           * real (length (filter (\<lambda>item. (scale (x_real gen ! snd item), 0) \<in> A) unmatched))
           / real (length unmatched))"

definition pairings :: "('img \<Rightarrow> 'img) \<Rightarrow> 'img DataGenerator \<Rightarrow> int list \<Rightarrow> ('img \<times> real) set" where
  "pairings scale gen l =
     {(scale (x_real gen ! idx), 1) | idx.
        map_of (label_real_dict gen) (label_key l) = Some idx}
     \<union> {(scale (x_real gen ! snd item), 0) | item.
          item \<in> set (label_real_dict gen) \<and> fst item \<noteq> label_key l}"

definition batches_in ::
  "'img list \<Rightarrow> 'img \<Rightarrow> nat \<Rightarrow> ('img \<times> real) set list
     \<Rightarrow> (('img list \<times> 'img list) \<times> real list) set" where
  "batches_in X1 J b As =
     {((X1, map fst ps @ replicate (b - length ps) J), map snd ps @ replicate (b - length ps) 0)
        | ps. list_all2 (\<in>) ps As}"

text \<open>
  Three notions for the proofs. \<open>pairing_word gen l w p\<close>: the word \<open>w\<close> is one float
  above 0.5 and \<open>p\<close> is the match with label 1, or \<open>w\<close> is one float that is not above
  0.5, then draws of items with the match key, then the draw of an item with another
  key, and \<open>p\<close> is that item's reference with label 0. \<open>store_pairs k ps batches\<close>: the
  two arrays after the pairs \<open>ps\<close> were stored in the rows from \<open>k\<close> on. \<open>batch_words\<close>: the
  words that pair the probes of a batch one after the other, the \<open>j\<close>-th pair in the
  \<open>j\<close>-th set.
\<close>

definition pairing_word :: "'img DataGenerator \<Rightarrow> int list \<Rightarrow> draw list \<Rightarrow> 'img \<times> real \<Rightarrow> bool" where
  "pairing_word gen l w p =
     ((\<exists>c idx. w = [c] \<and> 1/2 < unit_float c
          \<and> map_of (label_real_dict gen) (label_key l) = Some idx \<and> p = (x_real gen ! idx, 1))
    \<or> (\<exists>c rej e. w = c # rej @ [e] \<and> \<not> 1/2 < unit_float c
          \<and> (\<forall>r\<in>set rej. fst (drawn_item (label_real_dict gen) r) = label_key l)
          \<and> fst (drawn_item (label_real_dict gen) e) \<noteq> label_key l
          \<and> p = (x_real gen ! snd (drawn_item (label_real_dict gen) e), 0)))"

definition store_pairs ::
  "nat \<Rightarrow> ('img \<times> real) list \<Rightarrow> 'img list \<times> real list \<Rightarrow> 'img list \<times> real list" where
  "store_pairs k ps batches =
     (take k (fst batches) @ map fst ps @ drop (k + length ps) (fst batches),
      take k (snd batches) @ map snd ps @ drop (k + length ps) (snd batches))"

fun batch_words ::
  "'img DataGenerator \<Rightarrow> int list list \<Rightarrow> ('img \<times> real) set list \<Rightarrow> draw list set" where
  "batch_words gen [] [] = {[]}"
| "batch_words gen (l # ls) (B # Bs) =
     {w1 @ w2 | w1 w2. (\<exists>p\<in>B. pairing_word gen l w1 p) \<and> w2 \<in> batch_words gen ls Bs}"
| "batch_words gen [] (B # Bs) = {}"
| "batch_words gen (l # ls) [] = {}"

section \<open>Artifacts: files, arrays and dataframes\<close>

text \<open>
  A step reads files under its input directory and writes files under its output
  directory. An array is the list of its rows (\<open>len\<close> is \<open>length\<close>); a dataframe is its
  column names and its rows of cells. A file holds what the library call that wrote it
  stored: the named arrays of \<open>np.savez\<close>, the array of \<open>np.save\<close>, the dataframe of
  \<open>to_pickle\<close>, the estimator of \<open>pickle.dump\<close>.
\<close>

datatype cell = Num rat | Str string | NaN

record dataframe =
  columns :: "string list"
  rows :: "cell list list"

datatype ('a, 'm) content =
    Npz "(string \<times> 'a list) list"
  | Npy "'a list"
  | Pickle dataframe
  | Estimator 'm

record ('a, 'm) fs =
  dirs :: "string set"
  files :: "string \<rightharpoonup> ('a, 'm) content"

text \<open>A step either finishes or stops at its first fault; both leave a file system.\<close>

type_synonym ('a, 'm) outcome = "(py_error + unit) \<times> ('a, 'm) fs"

definition err_bind :: "py_error + 'a \<Rightarrow> ('a \<Rightarrow> py_error + 'b) \<Rightarrow> py_error + 'b" where
  "err_bind r f = (case r of Inl e \<Rightarrow> Inl e | Inr v \<Rightarrow> f v)"

definition os_path_exists :: "('a, 'm) fs \<Rightarrow> string \<Rightarrow> bool" where
  "os_path_exists fs p = (p \<in> dirs fs \<or> files fs p \<noteq> None)"

text \<open>
  \<^verbatim>\<open>
    if not os.path.exists(d):
        os.makedirs(d)
  \<close>
\<close>

definition ensure_dir :: "string \<Rightarrow> ('a, 'm) fs \<Rightarrow> ('a, 'm) fs" where
  "ensure_dir d fs = (if \<not> os_path_exists fs d then fs\<lparr>dirs := insert d (dirs fs)\<rparr> else fs)"

text \<open>
  Writing a file stores its content under the path. The faults of a write (a parent
  directory that is missing or is a regular file, a full disk) are not modelled: a write
  of the model always succeeds, so a step of the model can finish where the program
  faults at a write. The properties of the steps below are therefore stated for the runs
  that finish, or for a fault that comes before the first write.
\<close>

definition write_file :: "string \<Rightarrow> ('a, 'm) content \<Rightarrow> ('a, 'm) fs \<Rightarrow> ('a, 'm) fs" where
  "write_file p c fs = fs\<lparr>files := (files fs)(p \<mapsto> c)\<rparr>"

text \<open>\<open>np.load(p)[key]\<close> on an \<open>.npz\<close> file and \<open>np.load(p)\<close> on an \<open>.npy\<close> file.\<close>

definition np_load_key :: "('a, 'm) fs \<Rightarrow> string \<Rightarrow> string \<Rightarrow> py_error + 'a list" where
  "np_load_key fs p key =
     (case files fs p of
        None \<Rightarrow> Inl (FileNotFoundError p)
      | Some (Npz arrays) \<Rightarrow>
          (case map_of arrays key of None \<Rightarrow> Inl (KeyError key) | Some a \<Rightarrow> Inr a)
      | Some _ \<Rightarrow> Inl ValueError)"

definition np_load :: "('a, 'm) fs \<Rightarrow> string \<Rightarrow> py_error + 'a list" where
  "np_load fs p =
     (case files fs p of
        None \<Rightarrow> Inl (FileNotFoundError p)
      | Some (Npy a) \<Rightarrow> Inr a
      | Some _ \<Rightarrow> Inl ValueError)"

text \<open>
  \<open>np.savez(p, a, b)\<close> stores its positional arrays under the names \<open>arr_0\<close>, \<open>arr_1\<close>;
  \<open>np.savez(p, data=a, labels=b)\<close> stores them under the keywords.
\<close>

definition np_savez :: "string \<Rightarrow> 'a list \<Rightarrow> 'a list \<Rightarrow> ('a, 'm) fs \<Rightarrow> ('a, 'm) fs" where
  "np_savez p a b fs = write_file p (Npz [(''arr_0'', a), (''arr_1'', b)]) fs"

definition np_savez_kw ::
  "string \<Rightarrow> (string \<times> 'a list) list \<Rightarrow> ('a, 'm) fs \<Rightarrow> ('a, 'm) fs" where
  "np_savez_kw p arrays fs = write_file p (Npz arrays) fs"

subsection \<open>Name resolution\<close>

text \<open>
  A name used in a function body is looked up among the names the function has bound so
  far, then among the names of the module it runs in; a name bound in neither raises
  NameError.
\<close>

type_synonym 'v namespace = "string \<rightharpoonup> 'v"

definition resolve :: "'v namespace \<Rightarrow> 'v namespace \<Rightarrow> string \<Rightarrow> py_error + 'v" where
  "resolve local_names global_names name =
     (case local_names name of
        Some v \<Rightarrow> Inr v
      | None \<Rightarrow>
          (case global_names name of Some v \<Rightarrow> Inr v | None \<Rightarrow> Inl (NameError name)))"

subsection \<open>The split of scikit-learn\<close>

text \<open>
  \<open>train_test_split(X, y, test_size=f)\<close> is a library call. Its documented behaviour, for a
  float \<open>f\<close> and no \<open>train_size\<close>: the arrays must have one common length \<open>n\<close>; the test part
  has \<open>ceil(f * n)\<close> rows and the train part the remaining ones; an empty train part is a
  ValueError; every array is indexed by the same two index lists. \<open>order\<close> is the order
  in which the library's splitter hands out the row indices, the test rows first: a
  permutation of \<open>0..n-1\<close> drawn from \<open>random_state\<close>. The result is
  \<open>(X_train, X_test, y_train, y_test)\<close>.
\<close>

definition n_test_rows :: "rat \<Rightarrow> nat \<Rightarrow> nat" where
  "n_test_rows test_size n = nat \<lceil>test_size * of_nat n\<rceil>"

definition train_test_split ::
  "nat list \<Rightarrow> rat \<Rightarrow> 'a list \<Rightarrow> 'b list
     \<Rightarrow> py_error + ('a list \<times> 'a list \<times> 'b list \<times> 'b list)" where
  "train_test_split order test_size X y =
     (if length X \<noteq> length y then Inl ValueError
      else if test_size \<le> 0 \<or> 1 \<le> test_size then Inl ValueError
      else
        (let n = length X;
             n_test = n_test_rows test_size n;
             n_train = n - n_test;
             test = take n_test order;
             train = take n_train (drop n_test order)
         in if n_train = 0 then Inl ValueError
            else Inr (map ((!) X) train, map ((!) X) test, map ((!) y) train, map ((!) y) test)))"

text \<open>
  With \<open>stratify=labels\<close> the splitter keeps the class proportions. It refuses (ValueError)
  a class with fewer than two rows and a train or test part smaller than the number of
  classes; the sizes of the two parts are the same as without it.
\<close>

definition train_test_split_stratify ::
  "nat list \<Rightarrow> rat \<Rightarrow> 'a list \<Rightarrow> 'b list \<Rightarrow> 'c list
     \<Rightarrow> py_error + ('a list \<times> 'a list \<times> 'b list \<times> 'b list)" where
  "train_test_split_stratify order test_size X y stratify =
     (let classes = remdups stratify;
          n = length X;
          n_test = n_test_rows test_size n
      in if length stratify \<noteq> n then Inl ValueError
         else if \<exists>c\<in>set classes. length (filter (\<lambda>s. s = c) stratify) < 2 then Inl ValueError
         else if n - n_test < length classes \<or> n_test < length classes then Inl ValueError
         else train_test_split order test_size X y)"

section \<open>Covid notebook: preprocessing and the train/test split\<close>

text \<open>
  \<^verbatim>\<open>label = imagePath.split(os.path.sep)[-2]\<close>: the last but one component of the path,
  the name of the directory the file is in. \<open>str.split\<close> cuts at every separator and
  keeps empty components.
\<close>

fun split_sep :: "char \<Rightarrow> string \<Rightarrow> string list" where
  "split_sep sep [] = [[]]"
| "split_sep sep (c # s) =
     (if c = sep then [] # split_sep sep s
      else (case split_sep sep s of w # ws \<Rightarrow> (c # w) # ws | [] \<Rightarrow> [[c]]))"

definition parent_dir_label :: "string \<Rightarrow> py_error + string" where
  "parent_dir_label imagePath = py_get (split_sep CHR ''/'' imagePath) (- 2)"

text \<open>
  An image file qualifies when the directory it is in is named \<open>covid\<close> or \<open>normal\<close>;
  \<open>dir_label\<close> is that name.
\<close>

definition qualifies :: "string \<Rightarrow> bool" where
  "qualifies imagePath \<longleftrightarrow>
     parent_dir_label imagePath = Inr ''covid'' \<or> parent_dir_label imagePath = Inr ''normal''"

definition dir_label :: "string \<Rightarrow> string" where
  "dir_label imagePath = (case parent_dir_label imagePath of Inr l \<Rightarrow> l | Inl e \<Rightarrow> [])"

text \<open>
  The loop over the image paths. \<open>imread\<close> is \<open>cv2.imread\<close> on the files of the dataset
  (\<open>None\<close> for a file it cannot decode, on which \<open>cv2.cvtColor\<close> then raises), and
  \<open>cvt_resize\<close> is \<open>cv2.cvtColor\<close> followed by \<open>cv2.resize\<close> to 224 by 224. The
  variables \<open>label\<close> and \<open>image\<close> of the source are \<open>lbl\<close> and \<open>img\<close> here.
  \<^verbatim>\<open>
    for imagePath in imagePaths:
        label = imagePath.split(os.path.sep)[-2]
        if (label=="covid" or label=="normal"):
            image = cv2.imread(imagePath)
            image = cv2.cvtColor(image, cv2.COLOR_BGR2RGB)
            image = cv2.resize(image, (224, 224))
            data.append(image)
            labels.append(label)
  \<close>
\<close>

fun load_images ::
  "(string \<Rightarrow> 'img option) \<Rightarrow> ('img \<Rightarrow> 'img) \<Rightarrow> string list \<Rightarrow> 'img list \<times> string list
     \<Rightarrow> py_error + ('img list \<times> string list)" where
  "load_images imread cvt_resize [] (data, labels) = Inr (data, labels)"
| "load_images imread cvt_resize (imagePath # rest) (data, labels) =
     (case parent_dir_label imagePath of
        Inl e \<Rightarrow> Inl e
      | Inr lbl \<Rightarrow>
          (if lbl = ''covid'' \<or> lbl = ''normal'' then
             (case imread imagePath of
                None \<Rightarrow> Inl Cv2Error
              | Some img \<Rightarrow>
                  load_images imread cvt_resize rest (data @ [cvt_resize img], labels @ [lbl]))
           else load_images imread cvt_resize rest (data, labels)))"

text \<open>
  \<open>LabelBinarizer().fit_transform(labels)\<close>: the classes are the sorted distinct labels;
  no sample at all is a ValueError; one class gives a column of zeros, two classes a
  column that is 1 on the second class, more classes one indicator column per class.
\<close>

definition LabelBinarizer_fit_transform :: "string list \<Rightarrow> py_error + nat list list" where
  "LabelBinarizer_fit_transform labels =
     (let classes = sort (remdups labels) in
      if labels = [] then Inl ValueError
      else if length classes = 1 then Inr (map (\<lambda>l. [0]) labels)
      else if length classes = 2 then Inr (map (\<lambda>l. [if l = classes ! 1 then 1 else 0]) labels)
      else Inr (map (\<lambda>l. map (\<lambda>c. if l = c then 1 else 0) classes) labels))"

text \<open>
  \<open>to_categorical(labels)\<close> of Keras on rows of width one (the only rows that
  \<open>LabelBinarizer\<close> gives for at most two classes): the number of classes is the largest
  entry plus one, and each row becomes the indicator vector of its entry.
\<close>

definition one_hot :: "nat \<Rightarrow> nat \<Rightarrow> nat list" where
  "one_hot num_classes v = map (\<lambda>c. if c = v then 1 else 0) [0..<num_classes]"

definition to_categorical :: "nat list list \<Rightarrow> nat list list" where
  "to_categorical ys =
     (let num_classes = fold max (concat ys) 0 + 1
      in map (\<lambda>r. concat (map (one_hot num_classes) r)) ys)"

text \<open>The rows of the arrays the covid steps store: an image, or the label row of one.\<close>

datatype 'img covid_row = Image 'img | OneHot "nat list"

text \<open>
  \<open>preprocess_data(data_dir, prep_dir)\<close>. \<open>list_images\<close> is \<open>imutils.paths.list_images\<close>, the
  image files under a directory; \<open>scale\<close> is the division of one image by 255.
\<close>

definition covid_preprocess_data ::
  "(string \<Rightarrow> string list) \<Rightarrow> (string \<Rightarrow> 'img option) \<Rightarrow> ('img \<Rightarrow> 'img) \<Rightarrow> ('img \<Rightarrow> 'img)
     \<Rightarrow> string \<Rightarrow> string \<Rightarrow> ('img covid_row, 'm) fs \<Rightarrow> ('img covid_row, 'm) outcome" where
  "covid_preprocess_data list_images imread cvt_resize scale data_dir prep_dir fs =
     (let imagePaths = list_images data_dir in
      case load_images imread cvt_resize imagePaths ([], []) of
        Inl e \<Rightarrow> (Inl e, fs)
      | Inr (data, labels) \<Rightarrow>
          (let data = map scale data in
           case LabelBinarizer_fit_transform labels of
             Inl e \<Rightarrow> (Inl e, fs)
           | Inr binarized \<Rightarrow>
               (let labels = to_categorical binarized;
                    fs1 = ensure_dir prep_dir fs
                in (Inr (),
                    np_savez_kw (''/'' @ prep_dir @ ''/data.npz'')
                      [(''data'', map Image data), (''labels'', map OneHot labels)] fs1))))"

text \<open>
  \<open>traintestsplit_data(prep_dir, file_name, traintest_dir)\<close>:
  \<^verbatim>\<open>
    data = np.load(f'/{prep_dir}/data.npz')['data']
    labels = np.load(f'/{prep_dir}/data.npz')['labels']
    (trainX, testX, trainY, testY) = train_test_split(data, labels, test_size=0.40,
                                                      stratify=labels, random_state=42)
    if not os.path.exists(traintest_dir):
        os.makedirs(traintest_dir)
    np.savez(f'/{traintest_dir}/train_data.npz', trainX, trainY)
    np.savez(f'/{traintest_dir}/val_data.npz', testX, testY)
  \<close>
\<close>

definition covid_traintestsplit_data ::
  "nat list \<Rightarrow> string \<Rightarrow> string \<Rightarrow> string \<Rightarrow> ('a, 'm) fs \<Rightarrow> ('a, 'm) outcome" where
  "covid_traintestsplit_data order prep_dir file_name traintest_dir fs =
     (case np_load_key fs (''/'' @ prep_dir @ ''/data.npz'') ''data'' of
        Inl e \<Rightarrow> (Inl e, fs)
      | Inr data \<Rightarrow>
          (case np_load_key fs (''/'' @ prep_dir @ ''/data.npz'') ''labels'' of
             Inl e \<Rightarrow> (Inl e, fs)
           | Inr labels \<Rightarrow>
               (case train_test_split_stratify order 0.40 data labels labels of
                  Inl e \<Rightarrow> (Inl e, fs)
                | Inr (trainX, testX, trainY, testY) \<Rightarrow>
                    (let fs1 = ensure_dir traintest_dir fs;
                         fs2 = np_savez (''/'' @ traintest_dir @ ''/train_data.npz'') trainX trainY fs1;
                         fs3 = np_savez (''/'' @ traintest_dir @ ''/val_data.npz'') testX testY fs2
                     in (Inr (), fs3)))))"

section \<open>Dataframes: the training step of the fraud notebook\<close>

text \<open>\<open>pd.read_pickle(p)\<close>: the dataframe that \<open>to_pickle\<close> stored in the file.\<close>

definition pd_read_pickle :: "('a, 'm) fs \<Rightarrow> string \<Rightarrow> py_error + dataframe" where
  "pd_read_pickle fs p =
     (case files fs p of
        None \<Rightarrow> Inl (FileNotFoundError p)
      | Some (Pickle df) \<Rightarrow> Inr df
      | Some _ \<Rightarrow> Inl ValueError)"

fun index_of :: "'a list \<Rightarrow> 'a \<Rightarrow> nat" where
  "index_of [] v = 0"
| "index_of (u # us) v = (if u = v then 0 else Suc (index_of us v))"

text \<open>\<open>df[name]\<close>: the cells of a column, KeyError when there is no such column.\<close>

definition df_column :: "dataframe \<Rightarrow> string \<Rightarrow> py_error + cell list" where
  "df_column df name =
     (if name \<in> set (columns df)
      then Inr (map (\<lambda>r. r ! index_of (columns df) name) (rows df))
      else Inl (KeyError name))"

text \<open>\<open>df.drop(name, axis=1)\<close>: the dataframe without that column.\<close>

definition drop_nth :: "nat \<Rightarrow> 'a list \<Rightarrow> 'a list" where
  "drop_nth i xs = take i xs @ drop (Suc i) xs"

definition df_drop :: "dataframe \<Rightarrow> string \<Rightarrow> py_error + dataframe" where
  "df_drop df name =
     (if name \<in> set (columns df)
      then Inr \<lparr>columns = drop_nth (index_of (columns df) name) (columns df),
               rows = map (drop_nth (index_of (columns df) name)) (rows df)\<rparr>
      else Inl (KeyError name))"

text \<open>
  The fraud notebook's \<open>train_model(prep_data_dir, model_dir, traintest_dir)\<close>. \<open>fit\<close> is
  \<open>MLPClassifier().fit\<close>; a row of the stored arrays is the feature cells of a
  transaction or its \<open>fraud\<close> cell.
  \<^verbatim>\<open>
    df = pd.read_pickle(f'{prep_data_dir}/df.pkl')
    y = df.fraud
    X = df.drop('fraud', axis=1)
    X_train, X_test, y_train, y_test = train_test_split(X, y, test_size=0.2, random_state=42)
    mlp = MLPClassifier()
    mlp.fit(X_train, y_train)
    if not os.path.exists(model_dir):
        os.makedirs(model_dir)
    if not os.path.exists(traintest_dir):
        os.makedirs(traintest_dir)
    filename = f'{model_dir}/trained_model.sav'
    pickle.dump(mlp, open(filename, 'wb'))
    np.savez(f'{traintest_dir}/train_data.npz', X_train, y_train)
    np.savez(f'{traintest_dir}/val_data.npz', X_test, y_test)
  \<close>
\<close>

datatype fraud_row = Features "cell list" | Target cell

definition df_attribute :: "dataframe \<Rightarrow> string \<Rightarrow> py_error + cell list" where
  "df_attribute df name =
     (case df_column df name of Inl e \<Rightarrow> Inl (AttributeError name) | Inr vals \<Rightarrow> Inr vals)"

definition fraud_train_model ::
  "nat list \<Rightarrow> (cell list list \<Rightarrow> cell list \<Rightarrow> 'm) \<Rightarrow> string \<Rightarrow> string \<Rightarrow> string
     \<Rightarrow> (fraud_row, 'm) fs \<Rightarrow> (fraud_row, 'm) outcome" where
  "fraud_train_model order fit prep_data_dir model_dir traintest_dir fs =
     (case err_bind (pd_read_pickle fs (prep_data_dir @ ''/df.pkl'')) (\<lambda>df.
           err_bind (df_attribute df ''fraud'') (\<lambda>y.
           err_bind (df_drop df ''fraud'') (\<lambda>X.
           train_test_split order 0.2 (rows X) y))) of
        Inl e \<Rightarrow> (Inl e, fs)
      | Inr (X_train, X_test, y_train, y_test) \<Rightarrow>
          (let mlp = fit X_train y_train;
               fs1 = ensure_dir model_dir fs;
               fs2 = ensure_dir traintest_dir fs1;
               fs3 = write_file (model_dir @ ''/trained_model.sav'') (Estimator mlp) fs2;
               fs4 = np_savez (traintest_dir @ ''/train_data.npz'')
                       (map Features X_train) (map Target y_train) fs3;
               fs5 = np_savez (traintest_dir @ ''/val_data.npz'')
                       (map Features X_test) (map Target y_test) fs4
           in (Inr (), fs5)))"

section \<open>Fingerprint notebook: preprocessing\<close>

text \<open>
  \<open>preprocess_data(data_dir, prep_data_dir)\<close>, first the part before the saves. The value
  is the table of the names the function has bound to arrays when it reaches them.
  \<^verbatim>\<open>
    x_real = np.load(f'{data_dir}/x_real.npz')['data']
    y_real = np.load(f'{data_dir}/y_real.npy')
    x_easy = np.load(f'{data_dir}/x_easy.npz')['data']
    y_easy = np.load(f'{data_dir}/y_easy.npy')
    x_medium = np.load(f'{data_dir}/x_medium.npz')['data']
    y_medium = np.load(f'{data_dir}/y_medium.npy')
    x_hard = np.load(f'{data_dir}/x_hard.npz')['data']
    y_hard = np.load(f'{data_dir}/y_hard.npy')
    x_data = np.concatenate([x_easy, x_medium, x_hard], axis=0)
    label_data = np.concatenate([y_easy, y_medium, y_hard], axis=0)
    x_train, x_val, label_train, label_val = train_test_split(x_data, label_data, test_size=0.1)
  \<close>
\<close>

definition fingerprint_load_and_split ::
  "nat list \<Rightarrow> string \<Rightarrow> ('a, 'm) fs \<Rightarrow> py_error + 'a list namespace" where
  "fingerprint_load_and_split order data_dir fs =
     err_bind (np_load_key fs (data_dir @ ''/x_real.npz'') ''data'') (\<lambda>xs_real.
     err_bind (np_load fs (data_dir @ ''/y_real.npy'')) (\<lambda>y_real.
     err_bind (np_load_key fs (data_dir @ ''/x_easy.npz'') ''data'') (\<lambda>x_easy.
     err_bind (np_load fs (data_dir @ ''/y_easy.npy'')) (\<lambda>y_easy.
     err_bind (np_load_key fs (data_dir @ ''/x_medium.npz'') ''data'') (\<lambda>x_medium.
     err_bind (np_load fs (data_dir @ ''/y_medium.npy'')) (\<lambda>y_medium.
     err_bind (np_load_key fs (data_dir @ ''/x_hard.npz'') ''data'') (\<lambda>x_hard.
     err_bind (np_load fs (data_dir @ ''/y_hard.npy'')) (\<lambda>y_hard.
     (let x_data = x_easy @ x_medium @ x_hard;
          label_data = y_easy @ y_medium @ y_hard
      in err_bind (train_test_split order 0.1 x_data label_data)
           (\<lambda>(x_train, x_val, label_train, label_val).
              Inr [''x_real'' \<mapsto> xs_real, ''y_real'' \<mapsto> y_real,
                   ''x_easy'' \<mapsto> x_easy, ''y_easy'' \<mapsto> y_easy,
                   ''x_medium'' \<mapsto> x_medium, ''y_medium'' \<mapsto> y_medium,
                   ''x_hard'' \<mapsto> x_hard, ''y_hard'' \<mapsto> y_hard,
                   ''x_data'' \<mapsto> x_data, ''label_data'' \<mapsto> label_data,
                   ''x_train'' \<mapsto> x_train, ''x_val'' \<mapsto> x_val,
                   ''label_train'' \<mapsto> label_train, ''label_val'' \<mapsto> label_val]))))))))))"

text \<open>
  \<open>np.savez(p, a, b)\<close> where \<open>a\<close> and \<open>b\<close> are names: Python evaluates the arguments from left
  to right before the call, so an unbound name raises before anything is written.
\<close>

definition savez_names ::
  "'a list namespace \<Rightarrow> 'a list namespace \<Rightarrow> string \<Rightarrow> string \<Rightarrow> string \<Rightarrow> ('a, 'm) fs
     \<Rightarrow> ('a, 'm) outcome" where
  "savez_names local_names global_names p name0 name1 fs =
     (case resolve local_names global_names name0 of
        Inl e \<Rightarrow> (Inl e, fs)
      | Inr a \<Rightarrow>
          (case resolve local_names global_names name1 of
             Inl e \<Rightarrow> (Inl e, fs)
           | Inr b \<Rightarrow> (Inr (), np_savez p a b fs)))"

text \<open>
  The whole step; \<open>global_names\<close> are the array names of the module the function runs in.
  \<^verbatim>\<open>
    if not os.path.exists(prep_data_dir):
        os.makedirs(prep_data_dir)
    np.savez(f'/{prep_data_dir}/train_data.npz', x_train, laWhatWhatbel_train)
    np.savez(f'/{prep_data_dir}/val_data.npz', x_val, label_val)
    np.savez(f'/{prep_data_dir}/real_data.npz', x_real, y_real)
  \<close>
\<close>

definition fingerprint_preprocess_data ::
  "nat list \<Rightarrow> 'a list namespace \<Rightarrow> string \<Rightarrow> string \<Rightarrow> ('a, 'm) fs \<Rightarrow> ('a, 'm) outcome" where
  "fingerprint_preprocess_data order global_names data_dir prep_data_dir fs =
     (case fingerprint_load_and_split order data_dir fs of
        Inl e \<Rightarrow> (Inl e, fs)
      | Inr local_names \<Rightarrow>
          (let fs1 = ensure_dir prep_data_dir fs in
           case savez_names local_names global_names
                  (''/'' @ prep_data_dir @ ''/train_data.npz'')
                  ''x_train'' ''laWhatWhatbel_train'' fs1 of
             (Inl e, fs2) \<Rightarrow> (Inl e, fs2)
           | (Inr u, fs2) \<Rightarrow>
               (case savez_names local_names global_names
                       (''/'' @ prep_data_dir @ ''/val_data.npz'') ''x_val'' ''label_val'' fs2 of
                  (Inl e, fs3) \<Rightarrow> (Inl e, fs3)
                | (Inr u, fs3) \<Rightarrow>
                    savez_names local_names global_names
                      (''/'' @ prep_data_dir @ ''/real_data.npz'') ''x_real'' ''y_real'' fs3)))"

section \<open>Pipeline definitions\<close>

text \<open>
  A pipeline function calls one component per step. An argument of a call is a
  parameter of the pipeline or an output of an earlier task (\<open>task.outputs['name']\<close>, or
  \<open>task.output\<close> for the only output); \<open>task.after(other)\<close> adds an explicit dependency and
  \<open>set_gpu_limit\<close> a resource hint. The attributes \<open>outputs\<close> and \<open>output\<close> of a task are
  \<open>task_outputs\<close> and \<open>task_output\<close> here.
\<close>

datatype argument = PipelineParam string | TaskOutput string "string option"

record task =
  task_name :: string
  component :: string
  arguments :: "argument list"
  dependent_names :: "string list"
  gpu_limit :: "nat option"

definition new_task :: "string \<Rightarrow> string \<Rightarrow> argument list \<Rightarrow> task" where
  "new_task name comp_name args =
     \<lparr>task_name = name, component = comp_name, arguments = args, dependent_names = [],
      gpu_limit = None\<rparr>"

definition task_outputs :: "task \<Rightarrow> string \<Rightarrow> argument" where
  "task_outputs t name = TaskOutput (task_name t) (Some name)"

definition task_output :: "task \<Rightarrow> argument" where
  "task_output t = TaskOutput (task_name t) None"

definition after :: "task \<Rightarrow> task \<Rightarrow> task" where
  "after t other = t\<lparr>dependent_names := dependent_names t @ [task_name other]\<rparr>"

definition set_gpu_limit :: "nat \<Rightarrow> task \<Rightarrow> task" where
  "set_gpu_limit n t = t\<lparr>gpu_limit := Some n\<rparr>"

definition covid19_lung_classification_pipeline :: "task list" where
  "covid19_lung_classification_pipeline =
     (let download_and_extract_task =
            new_task ''download_and_extract_task'' ''download_and_extract_comp''
              [PipelineParam ''dataset_url'', PipelineParam ''dataset_file_name''];
          preprocess_data_task =
            new_task ''preprocess_data_task'' ''preprocess_data_comp''
              [task_outputs download_and_extract_task ''data_path''];
          traintestsplit_data_task =
            new_task ''traintestsplit_data_task'' ''traintestsplit_data_comp''
              [task_outputs preprocess_data_task ''prep_dir'', PipelineParam ''dataset_file_name''];
          train_model_task =
            set_gpu_limit 1
              (new_task ''train_model_task'' ''train_model_comp''
                 [task_output traintestsplit_data_task]);
          evaluate_model_task =
            new_task ''evaluate_model_task'' ''evaluate_model_comp''
              [task_output traintestsplit_data_task, task_output train_model_task];
          plot_confusion_matrix_task =
            new_task ''plot_confusion_matrix_task'' ''plot_confusion_matrix_comp''
              [task_output traintestsplit_data_task, task_output train_model_task, PipelineParam ''labels''];
          convert_model_to_onnx_task =
            new_task ''convert_model_to_onnx_task'' ''convert_model_to_onnx_comp''
              [task_output train_model_task];
          upload_model_task =
            new_task ''upload_model_task'' ''upload_model_comp''
              [task_output convert_model_to_onnx_task, PipelineParam ''minio_url'',
               PipelineParam ''minio_user'', PipelineParam ''minio_pass'',
               PipelineParam ''model_name''];
          deploy_model_with_kserve_task =
            new_task ''deploy_model_with_kserve_task'' ''deploy_model_with_kserve_comp''
              [PipelineParam ''model_name''];
          deploy_model_with_kserve_task = after deploy_model_with_kserve_task upload_model_task
      in [download_and_extract_task, preprocess_data_task, traintestsplit_data_task,
          train_model_task, evaluate_model_task, plot_confusion_matrix_task,
          convert_model_to_onnx_task, upload_model_task, deploy_model_with_kserve_task])"

definition fingerprint_pipeline :: "task list" where
  "fingerprint_pipeline =
     (let download_and_extract_task =
            new_task ''download_and_extract_task'' ''download_and_extract_comp''
              [PipelineParam ''dataset_url'', PipelineParam ''dataset_file_name''];
          preprocess_data_task =
            new_task ''preprocess_data_task'' ''preprocess_data_comp''
              [task_outputs download_and_extract_task ''data_path''];
          train_model_task =
            set_gpu_limit 1
              (new_task ''train_model_task'' ''train_model_comp'' [task_output preprocess_data_task]);
          evaluate_model_task =
            set_gpu_limit 1
              (new_task ''evaluate_model_task'' ''evaluate_model_comp''
                 [task_output preprocess_data_task, task_output train_model_task]);
          convert_model_to_onnx_task =
            new_task ''convert_model_to_onnx_task'' ''convert_model_to_onnx_comp''
              [task_output train_model_task];
          upload_model_task =
            new_task ''upload_model_task'' ''upload_model_comp''
              [task_output convert_model_to_onnx_task, PipelineParam ''minio_url'',
               PipelineParam ''minio_user'', PipelineParam ''minio_pass'',
               PipelineParam ''model_name''];
          deploy_model_with_kserve_task =
            new_task ''deploy_model_with_kserve_task'' ''deploy_model_with_kserve_comp''
              [PipelineParam ''model_name''];
          deploy_model_with_kserve_task = after deploy_model_with_kserve_task upload_model_task
      in [download_and_extract_task, preprocess_data_task, train_model_task,
          evaluate_model_task, convert_model_to_onnx_task, upload_model_task,
          deploy_model_with_kserve_task])"

text \<open>
  The task graph the pipeline runtime orders the steps by: an edge from the producer to
  the consumer for every output passed as an argument, and an edge for every explicit
  dependency.
\<close>

definition data_edges :: "task list \<Rightarrow> (string \<times> string) list" where
  "data_edges p =
     concat (map (\<lambda>t. concat (map (\<lambda>a. case a of
                                           TaskOutput src name \<Rightarrow> [(src, task_name t)]
                                         | PipelineParam name \<Rightarrow> [])
                                 (arguments t))) p)"

definition after_edges :: "task list \<Rightarrow> (string \<times> string) list" where
  "after_edges p = concat (map (\<lambda>t. map (\<lambda>s. (s, task_name t)) (dependent_names t)) p)"

definition ordering_edges :: "task list \<Rightarrow> (string \<times> string) list" where
  "ordering_edges p = remdups (data_edges p @ after_edges p)"

section \<open>Example inputs\<close>

text \<open>Small concrete inputs on which the properties below are instantiated.\<close>

definition example_generator :: "nat DataGenerator" where
  "example_generator =
     \<lparr>x = [10, 20], label = [[0, 0, 0, 1], [0, 0, 0, 2]], x_real = [100, 200, 300],
      label_real_dict = [(''000001'', 0), (''000002'', 1), (''000003'', 2)],
      batch_size = 2, shuffle = False\<rparr>"

definition example_fingerprint_fs :: "(nat, unit) fs" where
  "example_fingerprint_fs =
     \<lparr>dirs = {''/data''},
      files = [''/data/x_real.npz'' \<mapsto> Npz [(''data'', [10])],
               ''/data/y_real.npy'' \<mapsto> Npy [1],
               ''/data/x_easy.npz'' \<mapsto> Npz [(''data'', [11, 12])],
               ''/data/y_easy.npy'' \<mapsto> Npy [1, 2],
               ''/data/x_medium.npz'' \<mapsto> Npz [(''data'', [13])],
               ''/data/y_medium.npy'' \<mapsto> Npy [3],
               ''/data/x_hard.npz'' \<mapsto> Npz [(''data'', [14])],
               ''/data/y_hard.npy'' \<mapsto> Npy [4]]\<rparr>"

definition example_list_images :: "string \<Rightarrow> string list" where
  "example_list_images d =
     [d @ ''/covid/a.png'', d @ ''/normal/b.png'', d @ ''/other/c.png'', d @ ''/covid/d.png'']"

definition example_imread :: "string \<Rightarrow> nat option" where
  "example_imread p = Some (length p)"

definition example_empty_fs :: "(nat covid_row, unit) fs" where
  "example_empty_fs = \<lparr>dirs = {}, files = Map.empty\<rparr>"

definition example_covid_prep_fs :: "(nat covid_row, unit) fs" where
  "example_covid_prep_fs =
     \<lparr>dirs = {''/prep''},
      files = [''//prep/data.npz'' \<mapsto>
                 Npz [(''data'', map Image [1, 2, 3, 4, 5]),
                      (''labels'', map OneHot [[1, 0], [0, 1], [1, 0], [0, 1], [1, 0]])]]\<rparr>"

definition example_fraud_fs :: "(fraud_row, unit) fs" where
  "example_fraud_fs =
     \<lparr>dirs = {''/prep''},
      files = [''/prep/df.pkl'' \<mapsto>
                 Pickle \<lparr>columns = [''distance'', ''fraud''],
                         rows = [[Num 1, Num 0], [Num 2, Num 1], [Num 3, Num 0],
                                 [Num 4, Num 0], [Num 5, Num 1]]\<rparr>]\<rparr>"

section \<open>Properties\<close>

subsection \<open>The random source and the rejection loop\<close>

lemma random_choice_nonempty:
  "seq \<noteq> [] \<Longrightarrow> random_choice seq g = Inr (drawn_item seq (shd g), stl g)"
  by (simp add: random_choice_def randbelow_def drawn_item_def)

lemma drawn_item_mem: "seq \<noteq> [] \<Longrightarrow> drawn_item seq dr \<in> set seq"
  by (simp add: drawn_item_def)

lemma sample_unmatched_Some:
  assumes "sample_unmatched d mk g = Some r"
  shows "(d = [] \<and> r = Inl IndexError)
       \<or> (\<exists>item g'. r = Inr (item, g') \<and> item \<in> set d \<and> fst item \<noteq> mk)"
proof (rule sample_unmatched.raw_induct
    [where P = "\<lambda>d mk g r. (d = [] \<and> r = Inl IndexError)
       \<or> (\<exists>item g'. r = Inr (item, g') \<and> item \<in> set d \<and> fst item \<noteq> mk)", OF _ assms])
  fix f :: "label_dict \<Rightarrow> string \<Rightarrow> rng \<Rightarrow> (py_error + ((string \<times> nat) \<times> rng)) option"
  fix d mk g r
  assume IH: "\<And>d mk g r. f d mk g = Some r \<Longrightarrow>
      (d = [] \<and> r = Inl IndexError)
       \<or> (\<exists>item g'. r = Inr (item, g') \<and> item \<in> set d \<and> fst item \<noteq> mk)"
  assume step: "(case random_choice d g of
        Inl e \<Rightarrow> Some (Inl e)
      | Inr (item, g') \<Rightarrow>
          (if fst item \<noteq> mk then Some (Inr (item, g')) else f d mk g')) = Some r"
  show "(d = [] \<and> r = Inl IndexError)
       \<or> (\<exists>item g'. r = Inr (item, g') \<and> item \<in> set d \<and> fst item \<noteq> mk)"
  proof (cases "d = []")
    case True
    with step show ?thesis by (simp add: random_choice_def)
  next
    case False
    let ?it = "drawn_item d (shd g)"
    have mem: "?it \<in> set d" using False by (rule drawn_item_mem)
    show ?thesis
    proof (cases "fst ?it \<noteq> mk")
      case True
      with step False have "r = Inr (?it, stl g)"
        by (simp add: random_choice_nonempty)
      with True mem show ?thesis by blast
    next
      case no: False
      with step False have "f d mk (stl g) = Some r"
        by (simp add: random_choice_nonempty)
      from IH[OF this] show ?thesis .
    qed
  qed
qed

lemma sample_unmatched_first:
  assumes "d \<noteq> []"
    and "\<forall>k<m. fst (drawn_item d (g !! k)) = mk"
    and "fst (drawn_item d (g !! m)) \<noteq> mk"
  shows "sample_unmatched d mk g = Some (Inr (drawn_item d (g !! m), sdrop (Suc m) g))"
  using assms
proof (induction m arbitrary: g)
  case 0
  then show ?case
    by (subst sample_unmatched.simps) (simp add: random_choice_nonempty)
next
  case (Suc m)
  have hd: "fst (drawn_item d (shd g)) = mk"
    using Suc.prems(2) by (metis snth.simps(1) zero_less_Suc)
  have "sample_unmatched d mk (stl g)
      = Some (Inr (drawn_item d (stl g !! m), sdrop (Suc m) (stl g)))"
  proof (rule Suc.IH)
    show "d \<noteq> []" by fact
    show "\<forall>k<m. fst (drawn_item d (stl g !! k)) = mk"
      using Suc.prems(2) by (metis Suc_mono snth.simps(2))
    show "fst (drawn_item d (stl g !! m)) \<noteq> mk" using Suc.prems(3) by simp
  qed
  with hd Suc.prems(1) show ?case
    by (subst sample_unmatched.simps) (simp add: random_choice_nonempty)
qed

lemma sample_unmatched_eventually:
  assumes "d \<noteq> []" and "fst (drawn_item d (g !! n)) \<noteq> mk"
  shows "\<exists>item g'. sample_unmatched d mk g = Some (Inr (item, g'))
           \<and> item \<in> set d \<and> fst item \<noteq> mk"
proof -
  define m where "m = (LEAST k. fst (drawn_item d (g !! k)) \<noteq> mk)"
  have hit: "fst (drawn_item d (g !! m)) \<noteq> mk"
    unfolding m_def using assms(2) by (rule LeastI)
  have before: "\<forall>k<m. fst (drawn_item d (g !! k)) = mk"
    unfolding m_def using not_less_Least by blast
  from sample_unmatched_first [OF assms(1) before hit] hit drawn_item_mem [OF assms(1)]
  show ?thesis by blast
qed

text \<open>
  C10, with the empty dictionary told apart. The rejection loop of the data generator
  leaves with an unmatched reference only if \<open>label_real_dict\<close> has a key other than the probe's match key. If
  the dictionary is not empty and all its keys equal the match key, the loop never
  terminates, whatever the generator draws. If the dictionary is empty, the loop does not
  spin: \<open>random.choice\<close> raises IndexError at the first pass. And if the dictionary is not
  empty, the loop terminates with a non-matching item of the dictionary on every stream
  of draws that at some position yields a non-matching item.
\<close>

theorem sample_unmatched_termination:
  "(d \<noteq> [] \<and> (\<forall>item\<in>set d. fst item = mk) \<longrightarrow> sample_unmatched d mk g = None)
   \<and> (d = [] \<longrightarrow> sample_unmatched d mk g = Some (Inl IndexError))
   \<and> ((\<exists>r. sample_unmatched d mk g = Some (Inr r)) \<longrightarrow> (\<exists>item\<in>set d. fst item \<noteq> mk))
   \<and> (d \<noteq> [] \<and> fst (drawn_item d (g !! n)) \<noteq> mk \<longrightarrow>
        (\<exists>item g'. sample_unmatched d mk g = Some (Inr (item, g'))
           \<and> item \<in> set d \<and> fst item \<noteq> mk))"
proof (intro conjI impI)
  assume a: "d \<noteq> [] \<and> (\<forall>item\<in>set d. fst item = mk)"
  show "sample_unmatched d mk g = None"
  proof (cases "sample_unmatched d mk g")
    case None
    then show ?thesis .
  next
    case (Some r)
    from sample_unmatched_Some [OF this] a show ?thesis by blast
  qed
next
  assume "d = []"
  then show "sample_unmatched d mk g = Some (Inl IndexError)"
    by (subst sample_unmatched.simps) (simp add: random_choice_def)
next
  assume "\<exists>r. sample_unmatched d mk g = Some (Inr r)"
  then obtain r where "sample_unmatched d mk g = Some (Inr r)" ..
  from sample_unmatched_Some [OF this] show "\<exists>item\<in>set d. fst item \<noteq> mk" by fastforce
next
  assume "d \<noteq> [] \<and> fst (drawn_item d (g !! n)) \<noteq> mk"
  then show "\<exists>item g'. sample_unmatched d mk g = Some (Inr (item, g'))
           \<and> item \<in> set d \<and> fst item \<noteq> mk"
    using sample_unmatched_eventually by blast
qed

theorem sample_unmatched_termination_witness:
  "sample_unmatched [(''000001'', 0)] ''000001'' (sconst (Draw 0 0)) = None
   \<and> (\<exists>item g'. sample_unmatched [(''000001'', 0), (''000002'', 1)] ''000001''
          (Draw 0 0 ## sconst (Draw 0 1)) = Some (Inr (item, g'))
        \<and> fst item \<noteq> ''000001'')"
  using sample_unmatched_termination [of "[(''000001'', 0)]" "''000001''" "sconst (Draw 0 0)" 0]
    sample_unmatched_termination [of "[(''000001'', 0), (''000002'', 1)]" "''000001''"
      "Draw 0 0 ## sconst (Draw 0 1)" 1]
  by (auto simp: drawn_item_def)

text \<open>
  C10 on the empty dictionary: all its keys equal the match key (there are none), and
  the loop, far from running forever, ends at once with IndexError.
\<close>

theorem sample_unmatched_empty_dict_counterexample:
  "set (map fst ([] :: label_dict)) \<subseteq> {''000001''}
   \<and> sample_unmatched [] ''000001'' (sconst (Draw 0 0)) = Some (Inl IndexError)"
  by (subst sample_unmatched.simps) (simp add: random_choice_def)

subsection \<open>The pairs of a batch\<close>

lemma py_get_nat:
  "py_get xs (int i) = (if i < length xs then Inr (xs ! i) else Inl IndexError)"
  by (simp add: py_get_def)

lemma pair_probe_matched:
  assumes "1/2 < unit_float (shd g)"
    and "map_of (label_real_dict gen) (label_key l) = Some idx"
    and "idx < length (x_real gen)"
  shows "pair_probe gen l g = Some (Inr ((x_real gen ! idx, 1), stl g))"
  using assms
  by (simp add: pair_probe_def random_random_def dict_get_def py_get_nat)

lemma pair_probe_unmatched:
  assumes "unit_float (shd g) \<le> 1/2"
    and "label_real_dict gen \<noteq> []"
    and "\<forall>k<m. fst (drawn_item (label_real_dict gen) (stl g !! k)) = label_key l"
    and "fst (drawn_item (label_real_dict gen) (stl g !! m)) \<noteq> label_key l"
    and "snd (drawn_item (label_real_dict gen) (stl g !! m)) < length (x_real gen)"
  shows "pair_probe gen l g =
     Some (Inr ((x_real gen ! snd (drawn_item (label_real_dict gen) (stl g !! m)), 0),
                sdrop (Suc m) (stl g)))"
proof -
  let ?it = "drawn_item (label_real_dict gen) (stl g !! m)"
  have "sample_unmatched (label_real_dict gen) (label_key l) (stl g)
      = Some (Inr (?it, sdrop (Suc m) (stl g)))"
    using assms(2,3,4) by (rule sample_unmatched_first)
  with assms(1,5) show ?thesis
    by (simp add: pair_probe_def random_random_def py_get_nat case_prod_beta)
qed

lemma length_py_slice_le: "length (py_slice xs (i * n) ((i + 1) * n)) \<le> n"
  by (simp add: py_slice_def)

lemma label_key_examples:
  "label_key [0, 0, 0, 1] = ''000001''"
  "label_key [0, 0, 0, 2] = ''000002''"
  by (simp_all add: label_key_def zfill_def str_int_def str_nat.simps digit_char_def
      numeral_2_eq_2)

lemma example_getitem:
  "getitem augment (\<lambda>i. i) 0 example_generator 0
     (Draw (3/4) 0 ## Draw (1/4) 0 ## sconst (Draw 0 0))
   = Some (Inr ((([10, 20], [100, 100]), [1, 0]), sconst (Draw 0 0)))"
  by (simp add: getitem_def example_generator_def py_slice_def enumerate_eq_zip
      upt_conv_Cons numeral_2_eq_2 pair_probe_def random_random_def dict_get_def
      py_get_nat py_get_def py_set_def label_key_examples sample_unmatched.simps random_choice_def
      randbelow_def)

lemma shift_eq_self:
  assumes "\<forall>s. w @- s = (s :: draw stream)"
  shows "w = []"
proof (cases w)
  case Nil then show ?thesis .
next
  case (Cons a w')
  let ?b = "Draw (unit_float a + 1) 0"
  from assms have "w @- sconst ?b = sconst ?b" by blast
  then have "shd (w @- sconst ?b) = shd (sconst ?b)" by simp
  with Cons have "a = ?b" by simp
  then have "unit_float a = unit_float ?b" by simp
  then show ?thesis by simp
qed

lemma returns_after_prefix:
  assumes "returns_after run w a" and "returns_after run (w @ u) b"
  shows "u = [] \<and> a = b"
proof -
  have "\<forall>s. u @- s = s \<and> a = b"
  proof
    fix s
    from assms(1) have "run (w @- u @- s) = Some (Inr (a, u @- s))"
      by (simp add: returns_after_def)
    moreover from assms(2) have "run (w @- u @- s) = Some (Inr (b, s))"
      by (simp add: returns_after_def shift_append)
    ultimately show "u @- s = s \<and> a = b" by simp
  qed
  then show ?thesis using shift_eq_self by blast
qed

subsection \<open>The sizes of the sets of draws\<close>

lemma inj_float: "inj_on (\<lambda>k. real k / 2 ^ 53) A"
  by (rule inj_onI) simp

lemma finite_float_values: "finite float_values"
  by (simp add: float_values_def)

lemma card_float_values: "card float_values = 2 ^ 53"
  unfolding float_values_def by (subst card_image [OF inj_float]) simp

lemma float_values_high:
  "{u \<in> float_values. 1/2 < u} = (\<lambda>k. real k / 2 ^ 53) ` {2 ^ 52 <..< 2 ^ 53}"
proof -
  have "1/2 < real k / 2 ^ 53 \<longleftrightarrow> 2 ^ 52 < k" for k :: nat
  proof -
    have "1/2 < real k / 2 ^ 53 \<longleftrightarrow> (2::real) ^ 52 < real k"
      by (simp add: field_simps)
    also have "\<dots> \<longleftrightarrow> real ((2::nat) ^ 52) < real k" by simp
    also have "\<dots> \<longleftrightarrow> 2 ^ 52 < k" by (simp only: of_nat_less_iff)
    finally show ?thesis .
  qed
  then show ?thesis by (auto simp: float_values_def)
qed

lemma card_float_high: "card {u \<in> float_values. 1/2 < u} = 2 ^ 52 - 1"
  by (subst float_values_high, subst card_image [OF inj_float]) simp

lemma card_float_low: "card {u \<in> float_values. \<not> 1/2 < u} = 2 ^ 52 + 1"
proof -
  have "{u \<in> float_values. \<not> 1/2 < u} = float_values - {u \<in> float_values. 1/2 < u}" by auto
  then have "card {u \<in> float_values. \<not> 1/2 < u} = card float_values - card {u \<in> float_values. 1/2 < u}"
    by (simp add: card_Diff_subset finite_float_values)
  then show ?thesis unfolding card_float_values card_float_high by simp
qed

lemma draw_space_image:
  "{dr \<in> draw_space n. P (unit_float dr) \<and> Q (raw_bits dr)}
     = (\<lambda>(u, i). Draw u i) ` ({u \<in> float_values. P u} \<times> {i. i < n \<and> Q i})"
proof (rule set_eqI)
  fix dr
  show "dr \<in> {dr \<in> draw_space n. P (unit_float dr) \<and> Q (raw_bits dr)}
    \<longleftrightarrow> dr \<in> (\<lambda>(u, i). Draw u i) ` ({u \<in> float_values. P u} \<times> {i. i < n \<and> Q i})"
    by (cases dr) (auto simp: draw_space_def image_iff)
qed

lemma card_draw_space_sub:
  "card {dr \<in> draw_space n. P (unit_float dr) \<and> Q (raw_bits dr)}
     = card {u \<in> float_values. P u} * card {i. i < n \<and> Q i}"
proof -
  have "inj_on (\<lambda>(u, i). Draw u i) S" for S by (rule inj_onI) auto
  then show ?thesis
    by (simp add: draw_space_image card_image card_cartesian_product)
qed

lemma finite_draw_space: "finite (draw_space n)"
proof -
  have "draw_space n = {dr \<in> draw_space n. (\<lambda>u. True) (unit_float dr) \<and> (\<lambda>i. True) (raw_bits dr)}"
    by simp
  also have "\<dots> = (\<lambda>(u, i). Draw u i) ` ({u \<in> float_values. True} \<times> {i. i < n \<and> True})"
    by (rule draw_space_image)
  finally show ?thesis by (simp add: finite_float_values)
qed

lemma card_draw_space: "card (draw_space n) = 2 ^ 53 * n"
  using card_draw_space_sub [of n "\<lambda>u. True" "\<lambda>i. True"] by (simp add: card_float_values)

lemma card_draw_high: "card {dr \<in> draw_space n. 1/2 < unit_float dr} = (2 ^ 52 - 1) * n"
  using card_draw_space_sub [of n "\<lambda>u. 1/2 < u" "\<lambda>i. True"] unfolding card_float_high by simp

lemma card_draw_low: "card {dr \<in> draw_space n. \<not> 1/2 < unit_float dr} = (2 ^ 52 + 1) * n"
  using card_draw_space_sub [of n "\<lambda>u. \<not> 1/2 < u" "\<lambda>i. True"] unfolding card_float_low by simp

lemma card_draw_bits:
  "card {dr \<in> draw_space n. Q (raw_bits dr)} = 2 ^ 53 * card {i. i < n \<and> Q i}"
  using card_draw_space_sub [of n "\<lambda>u. True" Q] by (simp add: card_float_values)

lemma finite_draw_words: "finite (draw_words n L)"
proof -
  have "draw_words n L = {w. set w \<subseteq> draw_space n \<and> length w = L}"
    by (auto simp: draw_words_def)
  then show ?thesis by (simp add: finite_lists_length_eq finite_draw_space)
qed

lemma card_draw_words_power: "card (draw_words n L) = card (draw_space n) ^ L"
proof -
  have "draw_words n L = {w. set w \<subseteq> draw_space n \<and> length w = L}"
    by (auto simp: draw_words_def)
  then show ?thesis
    by (simp add: card_lists_length_eq finite_draw_space)
qed

lemma card_draw_words: "card (draw_words n L) = (2 ^ 53 * n) ^ L"
proof -
  have "draw_words n L = {w. set w \<subseteq> draw_space n \<and> length w = L}"
    by (auto simp: draw_words_def)
  then show ?thesis
    by (simp add: card_lists_length_eq finite_draw_space card_draw_space)
qed

subsection \<open>One probe on a finite word of draws\<close>

lemma sample_unmatched_all_matching:
  assumes "d \<noteq> []" and "\<forall>n. fst (drawn_item d (g !! n)) = mk"
  shows "sample_unmatched d mk g = None"
proof (cases "sample_unmatched d mk g")
  case None
  then show ?thesis .
next
  case (Some r)
  have "d = [] \<or> (\<exists>n. fst (drawn_item d (g !! n)) \<noteq> mk)"
  proof (rule sample_unmatched.raw_induct
      [where P = "\<lambda>d mk g r. d = [] \<or> (\<exists>n. fst (drawn_item d (g !! n)) \<noteq> mk)", OF _ Some])
    fix f :: "label_dict \<Rightarrow> string \<Rightarrow> rng \<Rightarrow> (py_error + ((string \<times> nat) \<times> rng)) option"
    fix d mk g r
    assume IH: "\<And>d mk g r. f d mk g = Some r \<Longrightarrow>
        d = [] \<or> (\<exists>n. fst (drawn_item d (g !! n)) \<noteq> mk)"
    assume step: "(case random_choice d g of
          Inl e \<Rightarrow> Some (Inl e)
        | Inr (item, g') \<Rightarrow>
            (if fst item \<noteq> mk then Some (Inr (item, g')) else f d mk g')) = Some r"
    show "d = [] \<or> (\<exists>n. fst (drawn_item d (g !! n)) \<noteq> mk)"
    proof (cases "d = []")
      case True
      then show ?thesis by simp
    next
      case False
      show ?thesis
      proof (cases "fst (drawn_item d (shd g)) \<noteq> mk")
        case True
        then have "fst (drawn_item d (g !! 0)) \<noteq> mk" by simp
        then show ?thesis by blast
      next
        case no: False
        with step False have "f d mk (stl g) = Some r"
          by (simp add: random_choice_nonempty)
        from IH [OF this] False obtain n where "fst (drawn_item d (stl g !! n)) \<noteq> mk"
          by blast
        then have "fst (drawn_item d (g !! Suc n)) \<noteq> mk" by simp
        then show ?thesis by blast
      qed
    qed
  qed
  with assms show ?thesis by blast
qed

lemma pair_probe_stuck:
  assumes "label_real_dict gen \<noteq> []"
    and "\<not> 1/2 < unit_float (shd g)"
    and "\<forall>n. fst (drawn_item (label_real_dict gen) (stl g !! n)) = label_key l"
  shows "pair_probe gen l g = None"
  using assms(2) sample_unmatched_all_matching [OF assms(1,3)]
  by (simp add: pair_probe_def random_random_def)

lemma pairing_word_returns:
  assumes valid: "\<forall>item\<in>set (label_real_dict gen). snd item < length (x_real gen)"
    and ne: "label_real_dict gen \<noteq> []"
    and w: "pairing_word gen l w p"
  shows "returns_after (pair_probe gen l) w p"
proof -
  let ?d = "label_real_dict gen"
  from w consider
    (matched) c idx where "w = [c]" "1/2 < unit_float c"
      "map_of ?d (label_key l) = Some idx" "p = (x_real gen ! idx, 1)"
  | (unmatched) c rej e where "w = c # rej @ [e]" "\<not> 1/2 < unit_float c"
      "\<forall>r\<in>set rej. fst (drawn_item ?d r) = label_key l"
      "fst (drawn_item ?d e) \<noteq> label_key l"
      "p = (x_real gen ! snd (drawn_item ?d e), 0)"
    unfolding pairing_word_def by blast
  then show ?thesis
  proof cases
    case matched
    from matched(3) have "(label_key l, idx) \<in> set ?d" by (rule map_of_SomeD)
    with valid have "idx < length (x_real gen)" by fastforce
    with matched show ?thesis
      by (simp add: returns_after_def pair_probe_matched)
  next
    case unmatched
    have idx: "snd (drawn_item ?d e) < length (x_real gen)"
      using valid drawn_item_mem [OF ne] by blast
    show ?thesis
      unfolding returns_after_def
    proof
      fix s
      let ?g = "w @- s"
      have low: "unit_float (shd ?g) \<le> 1/2" using unmatched(1,2) by simp
      have tl: "stl ?g = (rej @ [e]) @- s" using unmatched(1) by simp
      have before: "\<forall>k<length rej. fst (drawn_item ?d (stl ?g !! k)) = label_key l"
        unfolding tl using unmatched(3) by simp
      have at: "stl ?g !! length rej = e"
        unfolding tl by simp
      have rest: "sdrop (Suc (length rej)) (stl ?g) = s"
        unfolding tl by (simp add: sdrop_shift)
      from pair_probe_unmatched [of ?g gen "length rej" l, OF low ne before]
        unmatched(4,5) idx at rest
      show "pair_probe gen l ?g = Some (Inr (p, s))" by simp
    qed
  qed
qed

lemma pair_probe_word_cases:
  assumes m: "map_of (label_real_dict gen) (label_key l) = Some idx"
  shows "(\<exists>w1 w2 p. w = w1 @ w2 \<and> pairing_word gen l w1 p)
       \<or> (\<exists>s. pair_probe gen l (w @- s) = None)"
proof -
  let ?d = "label_real_dict gen"
  let ?k = "label_key l"
  from m have mem: "(?k, idx) \<in> set ?d" by (rule map_of_SomeD)
  then have ne: "?d \<noteq> []" by auto
  from mem obtain i where i: "i < length ?d" "?d ! i = (?k, idx)"
    by (auto simp: in_set_conv_nth)
  define z where "z = Draw 0 i"
  have z: "fst (drawn_item ?d z) = ?k" "\<not> 1/2 < unit_float z"
    using i by (simp_all add: z_def drawn_item_def)
  have stuck: "pair_probe gen l ((c # rej) @- sconst z) = None"
    if "\<not> 1/2 < unit_float c" "\<forall>r\<in>set rej. fst (drawn_item ?d r) = ?k" for c rej
  proof (rule pair_probe_stuck [OF ne])
    show "\<not> 1/2 < unit_float (shd ((c # rej) @- sconst z))" using that(1) by simp
    show "\<forall>n. fst (drawn_item ?d (stl ((c # rej) @- sconst z) !! n)) = ?k"
      using that(2) z(1) by (simp add: shift_snth)
  qed
  show ?thesis
  proof (cases w)
    case Nil
    have "pair_probe gen l ([z] @- sconst z) = None"
      by (rule stuck [OF z(2)]) simp
    moreover have "[z] @- sconst z = sconst z"
      by (subst (2) siterate.ctr) simp
    ultimately have "pair_probe gen l (w @- sconst z) = None"
      using Nil by simp
    then show ?thesis by blast
  next
    case (Cons c rest)
    show ?thesis
    proof (cases "1/2 < unit_float c")
      case True
      with m have "pairing_word gen l [c] (x_real gen ! idx, 1)"
        by (simp add: pairing_word_def)
      with Cons have "w = [c] @ rest \<and> pairing_word gen l [c] (x_real gen ! idx, 1)" by simp
      then show ?thesis by blast
    next
      case low: False
      show ?thesis
      proof (cases "\<exists>e\<in>set rest. fst (drawn_item ?d e) \<noteq> ?k")
        case True
        from split_list_first_prop [OF this] obtain rej e tail where
          sp: "rest = rej @ e # tail" "fst (drawn_item ?d e) \<noteq> ?k"
            "\<forall>r\<in>set rej. \<not> fst (drawn_item ?d r) \<noteq> ?k"
          by blast
        with low have "pairing_word gen l (c # rej @ [e]) (x_real gen ! snd (drawn_item ?d e), 0)"
          by (simp add: pairing_word_def)
        moreover have "w = (c # rej @ [e]) @ tail" using Cons sp(1) by simp
        ultimately show ?thesis by blast
      next
        case False
        then have "\<forall>r\<in>set rest. fst (drawn_item ?d r) = ?k" by blast
        from stuck [OF low this] Cons have "pair_probe gen l (w @- sconst z) = None" by simp
        then show ?thesis by blast
      qed
    qed
  qed
qed

lemma pair_probe_returns_iff:
  assumes valid: "\<forall>item\<in>set (label_real_dict gen). snd item < length (x_real gen)"
    and m: "map_of (label_real_dict gen) (label_key l) = Some idx"
  shows "returns_after (pair_probe gen l) w p \<longleftrightarrow> pairing_word gen l w p"
proof
  from m have ne: "label_real_dict gen \<noteq> []" by auto
  {
    assume "pairing_word gen l w p"
    then show "returns_after (pair_probe gen l) w p"
      by (rule pairing_word_returns [OF valid ne])
  }
  assume r: "returns_after (pair_probe gen l) w p"
  from pair_probe_word_cases [OF m, of w] show "pairing_word gen l w p"
  proof
    assume "\<exists>s. pair_probe gen l (w @- s) = None"
    with r show ?thesis by (simp add: returns_after_def)
  next
    assume "\<exists>w1 w2 p. w = w1 @ w2 \<and> pairing_word gen l w1 p"
    then obtain w1 w2 p' where w: "w = w1 @ w2" and pw: "pairing_word gen l w1 p'" by blast
    from pw have "returns_after (pair_probe gen l) w1 p'"
      by (rule pairing_word_returns [OF valid ne])
    from returns_after_prefix [OF this r [unfolded w]] pw w show ?thesis by simp
  qed
qed

subsection \<open>Counting the words of one probe\<close>

lemma pairing_words_0: "{w \<in> draw_words n 0. \<exists>p\<in>A. pairing_word gen l w p} = {}"
  by (auto simp: draw_words_def pairing_word_def)

lemma pairing_words_1:
  assumes m: "map_of (label_real_dict gen) (label_key l) = Some idx"
  shows "{w \<in> draw_words n (Suc 0). \<exists>p\<in>A. pairing_word gen l w p}
       = (if (x_real gen ! idx, 1) \<in> A
          then (\<lambda>c. [c]) ` {c \<in> draw_space n. 1/2 < unit_float c} else {})"
proof -
  have "w \<in> draw_words n (Suc 0) \<and> (\<exists>p\<in>A. pairing_word gen l w p)
      \<longleftrightarrow> (x_real gen ! idx, 1) \<in> A \<and> (\<exists>c. w = [c] \<and> c \<in> draw_space n \<and> 1/2 < unit_float c)"
    for w
    by (auto simp: draw_words_def pairing_word_def m)
  then show ?thesis by auto
qed

lemma pairing_words_SS:
  "{w \<in> draw_words n (Suc (Suc L)). \<exists>p\<in>A. pairing_word gen l w p}
     = (\<lambda>(c, rej, e). c # rej @ [e]) `
         ({c \<in> draw_space n. \<not> 1/2 < unit_float c}
          \<times> {rej. set rej \<subseteq> {r \<in> draw_space n.
                         fst (drawn_item (label_real_dict gen) r) = label_key l}
                  \<and> length rej = L}
          \<times> {e \<in> draw_space n. fst (drawn_item (label_real_dict gen) e) \<noteq> label_key l
                  \<and> (x_real gen ! snd (drawn_item (label_real_dict gen) e), 0) \<in> A})"
  (is "?lhs = ?f ` ?S")
proof (rule set_eqI)
  fix w
  show "w \<in> ?lhs \<longleftrightarrow> w \<in> ?f ` ?S"
  proof
    assume "w \<in> ?lhs"
    then obtain p where w: "length w = Suc (Suc L)" "set w \<subseteq> draw_space n"
      and p: "p \<in> A" "pairing_word gen l w p"
      by (auto simp: draw_words_def)
    from p(2) w(1) obtain c rej e where
      f: "w = c # rej @ [e]" "\<not> 1/2 < unit_float c"
        "\<forall>r\<in>set rej. fst (drawn_item (label_real_dict gen) r) = label_key l"
        "fst (drawn_item (label_real_dict gen) e) \<noteq> label_key l"
        "p = (x_real gen ! snd (drawn_item (label_real_dict gen) e), 0)"
      unfolding pairing_word_def by auto
    from f(1) w p(1) f(2-5) have "(c, rej, e) \<in> ?S" by auto
    with f(1) show "w \<in> ?f ` ?S" by force
  next
    assume "w \<in> ?f ` ?S"
    then obtain c rej e where "(c, rej, e) \<in> ?S" and w: "w = c # rej @ [e]" by auto
    then show "w \<in> ?lhs"
      by (auto simp: draw_words_def pairing_word_def)
  qed
qed

lemma card_triples:
  assumes "finite C" "finite R" "finite E"
  shows "card ((\<lambda>(c, rej, e). c # rej @ [e]) ` (C \<times> R \<times> E)) = card C * (card R * card E)"
proof -
  have "inj_on (\<lambda>(c, rej, e). c # rej @ [e]) (C \<times> R \<times> E)"
    by (rule inj_onI) auto
  then show ?thesis by (simp add: card_image card_cartesian_product)
qed

lemma card_draw_items:
  "card {r \<in> draw_space (length d). Q (drawn_item d r)} = 2 ^ 53 * length (filter Q d)"
proof -
  have "{r \<in> draw_space (length d). Q (drawn_item d r)}
      = {r \<in> draw_space (length d). (\<lambda>i. Q (d ! i)) (raw_bits r)}"
    by (auto simp: draw_space_def drawn_item_def)
  then have "card {r \<in> draw_space (length d). Q (drawn_item d r)}
      = card {r \<in> draw_space (length d). (\<lambda>i. Q (d ! i)) (raw_bits r)}"
    by (rule arg_cong)
  also have "\<dots> = 2 ^ 53 * card {i. i < length d \<and> (\<lambda>i. Q (d ! i)) i}"
    by (rule card_draw_bits)
  also have "\<dots> = 2 ^ 53 * length (filter Q d)"
    by (simp only: length_filter_conv_card)
  finally show ?thesis .
qed

lemma finite_sub_draw_space: "finite {r \<in> draw_space n. P r}"
  using finite_draw_space by (rule finite_subset [rotated]) auto

lemma pair_probe_chance_values:
  fixes gen :: "'img DataGenerator" and l A
  defines "d \<equiv> label_real_dict gen"
  defines "N \<equiv> length d"
  defines "mt \<equiv> length (filter (\<lambda>item. fst item = label_key l) d)"
  defines "a \<equiv> length (filter (\<lambda>item. fst item \<noteq> label_key l
                              \<and> (x_real gen ! snd item, 0) \<in> A) d)"
  assumes valid: "\<forall>item\<in>set d. snd item < length (x_real gen)"
    and m: "map_of d (label_key l) = Some idx"
  shows "chance_at N (pair_probe gen l) A 0 = 0"
    and "chance_at N (pair_probe gen l) A (Suc 0)
           = (if (x_real gen ! idx, 1) \<in> A then (2 ^ 52 - 1) / 2 ^ 53 else 0)"
    and "chance_at N (pair_probe gen l) A (Suc (Suc L))
           = (2 ^ 52 + 1) / 2 ^ 53 * (real a / real N) * (real mt / real N) ^ L"
proof -
  have Npos: "0 < N"
    using map_of_SomeD [OF m] unfolding N_def by (cases d) auto
  have ev: "{w \<in> draw_words N L. \<exists>p\<in>A. returns_after (pair_probe gen l) w p}
          = {w \<in> draw_words N L. \<exists>p\<in>A. pairing_word gen l w p}" for L
    using pair_probe_returns_iff [of gen l idx, OF valid [unfolded d_def] m [unfolded d_def]]
    by simp
  show "chance_at N (pair_probe gen l) A 0 = 0"
    by (simp add: chance_at_def word_share_def ev pairing_words_0)
  have inj1: "inj_on (\<lambda>c. [c]) S" for S :: "draw set" by (rule inj_onI) simp
  have "card {w \<in> draw_words N (Suc 0). \<exists>p\<in>A. pairing_word gen l w p}
      = (if (x_real gen ! idx, 1) \<in> A then (2 ^ 52 - 1) * N else 0)"
    by (cases "(x_real gen ! idx, 1) \<in> A")
      (simp_all only: pairing_words_1 [OF m [unfolded d_def]] if_True if_False
        card_image [OF inj1] card_draw_high card.empty)
  then show "chance_at N (pair_probe gen l) A (Suc 0)
           = (if (x_real gen ! idx, 1) \<in> A then (2 ^ 52 - 1) / 2 ^ 53 else 0)"
    using Npos by (simp add: chance_at_def word_share_def ev card_draw_words)
  have fin: "finite {c \<in> draw_space N. \<not> 1/2 < unit_float c}"
    "finite {rej. set rej \<subseteq> {r \<in> draw_space N. fst (drawn_item d r) = label_key l}
                  \<and> length rej = L}"
    "finite {e \<in> draw_space N. fst (drawn_item d e) \<noteq> label_key l
                  \<and> (x_real gen ! snd (drawn_item d e), 0) \<in> A}"
    by (rule finite_sub_draw_space, rule finite_lists_length_eq, rule finite_sub_draw_space,
        rule finite_sub_draw_space)
  have cR: "card {rej. set rej \<subseteq> {r \<in> draw_space N. fst (drawn_item d r) = label_key l}
                  \<and> length rej = L} = (2 ^ 53 * mt) ^ L"
    unfolding mt_def N_def
    by (subst card_lists_length_eq, rule finite_sub_draw_space)
      (simp only: card_draw_items [of d "\<lambda>item. fst item = label_key l"])
  have cE: "card {e \<in> draw_space N. fst (drawn_item d e) \<noteq> label_key l
                  \<and> (x_real gen ! snd (drawn_item d e), 0) \<in> A} = 2 ^ 53 * a"
    unfolding a_def N_def
    by (rule card_draw_items
        [of d "\<lambda>item. fst item \<noteq> label_key l \<and> (x_real gen ! snd item, 0) \<in> A"])
  have "card {w \<in> draw_words N (Suc (Suc L)). \<exists>p\<in>A. pairing_word gen l w p}
      = ((2 ^ 52 + 1) * N) * ((2 ^ 53 * mt) ^ L * (2 ^ 53 * a))"
    unfolding pairing_words_SS d_def [symmetric]
    by (simp only: card_triples [OF fin] card_draw_low cR cE)
  then show "chance_at N (pair_probe gen l) A (Suc (Suc L))
           = (2 ^ 52 + 1) / 2 ^ 53 * (real a / real N) * (real mt / real N) ^ L"
    using Npos
    by (simp add: chance_at_def word_share_def ev card_draw_words power_mult_distrib power_divide
        field_simps)
qed

lemma pair_probe_chance_sums:
  fixes gen :: "'img DataGenerator"
  assumes valid: "\<forall>item\<in>set (label_real_dict gen). snd item < length (x_real gen)"
    and present: "label_key l \<in> fst ` set (label_real_dict gen)"
    and other: "\<exists>item\<in>set (label_real_dict gen). fst item \<noteq> label_key l"
  shows "chance_at (length (label_real_dict gen)) (pair_probe gen l) A
           sums pairing_chance (\<lambda>v. v) gen l A"
proof -
  define d where "d = label_real_dict gen"
  define N where "N = length d"
  define mt where "mt = length (filter (\<lambda>item. fst item = label_key l) d)"
  define u where "u = length (filter (\<lambda>item. fst item \<noteq> label_key l) d)"
  define a where "a = length (filter (\<lambda>item. fst item \<noteq> label_key l
                              \<and> (x_real gen ! snd item, 0) \<in> A) d)"
  define f where "f = chance_at N (pair_probe gen l) A"
  from present obtain idx where m: "map_of d (label_key l) = Some idx"
    unfolding d_def by (metis map_of_eq_None_iff not_Some_eq)
  define pm :: real where "pm = (if (x_real gen ! idx, 1) \<in> A then (2 ^ 52 - 1) / 2 ^ 53 else 0)"
  define C :: real where "C = (2 ^ 52 + 1) / 2 ^ 53 * (real a / real N)"
  have upos: "0 < u"
    using other unfolding u_def d_def by (simp add: filter_empty_conv)
  have N: "mt + u = N"
    unfolding mt_def u_def N_def by (rule sum_length_filter_compl)
  with upos have r: "norm (real mt / real N) < 1" by simp
  note vals = pair_probe_chance_values [of gen l idx A, OF valid m [unfolded d_def],
      folded d_def, folded N_def mt_def a_def, folded pm_def]
  have v3: "f (Suc (Suc L)) = C * (real mt / real N) ^ L" for L
    unfolding f_def C_def by (rule vals(3))
  have v1: "f (Suc 0) = pm" and v0: "f 0 = 0"
    unfolding f_def by (rule vals(2), rule vals(1))
  have "(\<lambda>L. (real mt / real N) ^ L) sums (1 / (1 - real mt / real N))"
    using r by (rule geometric_sums)
  then have "(\<lambda>L. C * (real mt / real N) ^ L) sums (C * (1 / (1 - real mt / real N)))"
    by (rule sums_mult)
  then have "(\<lambda>L. f (Suc (Suc L))) sums (C * (1 / (1 - real mt / real N)))"
    by (simp only: v3)
  then have "(\<lambda>L. f (Suc L)) sums (C * (1 / (1 - real mt / real N)) + f (Suc 0))"
    by (rule sums_Suc)
  then have "f sums (C * (1 / (1 - real mt / real N)) + f (Suc 0) + f 0)"
    by (rule sums_Suc)
  moreover have "C * (1 / (1 - real mt / real N)) + f (Suc 0) + f 0
      = pairing_chance (\<lambda>v. v) gen l A"
  proof -
    have "real N - real mt = real u" using N by simp
    moreover have "0 < real N" using N upos by simp
    ultimately have "1 - real mt / real N = real u / real N"
      by (simp add: field_simps)
    then have "C * (1 / (1 - real mt / real N)) = (2 ^ 52 + 1) / 2 ^ 53 * real a / real u"
      using \<open>0 < real N\<close> by (simp add: C_def)
    moreover have "a = length (filter (\<lambda>item. (x_real gen ! snd item, 0) \<in> A)
                              (filter (\<lambda>item. fst item \<noteq> label_key l) d))"
      by (simp add: a_def)
    ultimately show ?thesis
      using m by (simp add: v0 v1 pm_def pairing_chance_def d_def [symmetric] u_def Let_def)
  qed
  ultimately show ?thesis by (simp add: f_def N_def d_def)
qed

subsection \<open>The loop over the batch on a finite word of draws\<close>

lemma returns_after_Nil:
  "returns_after (pair_loop gen [] batches) w out \<longleftrightarrow> w = [] \<and> out = batches"
proof
  assume r: "returns_after (pair_loop gen [] batches) w out"
  then have "\<forall>s. w @- s = s" and "out = batches"
    by (simp_all add: returns_after_def)
  then show "w = [] \<and> out = batches" using shift_eq_self by blast
qed (simp add: returns_after_def)

lemma returns_after_Cons:
  assumes valid: "\<forall>item\<in>set (label_real_dict gen). snd item < length (x_real gen)"
    and present: "label_key l \<in> fst ` set (label_real_dict gen)"
    and k: "k < length x2" "k < length y"
  shows "returns_after (pair_loop gen ((k, l) # rest) (x2, y)) w out \<longleftrightarrow>
     (\<exists>w1 w2 v yv. w = w1 @ w2 \<and> pairing_word gen l w1 (v, yv)
        \<and> returns_after (pair_loop gen rest (x2[k := v], y[k := yv])) w2 out)"
proof -
  from present obtain idx where m: "map_of (label_real_dict gen) (label_key l) = Some idx"
    by (metis map_of_eq_None_iff not_Some_eq)
  then have ne: "label_real_dict gen \<noteq> []" by auto
  have step: "pair_loop gen ((k, l) # rest) (x2, y) (w1 @- g)
            = pair_loop gen rest (x2[k := v], y[k := yv]) g"
    if "pairing_word gen l w1 (v, yv)" for w1 v yv g
  proof -
    from pairing_word_returns [OF valid ne that]
    have "pair_probe gen l (w1 @- g) = Some (Inr ((v, yv), g))"
      by (simp add: returns_after_def)
    with k show ?thesis by (simp add: py_set_def)
  qed
  show ?thesis
  proof
    assume r: "returns_after (pair_loop gen ((k, l) # rest) (x2, y)) w out"
    from pair_probe_word_cases [OF m, of w]
    show "\<exists>w1 w2 v yv. w = w1 @ w2 \<and> pairing_word gen l w1 (v, yv)
        \<and> returns_after (pair_loop gen rest (x2[k := v], y[k := yv])) w2 out"
    proof
      assume "\<exists>s. pair_probe gen l (w @- s) = None"
      then obtain s where "pair_probe gen l (w @- s) = None" ..
      then have "pair_loop gen ((k, l) # rest) (x2, y) (w @- s) = None" by simp
      with r show ?thesis by (simp add: returns_after_def)
    next
      assume "\<exists>w1 w2 p. w = w1 @ w2 \<and> pairing_word gen l w1 p"
      then obtain w1 w2 v yv where w: "w = w1 @ w2" and pw: "pairing_word gen l w1 (v, yv)"
        by (metis surj_pair)
      have "returns_after (pair_loop gen rest (x2[k := v], y[k := yv])) w2 out"
        unfolding returns_after_def
      proof
        fix s
        from r have "pair_loop gen ((k, l) # rest) (x2, y) (w1 @- w2 @- s) = Some (Inr (out, s))"
          by (simp add: returns_after_def w)
        then show "pair_loop gen rest (x2[k := v], y[k := yv]) (w2 @- s) = Some (Inr (out, s))"
          by (simp only: step [OF pw])
      qed
      with w pw show ?thesis by blast
    qed
  next
    assume "\<exists>w1 w2 v yv. w = w1 @ w2 \<and> pairing_word gen l w1 (v, yv)
        \<and> returns_after (pair_loop gen rest (x2[k := v], y[k := yv])) w2 out"
    then obtain w1 w2 v yv where w: "w = w1 @ w2" and pw: "pairing_word gen l w1 (v, yv)"
      and r: "returns_after (pair_loop gen rest (x2[k := v], y[k := yv])) w2 out"
      by blast
    show "returns_after (pair_loop gen ((k, l) # rest) (x2, y)) w out"
      unfolding returns_after_def w
    proof
      fix s
      have "pair_loop gen ((k, l) # rest) (x2, y) (w1 @- w2 @- s)
          = pair_loop gen rest (x2[k := v], y[k := yv]) (w2 @- s)"
        by (rule step [OF pw])
      with r show "pair_loop gen ((k, l) # rest) (x2, y) ((w1 @ w2) @- s) = Some (Inr (out, s))"
        by (simp add: returns_after_def)
    qed
  qed
qed

lemma store_pairs_Nil: "store_pairs k [] (x2, y) = (x2, y)"
  by (simp add: store_pairs_def)

lemma store_pairs_Cons:
  assumes "k < length x2" "k < length y"
  shows "store_pairs (Suc k) ps (x2[k := v], y[k := yv]) = store_pairs k ((v, yv) # ps) (x2, y)"
  using assms by (simp add: store_pairs_def take_Suc_conv_app_nth)

lemma store_pairs_inj:
  assumes "store_pairs k ps (x2, y) = store_pairs k qs (x2, y)"
    and "length ps = length qs"
  shows "ps = qs"
proof -
  from assms have "map fst ps = map fst qs" "map snd ps = map snd qs"
    by (simp_all add: store_pairs_def)
  then show ?thesis by (metis zip_map_fst_snd)
qed

lemma returns_after_loop_iff:
  assumes valid: "\<forall>item\<in>set (label_real_dict gen). snd item < length (x_real gen)"
    and present: "\<forall>l\<in>set ls. label_key l \<in> fst ` set (label_real_dict gen)"
    and len: "k + length ls \<le> length x2" "length y = length x2"
  shows "returns_after (pair_loop gen (enumerate k ls) (x2, y)) w out \<longleftrightarrow>
     (\<exists>ps. length ps = length ls \<and> out = store_pairs k ps (x2, y)
        \<and> w \<in> batch_words gen ls (map (\<lambda>p. {p}) ps))"
  using present len
proof (induction ls arbitrary: k x2 y w)
  case Nil
  have "enumerate k ([] :: int list list) = []" by simp
  then show ?case
    unfolding returns_after_Nil by (auto simp only: returns_after_Nil store_pairs_Nil
        list.size length_0_conv list.map batch_words.simps singleton_iff)
next
  case (Cons l ls)
  from Cons.prems have k: "k < length x2" "k < length y" by simp_all
  from Cons.prems have pl: "label_key l \<in> fst ` set (label_real_dict gen)" by simp
  have IH: "returns_after (pair_loop gen (enumerate (Suc k) ls) (x2[k := v], y[k := yv])) w2 out
      \<longleftrightarrow> (\<exists>ps. length ps = length ls \<and> out = store_pairs k ((v, yv) # ps) (x2, y)
             \<and> w2 \<in> batch_words gen ls (map (\<lambda>p. {p}) ps))" for v yv w2
    using Cons.IH [of "Suc k" "x2[k := v]" "y[k := yv]" w2] Cons.prems
    by (simp add: store_pairs_Cons [OF k])
  show ?case
  proof
    assume "returns_after (pair_loop gen (enumerate k (l # ls)) (x2, y)) w out"
    then obtain w1 w2 v yv where w: "w = w1 @ w2" and pw: "pairing_word gen l w1 (v, yv)"
      and r: "returns_after (pair_loop gen (enumerate (Suc k) ls) (x2[k := v], y[k := yv])) w2 out"
      by (auto simp: returns_after_Cons [OF valid pl k])
    from r obtain ps where ps: "length ps = length ls"
      "out = store_pairs k ((v, yv) # ps) (x2, y)"
      "w2 \<in> batch_words gen ls (map (\<lambda>p. {p}) ps)"
      unfolding IH by blast
    from w pw ps(3) have "w \<in> batch_words gen (l # ls) (map (\<lambda>p. {p}) ((v, yv) # ps))"
      by auto
    with ps(1,2) show "\<exists>ps. length ps = length (l # ls) \<and> out = store_pairs k ps (x2, y)
        \<and> w \<in> batch_words gen (l # ls) (map (\<lambda>p. {p}) ps)"
      by (intro exI [of _ "(v, yv) # ps"]) simp
  next
    assume "\<exists>ps. length ps = length (l # ls) \<and> out = store_pairs k ps (x2, y)
        \<and> w \<in> batch_words gen (l # ls) (map (\<lambda>p. {p}) ps)"
    then obtain ps' where ps': "length ps' = length (l # ls)" "out = store_pairs k ps' (x2, y)"
      "w \<in> batch_words gen (l # ls) (map (\<lambda>p. {p}) ps')" by blast
    from ps'(1) obtain v yv ps where e: "ps' = (v, yv) # ps" "length ps = length ls"
      by (cases ps') auto
    from ps'(3) e obtain w1 w2 where w: "w = w1 @ w2" "pairing_word gen l w1 (v, yv)"
      "w2 \<in> batch_words gen ls (map (\<lambda>p. {p}) ps)" by auto
    from e ps'(2) w(3)
    have "returns_after (pair_loop gen (enumerate (Suc k) ls) (x2[k := v], y[k := yv])) w2 out"
      unfolding IH by blast
    with w(1,2) show "returns_after (pair_loop gen (enumerate k (l # ls)) (x2, y)) w out"
      by (auto simp: returns_after_Cons [OF valid pl k])
  qed
qed

lemma batch_words_pairs:
  assumes "length Bs = length ls"
  shows "w \<in> batch_words gen ls Bs \<longleftrightarrow>
     (\<exists>ps. list_all2 (\<in>) ps Bs \<and> w \<in> batch_words gen ls (map (\<lambda>p. {p}) ps))"
  using assms
proof (induction gen ls Bs arbitrary: w rule: batch_words.induct)
  case (1 gen)
  show ?case by simp
next
  case (2 gen l ls B Bs)
  then have IH: "w2 \<in> batch_words gen ls Bs \<longleftrightarrow>
     (\<exists>ps. list_all2 (\<in>) ps Bs \<and> w2 \<in> batch_words gen ls (map (\<lambda>p. {p}) ps))" for w2
    by simp
  show ?case
  proof
    assume "w \<in> batch_words gen (l # ls) (B # Bs)"
    then obtain w1 w2 p where w: "w = w1 @ w2" "p \<in> B" "pairing_word gen l w1 p"
      "w2 \<in> batch_words gen ls Bs" by auto
    from w(4) obtain ps where "list_all2 (\<in>) ps Bs" "w2 \<in> batch_words gen ls (map (\<lambda>p. {p}) ps)"
      unfolding IH by blast
    with w(1-3) have "list_all2 (\<in>) (p # ps) (B # Bs)
        \<and> w \<in> batch_words gen (l # ls) (map (\<lambda>p. {p}) (p # ps))" by auto
    then show "\<exists>ps. list_all2 (\<in>) ps (B # Bs)
        \<and> w \<in> batch_words gen (l # ls) (map (\<lambda>p. {p}) ps)" by blast
  next
    assume "\<exists>ps. list_all2 (\<in>) ps (B # Bs)
        \<and> w \<in> batch_words gen (l # ls) (map (\<lambda>p. {p}) ps)"
    then obtain ps' where ps': "list_all2 (\<in>) ps' (B # Bs)"
      "w \<in> batch_words gen (l # ls) (map (\<lambda>p. {p}) ps')" by blast
    from ps'(1) obtain p ps where e: "ps' = p # ps" "p \<in> B" "list_all2 (\<in>) ps Bs"
      by (auto simp: list_all2_Cons2)
    from ps'(2) e(1) obtain w1 w2 where w: "w = w1 @ w2" "pairing_word gen l w1 p"
      "w2 \<in> batch_words gen ls (map (\<lambda>p. {p}) ps)" by auto
    from w(3) e(3) have "w2 \<in> batch_words gen ls Bs" unfolding IH by blast
    with w(1,2) e(2) show "w \<in> batch_words gen (l # ls) (B # Bs)" by auto
  qed
qed simp_all

subsection \<open>The share of a concatenation\<close>

lemma draw_words_append:
  "w1 @ w2 \<in> draw_words n L \<longleftrightarrow>
     (\<exists>i\<le>L. w1 \<in> draw_words n i \<and> w2 \<in> draw_words n (L - i))"
  by (auto simp: draw_words_def)

lemma card_concat_words:
  assumes pf: "\<And>u v. u \<in> A \<Longrightarrow> u @ v \<in> A \<Longrightarrow> v = []"
  shows "card {w \<in> draw_words n L. w \<in> {w1 @ w2 | w1 w2. w1 \<in> A \<and> w2 \<in> C}}
       = (\<Sum>i\<le>L. card {w \<in> draw_words n i. w \<in> A}
                  * card {w \<in> draw_words n (L - i). w \<in> C})"
proof -
  let ?A = "\<lambda>i. {w \<in> draw_words n i. w \<in> A}"
  let ?C = "\<lambda>i. {w \<in> draw_words n i. w \<in> C}"
  let ?F = "\<lambda>i. (\<lambda>(w1, w2). w1 @ w2) ` (?A i \<times> ?C (L - i))"
  have finA: "finite (?A i)" for i
    using finite_draw_words by (rule finite_subset [rotated]) auto
  have finC: "finite (?C i)" for i
    using finite_draw_words by (rule finite_subset [rotated]) auto
  have eq: "{w \<in> draw_words n L. w \<in> {w1 @ w2 | w1 w2. w1 \<in> A \<and> w2 \<in> C}} = (\<Union>i\<in>{..L}. ?F i)"
  proof (rule set_eqI)
    fix w
    show "w \<in> {w \<in> draw_words n L. w \<in> {w1 @ w2 | w1 w2. w1 \<in> A \<and> w2 \<in> C}}
        \<longleftrightarrow> w \<in> (\<Union>i\<in>{..L}. ?F i)"
    proof
      assume "w \<in> {w \<in> draw_words n L. w \<in> {w1 @ w2 | w1 w2. w1 \<in> A \<and> w2 \<in> C}}"
      then obtain w1 w2 where w: "w = w1 @ w2" "w1 \<in> A" "w2 \<in> C" "w1 @ w2 \<in> draw_words n L"
        by auto
      from w(4) obtain i where "i \<le> L" "w1 \<in> draw_words n i" "w2 \<in> draw_words n (L - i)"
        unfolding draw_words_append by blast
      with w(1-3) have "i \<in> {..L}" "w \<in> ?F i" by auto
      then show "w \<in> (\<Union>i\<in>{..L}. ?F i)" by blast
    next
      assume "w \<in> (\<Union>i\<in>{..L}. ?F i)"
      then obtain i w1 w2 where "i \<le> L" "w = w1 @ w2" "w1 \<in> ?A i" "w2 \<in> ?C (L - i)"
        by auto
      then show "w \<in> {w \<in> draw_words n L. w \<in> {w1 @ w2 | w1 w2. w1 \<in> A \<and> w2 \<in> C}}"
        by (auto simp: draw_words_append)
    qed
  qed
  have disj: "?F i \<inter> ?F j = {}" if "i \<noteq> j" for i j
  proof (rule ccontr)
    assume "?F i \<inter> ?F j \<noteq> {}"
    then obtain u1 u2 v1 v2 where
      u: "u1 \<in> A" "length u1 = i" and v: "v1 \<in> A" "length v1 = j"
      and e: "u1 @ u2 = v1 @ v2"
      by (auto simp: draw_words_def)
    from e obtain t where "u1 = v1 @ t \<and> t @ u2 = v2 \<or> u1 @ t = v1 \<and> u2 = t @ v2"
      unfolding append_eq_append_conv2 by blast
    then have "t = []" using pf u(1) v(1) by blast
    with \<open>u1 = v1 @ t \<and> t @ u2 = v2 \<or> u1 @ t = v1 \<and> u2 = t @ v2\<close> have "u1 = v1" by auto
    with u(2) v(2) that show False by simp
  qed
  have cardF: "card (?F i) = card (?A i) * card (?C (L - i))" for i
  proof -
    have "inj_on (\<lambda>(w1, w2). w1 @ w2) (?A i \<times> ?C (L - i))"
    proof (rule inj_onI)
      fix p q
      assume p: "p \<in> ?A i \<times> ?C (L - i)" and q: "q \<in> ?A i \<times> ?C (L - i)"
        and e: "(case p of (w1, w2) \<Rightarrow> w1 @ w2) = (case q of (w1, w2) \<Rightarrow> w1 @ w2)"
      obtain a b c d where pq: "p = (a, b)" "q = (c, d)" by (metis surj_pair)
      from p q have "length a = i" "length c = i" by (simp_all add: pq draw_words_def)
      with e show "p = q" by (simp add: pq)
    qed
    then have "card (?F i) = card (?A i \<times> ?C (L - i))" by (rule card_image)
    then show ?thesis by (simp only: card_cartesian_product)
  qed
  have "card (\<Union>i\<in>{..L}. ?F i) = (\<Sum>i\<in>{..L}. card (?F i))"
    by (rule card_UN_disjoint) (use finA finC disj in auto)
  then show ?thesis unfolding eq by (simp only: cardF)
qed

lemma word_share_concat:
  assumes pf: "\<And>u v. u \<in> A \<Longrightarrow> u @ v \<in> A \<Longrightarrow> v = []"
  shows "word_share n {w1 @ w2 | w1 w2. w1 \<in> A \<and> w2 \<in> C} L
       = (\<Sum>i\<le>L. word_share n A i * word_share n C (L - i))"
proof -
  define G where "G = card (draw_space n)"
  have "(\<Sum>i\<le>L. word_share n A i * word_share n C (L - i))
      = (\<Sum>i\<le>L. real (card {w \<in> draw_words n i. w \<in> A}
                        * card {w \<in> draw_words n (L - i). w \<in> C}) / real (G ^ L))"
  proof (rule sum.cong [OF refl])
    fix i assume "i \<in> {..L}"
    then have "i + (L - i) = L" by simp
    then have "G ^ L = G ^ i * G ^ (L - i)"
      by (simp only: power_add [symmetric])
    then show "word_share n A i * word_share n C (L - i)
        = real (card {w \<in> draw_words n i. w \<in> A}
                        * card {w \<in> draw_words n (L - i). w \<in> C}) / real (G ^ L)"
      by (simp add: word_share_def card_draw_words_power G_def [symmetric])
  qed
  also have "\<dots> = real (\<Sum>i\<le>L. card {w \<in> draw_words n i. w \<in> A}
                        * card {w \<in> draw_words n (L - i). w \<in> C}) / real (G ^ L)"
    by (simp only: sum_divide_distrib of_nat_sum)
  finally show ?thesis
    by (simp only: word_share_def card_concat_words [OF pf] card_draw_words_power G_def)
qed

lemma word_share_nonneg: "0 \<le> word_share n S L"
  by (simp add: word_share_def)

lemma word_share_sums_concat:
  assumes pf: "\<And>u v. u \<in> A \<Longrightarrow> u @ v \<in> A \<Longrightarrow> v = []"
    and A: "word_share n A sums a" and C: "word_share n C sums c"
  shows "word_share n {w1 @ w2 | w1 w2. w1 \<in> A \<and> w2 \<in> C} sums (a * c)"
proof -
  have nA: "summable (\<lambda>k. norm (word_share n A k))"
    using sums_summable [OF A] by (simp add: word_share_nonneg)
  have nC: "summable (\<lambda>k. norm (word_share n C k))"
    using sums_summable [OF C] by (simp add: word_share_nonneg)
  from Cauchy_product_sums [OF nA nC]
  have "(\<lambda>k. \<Sum>i\<le>k. word_share n A i * word_share n C (k - i))
          sums ((\<Sum>k. word_share n A k) * (\<Sum>k. word_share n C k))" .
  moreover have "(\<Sum>k. word_share n A k) = a" using A by (simp add: sums_iff)
  moreover have "(\<Sum>k. word_share n C k) = c" using C by (simp add: sums_iff)
  ultimately show ?thesis
    by (simp only: word_share_concat [OF pf, symmetric])
qed

subsection \<open>The chance of a batch\<close>

lemma pairing_word_prefix_free:
  assumes valid: "\<forall>item\<in>set (label_real_dict gen). snd item < length (x_real gen)"
    and ne: "label_real_dict gen \<noteq> []"
    and u: "pairing_word gen l u p" and uv: "pairing_word gen l (u @ v) q"
  shows "v = []"
  using returns_after_prefix [OF pairing_word_returns [OF valid ne u]
      pairing_word_returns [OF valid ne uv]]
  by simp

lemma word_share_empty_word: "word_share n {[]} = (\<lambda>L. if L = 0 then 1 else 0)"
proof
  fix L
  have "{w \<in> draw_words n L. w \<in> {[]}} = (if L = 0 then {[]} else {})"
    by (auto simp: draw_words_def)
  then show "word_share n {[]} L = (if L = 0 then 1 else 0)"
    by (simp add: word_share_def card_draw_words_power)
qed

lemma batch_words_sums:
  fixes gen :: "'img DataGenerator"
  assumes valid: "\<forall>item\<in>set (label_real_dict gen). snd item < length (x_real gen)"
    and present: "\<forall>l\<in>set ls. label_key l \<in> fst ` set (label_real_dict gen)"
    and other: "\<forall>l\<in>set ls. \<exists>item\<in>set (label_real_dict gen). fst item \<noteq> label_key l"
    and len: "length Bs = length ls"
  shows "word_share (length (label_real_dict gen)) (batch_words gen ls Bs)
           sums prod_list (map2 (pairing_chance (\<lambda>v. v) gen) ls Bs)"
  using len present other
proof (induction ls Bs rule: list_induct2')
  case 1
  have "(\<lambda>L. if L = 0 then 1 else 0 :: real) sums 1"
    using sums_single [of 0 "\<lambda>L. 1 :: real"] by simp
  then show ?case by (simp add: word_share_empty_word)
next
  case (4 l ls B Bs)
  let ?N = "length (label_real_dict gen)"
  let ?A = "{w1. \<exists>p\<in>B. pairing_word gen l w1 p}"
  from 4 have pl: "label_key l \<in> fst ` set (label_real_dict gen)"
    and ol: "\<exists>item\<in>set (label_real_dict gen). fst item \<noteq> label_key l" by simp_all
  from pl obtain idx where m: "map_of (label_real_dict gen) (label_key l) = Some idx"
    by (metis map_of_eq_None_iff not_Some_eq)
  then have ne: "label_real_dict gen \<noteq> []" by auto
  have A: "word_share ?N ?A sums pairing_chance (\<lambda>v. v) gen l B"
    using pair_probe_chance_sums [OF valid pl ol, of B]
    by (simp add: chance_at_def pair_probe_returns_iff [OF valid m])
  have C: "word_share ?N (batch_words gen ls Bs)
             sums prod_list (map2 (pairing_chance (\<lambda>v. v) gen) ls Bs)"
    using 4 by simp
  have pf: "v = []" if "u \<in> ?A" "u @ v \<in> ?A" for u v
    using that pairing_word_prefix_free [OF valid ne] by blast
  have "batch_words gen (l # ls) (B # Bs)
      = {w1 @ w2 | w1 w2. w1 \<in> ?A \<and> w2 \<in> batch_words gen ls Bs}" by simp
  with word_share_sums_concat [where A = ?A and C = "batch_words gen ls Bs", OF pf A C]
  show ?case by simp
qed simp_all

lemma pair_loop_word_cases:
  assumes valid: "\<forall>item\<in>set (label_real_dict gen). snd item < length (x_real gen)"
    and present: "\<forall>l\<in>set ls. label_key l \<in> fst ` set (label_real_dict gen)"
    and len: "k + length ls \<le> length x2" "length y = length x2"
  shows "(\<exists>w1 w2 out. w = w1 @ w2
            \<and> returns_after (pair_loop gen (enumerate k ls) (x2, y)) w1 out)
       \<or> (\<exists>s. pair_loop gen (enumerate k ls) (x2, y) (w @- s) = None)"
  using present len
proof (induction ls arbitrary: k x2 y w)
  case Nil
  have "w = [] @ w \<and> returns_after (pair_loop gen (enumerate k []) (x2, y)) [] (x2, y)"
    by (simp add: returns_after_def)
  then show ?case by blast
next
  case (Cons l ls)
  from Cons.prems have k: "k < length x2" "k < length y" by simp_all
  from Cons.prems have pl: "label_key l \<in> fst ` set (label_real_dict gen)" by simp
  from pl obtain idx where m: "map_of (label_real_dict gen) (label_key l) = Some idx"
    by (metis map_of_eq_None_iff not_Some_eq)
  then have ne: "label_real_dict gen \<noteq> []" by auto
  from pair_probe_word_cases [OF m, of w] show ?case
  proof
    assume "\<exists>s. pair_probe gen l (w @- s) = None"
    then obtain s where "pair_probe gen l (w @- s) = None" ..
    then have "pair_loop gen (enumerate k (l # ls)) (x2, y) (w @- s) = None" by simp
    then show ?thesis by blast
  next
    assume "\<exists>w1 w2 p. w = w1 @ w2 \<and> pairing_word gen l w1 p"
    then obtain w1 w2 v yv where w: "w = w1 @ w2" and pw: "pairing_word gen l w1 (v, yv)"
      by (metis surj_pair)
    have step: "pair_loop gen (enumerate k (l # ls)) (x2, y) (w1 @- g)
            = pair_loop gen (enumerate (Suc k) ls) (x2[k := v], y[k := yv]) g" for g
    proof -
      from pairing_word_returns [OF valid ne pw]
      have "pair_probe gen l (w1 @- g) = Some (Inr ((v, yv), g))"
        by (simp add: returns_after_def)
      with k show ?thesis by (simp add: py_set_def)
    qed
    from Cons.IH [of "Suc k" "x2[k := v]" "y[k := yv]" w2] Cons.prems
    have "(\<exists>u1 u2 out. w2 = u1 @ u2
            \<and> returns_after (pair_loop gen (enumerate (Suc k) ls) (x2[k := v], y[k := yv])) u1 out)
       \<or> (\<exists>s. pair_loop gen (enumerate (Suc k) ls) (x2[k := v], y[k := yv]) (w2 @- s) = None)"
      by simp
    then show ?thesis
    proof
      assume "\<exists>s. pair_loop gen (enumerate (Suc k) ls) (x2[k := v], y[k := yv]) (w2 @- s) = None"
      then obtain s where
        "pair_loop gen (enumerate (Suc k) ls) (x2[k := v], y[k := yv]) (w2 @- s) = None" ..
      then have "pair_loop gen (enumerate k (l # ls)) (x2, y) (w @- s) = None"
        unfolding w shift_append by (simp only: step)
      then show ?thesis by blast
    next
      assume "\<exists>u1 u2 out. w2 = u1 @ u2
            \<and> returns_after (pair_loop gen (enumerate (Suc k) ls) (x2[k := v], y[k := yv])) u1 out"
      then obtain u1 u2 out where u: "w2 = u1 @ u2"
        and r: "returns_after (pair_loop gen (enumerate (Suc k) ls) (x2[k := v], y[k := yv])) u1 out"
        by blast
      have "returns_after (pair_loop gen (enumerate k (l # ls)) (x2, y)) (w1 @ u1) out"
        unfolding returns_after_def shift_append
        using r by (simp only: step returns_after_def) simp
      moreover have "w = (w1 @ u1) @ u2" using w u by simp
      ultimately show ?thesis by blast
    qed
  qed
qed

lemma pair_probe_result:
  assumes valid: "\<forall>item\<in>set (label_real_dict gen). snd item < length (x_real gen)"
    and present: "label_key l \<in> fst ` set (label_real_dict gen)"
    and r: "pair_probe gen l g = Some r"
  shows "\<exists>v yv g'. r = Inr ((v, yv), g') \<and> (v, yv) \<in> pairings (\<lambda>v. v) gen l"
proof -
  from present obtain idx where m: "map_of (label_real_dict gen) (label_key l) = Some idx"
    by (metis map_of_eq_None_iff not_Some_eq)
  then have ne: "label_real_dict gen \<noteq> []" by auto
  from map_of_SomeD [OF m] valid have idx: "idx < length (x_real gen)" by fastforce
  show ?thesis
  proof (cases "1/2 < unit_float (shd g)")
    case True
    from pair_probe_matched [OF True m idx] r m show ?thesis
      by (auto simp: pairings_def)
  next
    case False
    with r obtain r' where
      s: "sample_unmatched (label_real_dict gen) (label_key l) (stl g) = Some r'"
      by (auto simp: pair_probe_def random_random_def Let_def split: option.splits)
    from sample_unmatched_Some [OF s] ne obtain item g' where
      it: "r' = Inr (item, g')" "item \<in> set (label_real_dict gen)" "fst item \<noteq> label_key l"
      by blast
    from it(2) valid have "snd item < length (x_real gen)" by blast
    with r False s it(1) have "r = Inr ((x_real gen ! snd item, 0), g')"
      by (simp add: pair_probe_def random_random_def py_get_nat Let_def case_prod_beta)
    moreover from it(2,3) have "(x_real gen ! snd item, 0) \<in> pairings (\<lambda>v. v) gen l"
      unfolding pairings_def by blast
    ultimately show ?thesis by blast
  qed
qed

lemma pair_loop_result:
  assumes valid: "\<forall>item\<in>set (label_real_dict gen). snd item < length (x_real gen)"
    and present: "\<forall>l\<in>set ls. label_key l \<in> fst ` set (label_real_dict gen)"
    and len: "k + length ls \<le> length x2" "length y = length x2"
    and r: "pair_loop gen (enumerate k ls) (x2, y) g = Some r"
  shows "\<exists>ps g'. r = Inr (store_pairs k ps (x2, y), g')
           \<and> list_all2 (\<in>) ps (map (pairings (\<lambda>v. v) gen) ls)"
  using present len r
proof (induction ls arbitrary: k x2 y g)
  case Nil
  then have "r = Inr (store_pairs k [] (x2, y), g)" by (simp add: store_pairs_Nil)
  then show ?case by (intro exI [of _ "[]"] exI [of _ g]) simp
next
  case (Cons l ls)
  from Cons.prems have k: "k < length x2" "k < length y" by simp_all
  from Cons.prems have pl: "label_key l \<in> fst ` set (label_real_dict gen)" by simp
  from Cons.prems(4) obtain r1 where r1: "pair_probe gen l g = Some r1"
    by (auto split: option.splits)
  from pair_probe_result [OF valid pl r1] obtain v yv g1 where
    p: "r1 = Inr ((v, yv), g1)" "(v, yv) \<in> pairings (\<lambda>v. v) gen l" by blast
  from Cons.prems(4) r1 p(1) k
  have rest: "pair_loop gen (enumerate (Suc k) ls) (x2[k := v], y[k := yv]) g1 = Some r"
    by (simp add: py_set_def)
  from Cons.IH [OF _ _ _ rest] Cons.prems obtain ps g' where
    "r = Inr (store_pairs (Suc k) ps (x2[k := v], y[k := yv]), g')"
    "list_all2 (\<in>) ps (map (pairings (\<lambda>v. v) gen) ls)"
    by auto
  with p(2) have "r = Inr (store_pairs k ((v, yv) # ps) (x2, y), g')
      \<and> list_all2 (\<in>) ((v, yv) # ps) (map (pairings (\<lambda>v. v) gen) (l # ls))"
    by (simp add: store_pairs_Cons [OF k])
  then show ?case by blast
qed

lemma store_pairs_fresh:
  "store_pairs 0 ps (replicate b J, replicate b z)
     = (map fst ps @ replicate (b - length ps) J, map snd ps @ replicate (b - length ps) z)"
  by (simp add: store_pairs_def)

lemma getitem_loop:
  fixes gen :: "'img DataGenerator" and index :: nat and junk :: 'img
    and augment :: "'img list \<Rightarrow> 'img list"
  defines "lbls \<equiv> py_slice (label gen) (index * batch_size gen) ((index + 1) * batch_size gen)"
  defines "probes \<equiv>
    (if shuffle gen
     then augment (py_slice (x gen) (index * batch_size gen) ((index + 1) * batch_size gen))
     else py_slice (x gen) (index * batch_size gen) ((index + 1) * batch_size gen))"
  defines "loop \<equiv> pair_loop gen (enumerate 0 lbls)
                    (replicate (batch_size gen) junk, replicate (batch_size gen) 0)"
  shows "loop g = None \<Longrightarrow> getitem augment scale junk gen index g = None"
    and "loop g = Some (Inl e) \<Longrightarrow> getitem augment scale junk gen index g = Some (Inl e)"
    and "loop g = Some (Inr (out, g')) \<Longrightarrow>
         getitem augment scale junk gen index g
           = Some (Inr (((map scale probes, map scale (fst out)), snd out), g'))"
  unfolding loop_def lbls_def probes_def
  by (simp_all add: getitem_def Let_def case_prod_beta)

lemma getitem_words:
  fixes gen :: "'img DataGenerator" and index :: nat and junk :: 'img
    and augment :: "'img list \<Rightarrow> 'img list" and scale :: "'img \<Rightarrow> 'img"
  defines "lbls \<equiv> py_slice (label gen) (index * batch_size gen) ((index + 1) * batch_size gen)"
  defines "probes \<equiv>
    (if shuffle gen
     then augment (py_slice (x gen) (index * batch_size gen) ((index + 1) * batch_size gen))
     else py_slice (x gen) (index * batch_size gen) ((index + 1) * batch_size gen))"
  assumes valid: "\<forall>item\<in>set (label_real_dict gen). snd item < length (x_real gen)"
    and present: "\<forall>l\<in>set lbls. label_key l \<in> fst ` set (label_real_dict gen)"
    and len: "length As = length lbls"
  shows "(\<exists>batch\<in>batches_in (map scale probes) (scale junk) (batch_size gen) As.
            returns_after (getitem augment scale junk gen index) w batch)
       \<longleftrightarrow> w \<in> batch_words gen lbls (map (\<lambda>A. {p. (scale (fst p), snd p) \<in> A}) As)"
proof -
  define b where "b = batch_size gen"
  define acc where "acc = (replicate b junk, replicate b (0 :: real))"
  define loop where "loop = pair_loop gen (enumerate 0 lbls) acc"
  define Bs where "Bs = map (\<lambda>A. {p. (scale (fst p), snd p) \<in> A}) As"
  define f where
    "f = (\<lambda>out :: 'img list \<times> real list. ((map scale probes, map scale (fst out)), snd out))"
  define sc where "sc = (\<lambda>p :: 'img \<times> real. (scale (fst p), snd p))"
  note gl = getitem_loop [where gen = gen and index = index and junk = junk
      and augment = augment and scale = scale,
      folded lbls_def probes_def, folded b_def, folded acc_def, folded loop_def]
  have gi_None: "getitem augment scale junk gen index g = None" if "loop g = None" for g
    using that by (rule gl(1))
  have gi_Inr: "getitem augment scale junk gen index g = Some (Inr (f out, g'))"
    if "loop g = Some (Inr (out, g'))" for g out g'
    unfolding f_def using that by (rule gl(3))
  have le: "length lbls \<le> b"
    unfolding lbls_def b_def by (rule length_py_slice_le)
  have lenB: "length Bs = length lbls" by (simp add: Bs_def len)
  have loop_iff: "returns_after loop w out \<longleftrightarrow>
     (\<exists>ps. length ps = length lbls \<and> out = store_pairs 0 ps acc
        \<and> w \<in> batch_words gen lbls (map (\<lambda>p. {p}) ps))" for w out
    unfolding loop_def acc_def
    by (rule returns_after_loop_iff [OF valid present]) (use le in simp_all)
  have shape: "f (store_pairs 0 ps acc)
      = ((map scale probes, map fst (map sc ps) @ replicate (b - length (map sc ps)) (scale junk)),
         map snd (map sc ps) @ replicate (b - length (map sc ps)) 0)" for ps
    by (simp add: f_def acc_def store_pairs_fresh sc_def comp_def)
  have mem: "list_all2 (\<in>) (map sc ps) As \<longleftrightarrow> list_all2 (\<in>) ps Bs" for ps
    by (simp add: Bs_def sc_def list_all2_map1 list_all2_map2)
  show ?thesis
    unfolding Bs_def [symmetric] b_def [symmetric]
  proof
    assume "w \<in> batch_words gen lbls Bs"
    then obtain ps where ps: "list_all2 (\<in>) ps Bs"
      "w \<in> batch_words gen lbls (map (\<lambda>p. {p}) ps)"
      unfolding batch_words_pairs [OF lenB] by blast
    from ps(1) lenB have "length ps = length lbls" by (simp add: list_all2_lengthD)
    with ps(2) have "returns_after loop w (store_pairs 0 ps acc)"
      unfolding loop_iff by blast
    then have "returns_after (getitem augment scale junk gen index) w (f (store_pairs 0 ps acc))"
      by (simp add: returns_after_def gi_Inr)
    moreover from ps(1) have "f (store_pairs 0 ps acc)
        \<in> batches_in (map scale probes) (scale junk) b As"
      unfolding shape batches_in_def mem [symmetric] by blast
    ultimately show "\<exists>batch\<in>batches_in (map scale probes) (scale junk) b As.
            returns_after (getitem augment scale junk gen index) w batch" by blast
  next
    assume "\<exists>batch\<in>batches_in (map scale probes) (scale junk) b As.
            returns_after (getitem augment scale junk gen index) w batch"
    then obtain qs where qs: "list_all2 (\<in>) qs As"
      and r: "returns_after (getitem augment scale junk gen index) w
                ((map scale probes, map fst qs @ replicate (b - length qs) (scale junk)),
                 map snd qs @ replicate (b - length qs) 0)"
      unfolding batches_in_def by blast
    from pair_loop_word_cases [OF valid present, of 0 "fst acc" "snd acc" w] le
    have "(\<exists>w1 w2 out. w = w1 @ w2 \<and> returns_after loop w1 out)
       \<or> (\<exists>s. loop (w @- s) = None)"
      by (simp add: loop_def acc_def)
    then show "w \<in> batch_words gen lbls Bs"
    proof
      assume "\<exists>s. loop (w @- s) = None"
      then obtain s where "loop (w @- s) = None" ..
      then have "getitem augment scale junk gen index (w @- s) = None" by (rule gi_None)
      with r show ?thesis by (simp add: returns_after_def)
    next
      assume "\<exists>w1 w2 out. w = w1 @ w2 \<and> returns_after loop w1 out"
      then obtain w1 w2 out where w: "w = w1 @ w2" and l1: "returns_after loop w1 out" by blast
      from l1 have "returns_after (getitem augment scale junk gen index) w1 (f out)"
        by (simp add: returns_after_def gi_Inr)
      from returns_after_prefix [OF this r [unfolded w]]
      have w2: "w2 = []"
        and fo: "f out = ((map scale probes, map fst qs @ replicate (b - length qs) (scale junk)),
                 map snd qs @ replicate (b - length qs) 0)" by simp_all
      from l1 w w2 obtain ps where ps: "length ps = length lbls" "out = store_pairs 0 ps acc"
        "w \<in> batch_words gen lbls (map (\<lambda>p. {p}) ps)"
        unfolding loop_iff by auto
      from qs len ps(1) have lq: "length qs = length ps" by (simp add: list_all2_lengthD)
      from fo have "map fst (map sc ps) = map fst qs" "map snd (map sc ps) = map snd qs"
        unfolding ps(2) shape using lq by simp_all
      then have "map sc ps = qs" by (metis zip_map_fst_snd)
      with qs have "list_all2 (\<in>) ps Bs" using mem by blast
      with ps(3) show ?thesis unfolding batch_words_pairs [OF lenB] by blast
    qed
  qed
qed

lemma pairing_chance_scale:
  "pairing_chance (\<lambda>v. v) gen l {p. (scale (fst p), snd p) \<in> A} = pairing_chance scale gen l A"
  by (simp add: pairing_chance_def Let_def split: option.splits)

lemma getitem_chance_sums:
  fixes gen :: "'img DataGenerator" and index :: nat and junk :: 'img
    and augment :: "'img list \<Rightarrow> 'img list" and scale :: "'img \<Rightarrow> 'img"
  defines "lbls \<equiv> py_slice (label gen) (index * batch_size gen) ((index + 1) * batch_size gen)"
  defines "probes \<equiv>
    (if shuffle gen
     then augment (py_slice (x gen) (index * batch_size gen) ((index + 1) * batch_size gen))
     else py_slice (x gen) (index * batch_size gen) ((index + 1) * batch_size gen))"
  assumes valid: "\<forall>item\<in>set (label_real_dict gen). snd item < length (x_real gen)"
    and present: "\<forall>l\<in>set lbls. label_key l \<in> fst ` set (label_real_dict gen)"
    and other: "\<forall>l\<in>set lbls. \<exists>item\<in>set (label_real_dict gen). fst item \<noteq> label_key l"
    and len: "length As = length lbls"
  shows "chance_at (length (label_real_dict gen)) (getitem augment scale junk gen index)
           (batches_in (map scale probes) (scale junk) (batch_size gen) As)
         sums prod_list (map2 (pairing_chance scale gen) lbls As)"
proof -
  let ?Bs = "map (\<lambda>A. {p. (scale (fst p), snd p) \<in> A}) As"
  have "{w. \<exists>batch\<in>batches_in (map scale probes) (scale junk) (batch_size gen) As.
            returns_after (getitem augment scale junk gen index) w batch}
      = batch_words gen lbls ?Bs"
    using getitem_words [where gen = gen and index = index and junk = junk
        and augment = augment and scale = scale and As = As,
        folded lbls_def probes_def, OF valid present len]
    by blast
  moreover have "word_share (length (label_real_dict gen)) (batch_words gen lbls ?Bs)
           sums prod_list (map2 (pairing_chance (\<lambda>v. v) gen) lbls ?Bs)"
    by (rule batch_words_sums [OF valid present other]) (simp add: len)
  moreover have "map2 (pairing_chance (\<lambda>v. v) gen) lbls ?Bs = map2 (pairing_chance scale gen) lbls As"
    by (simp add: zip_map2 pairing_chance_scale case_prod_beta)
  ultimately show ?thesis by (simp add: chance_at_def)
qed

lemma getitem_result:
  fixes gen :: "'img DataGenerator" and index :: nat and junk :: 'img
    and augment :: "'img list \<Rightarrow> 'img list" and scale :: "'img \<Rightarrow> 'img"
  defines "lbls \<equiv> py_slice (label gen) (index * batch_size gen) ((index + 1) * batch_size gen)"
  defines "probes \<equiv>
    (if shuffle gen
     then augment (py_slice (x gen) (index * batch_size gen) ((index + 1) * batch_size gen))
     else py_slice (x gen) (index * batch_size gen) ((index + 1) * batch_size gen))"
  assumes valid: "\<forall>item\<in>set (label_real_dict gen). snd item < length (x_real gen)"
    and present: "\<forall>l\<in>set lbls. label_key l \<in> fst ` set (label_real_dict gen)"
    and r: "getitem augment scale junk gen index g = Some r"
  shows "\<exists>batch g'. r = Inr (batch, g')
           \<and> batch \<in> batches_in (map scale probes) (scale junk) (batch_size gen)
                        (map (pairings scale gen) lbls)"
proof -
  define b where "b = batch_size gen"
  define acc where "acc = (replicate b junk, replicate b (0 :: real))"
  define loop where "loop = pair_loop gen (enumerate 0 lbls) acc"
  define sc where "sc = (\<lambda>p :: 'img \<times> real. (scale (fst p), snd p))"
  note gl = getitem_loop [where gen = gen and index = index and junk = junk
      and augment = augment and scale = scale,
      folded lbls_def probes_def, folded b_def, folded acc_def, folded loop_def]
  have le: "length lbls \<le> b"
    unfolding lbls_def b_def by (rule length_py_slice_le)
  from r gl(1) [of g] obtain r0 where r0: "loop g = Some r0" by (cases "loop g") auto
  from pair_loop_result [OF valid present, of 0 "fst acc" "snd acc" g r0] le r0
  obtain ps g' where ps: "r0 = Inr (store_pairs 0 ps acc, g')"
    "list_all2 (\<in>) ps (map (pairings (\<lambda>v. v) gen) lbls)"
    by (auto simp: loop_def acc_def)
  from gl(3) [of g "store_pairs 0 ps acc" g'] r0 ps(1) r
  have "r = Inr (((map scale probes, map scale (fst (store_pairs 0 ps acc))),
                  snd (store_pairs 0 ps acc)), g')" by simp
  then have rr: "r = Inr (((map scale probes,
                    map fst (map sc ps) @ replicate (b - length (map sc ps)) (scale junk)),
                   map snd (map sc ps) @ replicate (b - length (map sc ps)) 0), g')"
    by (simp add: acc_def store_pairs_fresh sc_def comp_def)
  have "sc p \<in> pairings scale gen l" if "p \<in> pairings (\<lambda>v. v) gen l" for p l
    using that unfolding pairings_def sc_def by auto
  with ps(2) have "list_all2 (\<in>) (map sc ps) (map (pairings scale gen) lbls)"
    by (simp add: list_all2_map1 list_all2_map2 list_all2_mono)
  with rr show ?thesis unfolding batches_in_def b_def by blast
qed

lemma pairing_chance_pairings:
  assumes present: "label_key l \<in> fst ` set (label_real_dict gen)"
    and other: "\<exists>item\<in>set (label_real_dict gen). fst item \<noteq> label_key l"
  shows "pairing_chance scale gen l (pairings scale gen l) = 1"
proof -
  let ?d = "label_real_dict gen"
  let ?un = "filter (\<lambda>item. fst item \<noteq> label_key l) ?d"
  from present obtain idx where m: "map_of ?d (label_key l) = Some idx"
    by (metis map_of_eq_None_iff not_Some_eq)
  then have a: "(scale (x_real gen ! idx), 1) \<in> pairings scale gen l"
    unfolding pairings_def by blast
  have "filter (\<lambda>item. (scale (x_real gen ! snd item), 0) \<in> pairings scale gen l) ?un = ?un"
    unfolding pairings_def by (rule filter_True) auto
  moreover have "length ?un \<noteq> 0" using other by (simp add: filter_empty_conv)
  ultimately show ?thesis
    using m a by (simp add: pairing_chance_def Let_def)
qed

lemma word_share_UNIV: "0 < n \<Longrightarrow> word_share n UNIV L = 1"
proof -
  assume "0 < n"
  then have "card (draw_space n) ^ L \<noteq> 0" by (simp add: card_draw_space)
  then show ?thesis
    by (simp add: word_share_def card_draw_words_power)
qed

lemma chance_within:
  assumes "0 < n"
  shows "word_share n {w1 @ w2 | w1 w2. \<exists>a\<in>A. returns_after run w1 a} L
       = (\<Sum>i\<le>L. chance_at n run A i)"
proof -
  define R where "R = {w. \<exists>a\<in>A. returns_after run w a}"
  have pf: "v = []" if "u \<in> R" "u @ v \<in> R" for u v
  proof -
    from that obtain a b where "returns_after run u a" "returns_after run (u @ v) b"
      unfolding R_def by auto
    from returns_after_prefix [OF this] show "v = []" by simp
  qed
  have "{w1 @ w2 | w1 w2. \<exists>a\<in>A. returns_after run w1 a}
      = {w1 @ w2 | w1 w2. w1 \<in> R \<and> w2 \<in> UNIV}"
    unfolding R_def by blast
  then have "word_share n {w1 @ w2 | w1 w2. \<exists>a\<in>A. returns_after run w1 a} L
      = word_share n {w1 @ w2 | w1 w2. w1 \<in> R \<and> w2 \<in> UNIV} L"
    by (rule arg_cong)
  also have "\<dots> = (\<Sum>i\<le>L. word_share n R i * word_share n UNIV (L - i))"
    using pf by (rule word_share_concat)
  also have "\<dots> = (\<Sum>i\<le>L. word_share n R i)"
    by (simp only: word_share_UNIV [OF assms] mult_1_right)
  finally show ?thesis
    by (simp only: chance_at_def R_def)
qed

lemma prod_list_ones: "prod_list (map (\<lambda>l. 1 :: real) ls) = 1"
  by (induction ls) simp_all

lemma pairing_chance_all:
  assumes present: "label_key l \<in> fst ` set (label_real_dict gen)"
    and other: "\<exists>item\<in>set (label_real_dict gen). fst item \<noteq> label_key l"
  shows "pairing_chance scale gen l UNIV = 1"
proof -
  from present obtain idx where m: "map_of (label_real_dict gen) (label_key l) = Some idx"
    by (metis map_of_eq_None_iff not_Some_eq)
  moreover have "length (filter (\<lambda>item. fst item \<noteq> label_key l) (label_real_dict gen)) \<noteq> 0"
    using other by (simp add: filter_empty_conv)
  ultimately show ?thesis by (simp add: pairing_chance_def Let_def)
qed

lemma pairing_chance_matched:
  assumes "map_of (label_real_dict gen) (label_key l) = Some idx"
  shows "pairing_chance scale gen l {(scale (x_real gen ! idx), 1)} = (2 ^ 52 - 1) / 2 ^ 53"
  using assms by (simp add: pairing_chance_def Let_def)

lemma pairing_chance_unmatched:
  "pairing_chance scale gen l {(v, 0)}
     = (2 ^ 52 + 1) / 2 ^ 53
       * real (length (filter (\<lambda>item. fst item \<noteq> label_key l
                                       \<and> scale (x_real gen ! snd item) = v)
                        (label_real_dict gen)))
       / real (length (filter (\<lambda>item. fst item \<noteq> label_key l) (label_real_dict gen)))"
proof -
  have "(\<lambda>item. fst item \<noteq> label_key l \<and> (scale (x_real gen ! snd item), 0 :: real) \<in> {(v, 0)})
      = (\<lambda>item. fst item \<noteq> label_key l \<and> scale (x_real gen ! snd item) = v)"
    by auto
  then show ?thesis
    by (simp add: pairing_chance_def Let_def split: option.splits)
qed

text \<open>
  C1, with the chance of the match corrected. Let \<open>__getitem__\<close> fetch a batch all of
  whose probes have their match key in \<open>label_real_dict\<close>, next to at least one other
  key, every index of the dictionary being a row of \<open>x_real\<close>, and let the draws of the
  generator be independent and uniform as the module \<open>random\<close> documents them.

  \<^item> Whatever the draws, a call that returns returns a batch: no fault, the probes are
    the slice of the fetched batch (augmented when \<open>shuffle\<close> is set) after scaling, and
    every probe has its pair, which is its match with label 1 or the reference of an
    item with another key with label 0; the labels are binary.
  \<^item> The pairs of the probes are independent and each is distributed as
    \<open>pairing_chance\<close> says: for any sets of pairs \<open>As\<close>, one for each probe, the chance
    that the call returns a batch whose \<open>j\<close>-th pair lies in the \<open>j\<close>-th set is the
    product of the chances \<open>pairing_chance scale gen l\<^sub>j A\<^sub>j\<close>.
  \<^item> The call returns a batch with chance 1.
  \<^item> The share of the words of \<open>L\<close> draws within which the call has returned a batch of
    \<open>B\<close> is the sum of \<open>chance_at\<close> over the lengths up to \<open>L\<close>: the sum over all lengths
    is the chance of a batch of \<open>B\<close>.
  \<^item> For every probe the chances of all pairs add up to 1. The chance of the match with
    label 1 is \<open>(2 ^ 52 - 1) / 2 ^ 53\<close>, which is \<open>0.5 - 2 ^ -53\<close> and not 0.5: the test
    is \<open>random.random() > 0.5\<close> and the float 0.5 itself takes the other branch. The
    chance of a reference \<open>v\<close> with label 0 is \<open>(2 ^ 52 + 1) / 2 ^ 53\<close> times the share
    of the items with another key whose reference is \<open>v\<close>: the unmatched reference is
    uniform over the items of the dictionary with another key.
\<close>

theorem getitem_pairing_chances:
  fixes gen :: "'img DataGenerator" and index :: nat and junk :: 'img
    and augment :: "'img list \<Rightarrow> 'img list" and scale :: "'img \<Rightarrow> 'img"
  defines "d \<equiv> label_real_dict gen"
  defines "lbls \<equiv> py_slice (label gen) (index * batch_size gen) ((index + 1) * batch_size gen)"
  defines "probes \<equiv>
    (if shuffle gen
     then augment (py_slice (x gen) (index * batch_size gen) ((index + 1) * batch_size gen))
     else py_slice (x gen) (index * batch_size gen) ((index + 1) * batch_size gen))"
  defines "fetch \<equiv> getitem augment scale junk gen index"
  assumes valid: "\<forall>item\<in>set d. snd item < length (x_real gen)"
    and present: "\<forall>l\<in>set lbls. label_key l \<in> fst ` set d"
    and other: "\<forall>l\<in>set lbls. \<exists>item\<in>set d. fst item \<noteq> label_key l"
  shows "(fetch g = Some r \<longrightarrow>
            (\<exists>batch g'. r = Inr (batch, g')
               \<and> batch \<in> batches_in (map scale probes) (scale junk) (batch_size gen)
                            (map (pairings scale gen) lbls)))
     \<and> (length As = length lbls \<longrightarrow>
            chance_at (length d) fetch
              (batches_in (map scale probes) (scale junk) (batch_size gen) As)
            sums prod_list (map2 (pairing_chance scale gen) lbls As))
     \<and> chance_at (length d) fetch
            (batches_in (map scale probes) (scale junk) (batch_size gen)
               (map (pairings scale gen) lbls))
          sums 1
     \<and> (d \<noteq> [] \<longrightarrow>
            word_share (length d) {w1 @ w2 | w1 w2. \<exists>batch\<in>B. returns_after fetch w1 batch} L
              = (\<Sum>i\<le>L. chance_at (length d) fetch B i))
     \<and> (\<forall>l\<in>set lbls. pairing_chance scale gen l UNIV = 1
            \<and> (\<forall>idx. map_of d (label_key l) = Some idx \<longrightarrow>
                   pairing_chance scale gen l {(scale (x_real gen ! idx), 1)}
                     = (2 ^ 52 - 1) / 2 ^ 53)
            \<and> (\<forall>v. pairing_chance scale gen l {(v, 0)}
                   = (2 ^ 52 + 1) / 2 ^ 53
                     * real (length (filter (\<lambda>item. fst item \<noteq> label_key l
                                                     \<and> scale (x_real gen ! snd item) = v) d))
                     / real (length (filter (\<lambda>item. fst item \<noteq> label_key l) d))))"
proof (intro conjI impI ballI allI)
  assume "fetch g = Some r"
  then show "\<exists>batch g'. r = Inr (batch, g')
               \<and> batch \<in> batches_in (map scale probes) (scale junk) (batch_size gen)
                            (map (pairings scale gen) lbls)"
    unfolding fetch_def lbls_def probes_def
    by (rule getitem_result [OF valid [unfolded d_def] present [unfolded d_def lbls_def]])
next
  assume "length As = length lbls"
  then show "chance_at (length d) fetch
              (batches_in (map scale probes) (scale junk) (batch_size gen) As)
            sums prod_list (map2 (pairing_chance scale gen) lbls As)"
    unfolding fetch_def lbls_def probes_def d_def
    by (rule getitem_chance_sums [OF valid [unfolded d_def] present [unfolded d_def lbls_def]
          other [unfolded d_def lbls_def]])
next
  have one: "map2 (pairing_chance scale gen) lbls (map (pairings scale gen) lbls)
           = map (\<lambda>l. 1) lbls"
    using present other unfolding d_def
    by (simp add: zip_map2 zip_same_conv_map pairing_chance_pairings)
  have "chance_at (length d) fetch
            (batches_in (map scale probes) (scale junk) (batch_size gen)
               (map (pairings scale gen) lbls))
          sums prod_list (map2 (pairing_chance scale gen) lbls (map (pairings scale gen) lbls))"
    unfolding fetch_def lbls_def probes_def d_def
    by (rule getitem_chance_sums [OF valid [unfolded d_def] present [unfolded d_def lbls_def]
          other [unfolded d_def lbls_def]]) simp
  then show "chance_at (length d) fetch
            (batches_in (map scale probes) (scale junk) (batch_size gen)
               (map (pairings scale gen) lbls))
          sums 1"
    by (simp add: one prod_list_ones)
next
  assume "d \<noteq> []"
  then show "word_share (length d) {w1 @ w2 | w1 w2. \<exists>batch\<in>B. returns_after fetch w1 batch} L
              = (\<Sum>i\<le>L. chance_at (length d) fetch B i)"
    by (intro chance_within) (cases d, simp_all)
next
  fix l assume "l \<in> set lbls"
  with present other show "pairing_chance scale gen l UNIV = 1"
    unfolding d_def by (intro pairing_chance_all) auto
next
  fix l idx assume "map_of d (label_key l) = Some idx"
  then show "pairing_chance scale gen l {(scale (x_real gen ! idx), 1)} = (2 ^ 52 - 1) / 2 ^ 53"
    unfolding d_def by (rule pairing_chance_matched)
next
  fix l v
  show "pairing_chance scale gen l {(v, 0)}
                   = (2 ^ 52 + 1) / 2 ^ 53
                     * real (length (filter (\<lambda>item. fst item \<noteq> label_key l
                                                     \<and> scale (x_real gen ! snd item) = v) d))
                     / real (length (filter (\<lambda>item. fst item \<noteq> label_key l) d))"
    unfolding d_def by (rule pairing_chance_unmatched)
qed

lemma example_batch:
  "label example_generator = [[0, 0, 0, 1], [0, 0, 0, 2]]"
  "x example_generator = [10, 20]"
  "label_real_dict example_generator = [(''000001'', 0), (''000002'', 1), (''000003'', 2)]"
  "x_real example_generator = [100, 200, 300]"
  "batch_size example_generator = 2"
  "shuffle example_generator = False"
  by (simp_all add: example_generator_def)

lemma example_hypotheses:
  "\<forall>item\<in>set (label_real_dict example_generator). snd item < length (x_real example_generator)"
  "\<forall>l\<in>set (py_slice (label example_generator) (0 * batch_size example_generator)
               ((0 + 1) * batch_size example_generator)).
     label_key l \<in> fst ` set (label_real_dict example_generator)"
  "\<forall>l\<in>set (py_slice (label example_generator) (0 * batch_size example_generator)
               ((0 + 1) * batch_size example_generator)).
     \<exists>item\<in>set (label_real_dict example_generator). fst item \<noteq> label_key l"
  by (simp_all add: example_batch py_slice_def label_key_examples)

lemma example_pairing_chances:
  "pairing_chance (\<lambda>v. v) example_generator [0, 0, 0, 1] {(100, 1)} = (2 ^ 52 - 1) / 2 ^ 53"
  "pairing_chance (\<lambda>v. v) example_generator [0, 0, 0, 2] {(100, 0)}
     = (2 ^ 52 + 1) / 2 ^ 53 * (1 / 2)"
  "pairing_chance (\<lambda>v. v) example_generator [0, 0, 0, 2] UNIV = 1"
  by (simp_all add: pairing_chance_def example_batch label_key_examples Let_def)

text \<open>
  C1 as stated fails on the batch of the example generator: the chance that its first
  probe is paired with its match, label 1, is \<open>(2 ^ 52 - 1) / 2 ^ 53\<close>, so it is not 0.5.
\<close>

theorem getitem_match_chance_counterexample:
  "chance_at 3 (getitem (\<lambda>xs. xs) (\<lambda>v. v) 0 example_generator 0)
     (batches_in [10, 20] 0 2 [{(100, 1)}, UNIV]) sums ((2 ^ 52 - 1) / 2 ^ 53)
   \<and> \<not> chance_at 3 (getitem (\<lambda>xs. xs) (\<lambda>v. v) 0 example_generator 0)
         (batches_in [10, 20] 0 2 [{(100, 1)}, UNIV]) sums (1 / 2)"
proof -
  have "chance_at (length (label_real_dict example_generator))
          (getitem (\<lambda>xs. xs) (\<lambda>v. v) 0 example_generator 0)
          (batches_in (map (\<lambda>v. v)
               (if shuffle example_generator
                then (\<lambda>xs. xs) (py_slice (x example_generator) (0 * batch_size example_generator)
                          ((0 + 1) * batch_size example_generator))
                else py_slice (x example_generator) (0 * batch_size example_generator)
                          ((0 + 1) * batch_size example_generator)))
             ((\<lambda>v. v) 0) (batch_size example_generator) [{(100, 1)}, UNIV])
        sums prod_list (map2 (pairing_chance (\<lambda>v. v) example_generator)
               (py_slice (label example_generator) (0 * batch_size example_generator)
                  ((0 + 1) * batch_size example_generator))
               [{(100, 1)}, UNIV])"
    by (rule getitem_chance_sums [OF example_hypotheses]) (simp add: example_batch py_slice_def)
  then have s: "chance_at 3 (getitem (\<lambda>xs. xs) (\<lambda>v. v) 0 example_generator 0)
     (batches_in [10, 20] 0 2 [{(100, 1)}, UNIV]) sums ((2 ^ 52 - 1) / 2 ^ 53)"
    by (simp add: example_batch py_slice_def example_pairing_chances numeral_3_eq_3)
  have "\<not> chance_at 3 (getitem (\<lambda>xs. xs) (\<lambda>v. v) 0 example_generator 0)
         (batches_in [10, 20] 0 2 [{(100, 1)}, UNIV]) sums (1 / 2)"
  proof
    assume "chance_at 3 (getitem (\<lambda>xs. xs) (\<lambda>v. v) 0 example_generator 0)
         (batches_in [10, 20] 0 2 [{(100, 1)}, UNIV]) sums (1 / 2)"
    from sums_unique2 [OF s this] show False by simp
  qed
  with s show ?thesis by (rule conjI)
qed

text \<open>
  The example generator meets the conditions: a call on given draws returns a batch of
  the stated form, the chance that the first probe gets its match and the second the
  unmatched reference 100 is the product of the two chances, and a batch is returned
  with chance 1.
\<close>

theorem getitem_pairing_chances_witness:
  "getitem (\<lambda>xs. xs) (\<lambda>v. v) 0 example_generator 0
     (Draw (3/4) 0 ## Draw (1/4) 0 ## sconst (Draw 0 0))
     = Some (Inr ((([10, 20], [100, 100]), [1, 0]), sconst (Draw 0 0)))
   \<and> (([10, 20], [100, 100]), [1, 0])
       \<in> batches_in [10, 20] 0 2
           (map (pairings (\<lambda>v. v) example_generator) [[0, 0, 0, 1], [0, 0, 0, 2]])
   \<and> chance_at 3 (getitem (\<lambda>xs. xs) (\<lambda>v. v) 0 example_generator 0)
         (batches_in [10, 20] 0 2 [{(100, 1)}, {(100, 0)}])
       sums ((2 ^ 52 - 1) / 2 ^ 53 * ((2 ^ 52 + 1) / 2 ^ 53 * (1 / 2)))
   \<and> chance_at 3 (getitem (\<lambda>xs. xs) (\<lambda>v. v) 0 example_generator 0)
         (batches_in [10, 20] 0 2
            (map (pairings (\<lambda>v. v) example_generator) [[0, 0, 0, 1], [0, 0, 0, 2]]))
       sums 1"
proof -
  let ?g = "Draw (3/4) 0 ## Draw (1/4) 0 ## sconst (Draw 0 0)"
  let ?r = "Inr ((([10, 20], [100, 100]), [1, 0]), sconst (Draw 0 0))
              :: py_error + ((nat list \<times> nat list) \<times> real list) \<times> rng"
  note T = getitem_pairing_chances [where gen = example_generator and index = 0 and junk = 0
      and augment = "\<lambda>xs. xs" and scale = "\<lambda>v. v" and g = ?g and r = ?r
      and As = "[{(100, 1)}, {(100, 0)}]", OF example_hypotheses]
  have run: "getitem (\<lambda>xs. xs) (\<lambda>v. v) 0 example_generator 0 ?g = Some ?r"
    by (rule example_getitem)
  from T [THEN conjunct1, rule_format, OF run]
  have a: "(([10, 20], [100, 100]), [1, 0])
       \<in> batches_in [10, 20] 0 2
           (map (pairings (\<lambda>v. v) example_generator) [[0, 0, 0, 1], [0, 0, 0, 2]])"
    by (simp add: example_batch py_slice_def)
  from T [THEN conjunct2, THEN conjunct1]
  have b: "chance_at 3 (getitem (\<lambda>xs. xs) (\<lambda>v. v) 0 example_generator 0)
         (batches_in [10, 20] 0 2 [{(100, 1)}, {(100, 0)}])
       sums ((2 ^ 52 - 1) / 2 ^ 53 * ((2 ^ 52 + 1) / 2 ^ 53 * (1 / 2)))"
    by (simp add: example_batch py_slice_def example_pairing_chances numeral_3_eq_3)
  from T [THEN conjunct2, THEN conjunct2, THEN conjunct1]
  have c: "chance_at 3 (getitem (\<lambda>xs. xs) (\<lambda>v. v) 0 example_generator 0)
         (batches_in [10, 20] 0 2
            (map (pairings (\<lambda>v. v) example_generator) [[0, 0, 0, 1], [0, 0, 0, 2]]))
       sums 1"
    by (simp add: example_batch py_slice_def numeral_3_eq_3)
  from run a b c show ?thesis by (intro conjI)
qed

text \<open>
  C2. The notebook says that the data is augmented for training and for validation.
  The two generators that \<open>train_model\<close> builds are built with \<open>shuffle=False\<close>, and
  \<open>__getitem__\<close> augments only under \<open>if self.shuffle\<close>: what they return for a fetched
  batch does not depend on the augmenter at all, it is what the identity in its place
  returns. No batch of probes is augmented.
\<close>

theorem train_val_generators_skip_augmentation:
  "shuffle (train_gen perm x_train label_train xs_real y_real) = False
   \<and> shuffle (val_gen perm x_val label_val xs_real y_real) = False
   \<and> getitem augment scale junk (train_gen perm x_train label_train xs_real y_real) index g
     = getitem (\<lambda>batch. batch) scale junk (train_gen perm x_train label_train xs_real y_real) index g
   \<and> getitem augment scale junk (val_gen perm x_val label_val xs_real y_real) index g
     = getitem (\<lambda>batch. batch) scale junk (val_gen perm x_val label_val xs_real y_real) index g"
  by (simp add: getitem_def train_gen_def val_gen_def DataGenerator_init_def on_epoch_end_def)

subsection \<open>The preprocessing step of the fingerprint notebook\<close>

lemma err_bind_Inr:
  "err_bind r f = Inr v \<longleftrightarrow> (\<exists>w. r = Inr w \<and> f w = Inr v)"
  by (cases r) (simp_all add: err_bind_def)

lemma fingerprint_load_and_split_names:
  assumes "fingerprint_load_and_split order data_dir fs = Inr local_names"
  shows "local_names ''laWhatWhatbel_train'' = None
       \<and> local_names ''x_train'' \<noteq> None \<and> local_names ''label_train'' \<noteq> None"
  using assms
  by (auto simp: fingerprint_load_and_split_def err_bind_Inr Let_def)

lemma files_ensure_dir: "files (ensure_dir d fs) = files fs"
  by (simp add: ensure_dir_def)

text \<open>
  C3. The preprocessing step of the fingerprint notebook names \<open>laWhatWhatbel_train\<close>
  where it saves the training labels. No statement of the function binds that name (it
  binds \<open>label_train\<close>), so, unless the module defines it, every run that reaches the save
  of \<open>train_data.npz\<close> stops there with NameError; no run finishes, and no run writes any
  file: neither the train, nor the validation, nor the real bundle.
\<close>

theorem fingerprint_preprocess_data_name_fault:
  assumes "global_names ''laWhatWhatbel_train'' = None"
  shows "(\<forall>local_names. fingerprint_load_and_split order data_dir fs = Inr local_names
          \<longrightarrow> fst (fingerprint_preprocess_data order global_names data_dir prep_data_dir fs)
                = Inl (NameError ''laWhatWhatbel_train'')
            \<and> local_names ''laWhatWhatbel_train'' = None
            \<and> local_names ''label_train'' \<noteq> None)
       \<and> fst (fingerprint_preprocess_data order global_names data_dir prep_data_dir fs) \<noteq> Inr ()
       \<and> files (snd (fingerprint_preprocess_data order global_names data_dir prep_data_dir fs))
          = files fs"
proof -
  let ?r = "fingerprint_preprocess_data order global_names data_dir prep_data_dir fs"
  show ?thesis
  proof (cases "fingerprint_load_and_split order data_dir fs")
    case (Inl e)
    then show ?thesis by (simp add: fingerprint_preprocess_data_def)
  next
    case (Inr names)
    from fingerprint_load_and_split_names [OF Inr] obtain a where
      typo: "names ''laWhatWhatbel_train'' = None" and xt: "names ''x_train'' = Some a"
      and lt: "names ''label_train'' \<noteq> None" by auto
    have sv: "savez_names names global_names (''/'' @ prep_data_dir @ ''/train_data.npz'')
            ''x_train'' ''laWhatWhatbel_train'' (ensure_dir prep_data_dir fs)
          = (Inl (NameError ''laWhatWhatbel_train''), ensure_dir prep_data_dir fs)"
      using typo xt assms by (simp add: savez_names_def resolve_def)
    have "?r = (Inl (NameError ''laWhatWhatbel_train''), ensure_dir prep_data_dir fs)"
      unfolding fingerprint_preprocess_data_def Inr
      by (simp only: sum.case Let_def sv prod.case)
    with Inr lt typo show ?thesis by (auto simp: files_ensure_dir)
  qed
qed

theorem fingerprint_preprocess_data_name_fault_witness:
  "(Map.empty :: nat list namespace) ''laWhatWhatbel_train'' = None
   \<and> (\<exists>local_names.
         fingerprint_load_and_split [0, 1, 2, 3] ''/data'' example_fingerprint_fs
           = Inr local_names)
   \<and> fst (fingerprint_preprocess_data [0, 1, 2, 3] Map.empty ''/data'' ''/prep''
           example_fingerprint_fs)
      = Inl (NameError ''laWhatWhatbel_train'')"
proof -
  have loads:
    "np_load_key example_fingerprint_fs (''/data'' @ ''/x_real.npz'') ''data'' = Inr [10]"
    "np_load example_fingerprint_fs (''/data'' @ ''/y_real.npy'') = Inr [1]"
    "np_load_key example_fingerprint_fs (''/data'' @ ''/x_easy.npz'') ''data'' = Inr [11, 12]"
    "np_load example_fingerprint_fs (''/data'' @ ''/y_easy.npy'') = Inr [1, 2]"
    "np_load_key example_fingerprint_fs (''/data'' @ ''/x_medium.npz'') ''data'' = Inr [13]"
    "np_load example_fingerprint_fs (''/data'' @ ''/y_medium.npy'') = Inr [3]"
    "np_load_key example_fingerprint_fs (''/data'' @ ''/x_hard.npz'') ''data'' = Inr [14]"
    "np_load example_fingerprint_fs (''/data'' @ ''/y_hard.npy'') = Inr [4]"
    by (simp_all add: np_load_key_def np_load_def example_fingerprint_fs_def)
  have c: "\<lceil>(2/5 :: rat)\<rceil> = 1" by (rule ceiling_unique) simp_all
  have split: "train_test_split [0, 1, 2, 3] 0.1 ([11, 12] @ [13] @ [14 :: nat])
                  ([1, 2] @ [3] @ [4 :: nat])
               = Inr ([12, 13, 14], [11], [2, 3, 4], [1])"
    by (simp add: train_test_split_def n_test_rows_def c Let_def)
  have reach: "\<exists>local_names.
      fingerprint_load_and_split [0, 1, 2, 3] ''/data'' example_fingerprint_fs = Inr local_names"
    unfolding fingerprint_load_and_split_def
    by (simp only: loads err_bind_def sum.case Let_def split prod.case) blast
  then obtain names where
    r: "fingerprint_load_and_split [0, 1, 2, 3] ''/data'' example_fingerprint_fs = Inr names" ..
  have g: "(Map.empty :: nat list namespace) ''laWhatWhatbel_train'' = None" by simp
  have "fst (fingerprint_preprocess_data [0, 1, 2, 3] Map.empty ''/data'' ''/prep''
           example_fingerprint_fs)
          = Inl (NameError ''laWhatWhatbel_train'')"
    by (rule fingerprint_preprocess_data_name_fault
          [OF g, THEN conjunct1, rule_format, OF r, THEN conjunct1])
  with reach g show ?thesis by (intro conjI)
qed

subsection \<open>The covid steps and the splits\<close>

lemma load_images_Inr:
  assumes "load_images imread cvt_resize paths (d0, l0) = Inr (d, l)"
  shows "d = d0 @ map (\<lambda>p. cvt_resize (the (imread p))) (filter qualifies paths)
       \<and> l = l0 @ map dir_label (filter qualifies paths)"
  using assms
proof (induction paths arbitrary: d0 l0)
  case Nil
  then show ?case by simp
next
  case (Cons p paths)
  from Cons.prems obtain lab where lab: "parent_dir_label p = Inr lab"
    by (auto split: sum.splits)
  show ?case
  proof (cases "lab = ''covid'' \<or> lab = ''normal''")
    case True
    with Cons.prems lab obtain im where im: "imread p = Some im"
      by (auto split: option.splits)
    with Cons.prems lab True
    have "load_images imread cvt_resize paths (d0 @ [cvt_resize im], l0 @ [lab]) = Inr (d, l)"
      by auto
    from Cons.IH [OF this] lab True im show ?thesis
      by (auto simp: qualifies_def dir_label_def)
  next
    case False
    with Cons.prems lab
    have "load_images imread cvt_resize paths (d0, l0) = Inr (d, l)" by auto
    from Cons.IH [OF this] lab False show ?thesis
      by (auto simp: qualifies_def)
  qed
qed

lemma LabelBinarizer_rows:
  assumes "LabelBinarizer_fit_transform labels = Inr binarized"
  shows "\<exists>f. binarized = map f labels"
  using assms
  by (auto simp: LabelBinarizer_fit_transform_def Let_def split: if_splits)

lemma to_categorical_rows: "\<exists>f. to_categorical ys = map f ys"
  by (auto simp: to_categorical_def Let_def)

lemma files_np_savez_kw: "files (np_savez_kw p arrays fs) p = Some (Npz arrays)"
  by (simp add: np_savez_kw_def write_file_def)

lemma covid_preprocess_data_Inr:
  assumes "covid_preprocess_data list_images imread cvt_resize scale data_dir prep_dir fs
             = (Inr (), fs')"
  shows "\<exists>enc. files fs' (''/'' @ prep_dir @ ''/data.npz'')
       = Some (Npz
           [(''data'', map (\<lambda>p. Image (scale (cvt_resize (the (imread p)))))
                         (filter qualifies (list_images data_dir))),
            (''labels'', map (\<lambda>p. OneHot (enc (dir_label p)))
                         (filter qualifies (list_images data_dir)))])"
proof -
  from assms obtain d l where
    ld: "load_images imread cvt_resize (list_images data_dir) ([], []) = Inr (d, l)"
    by (auto simp: covid_preprocess_data_def Let_def split: sum.splits)
  from assms ld obtain binarized where
    bin: "LabelBinarizer_fit_transform l = Inr binarized"
    by (auto simp: covid_preprocess_data_def Let_def split: sum.splits)
  from assms ld bin have fs': "fs' = np_savez_kw (''/'' @ prep_dir @ ''/data.npz'')
      [(''data'', map Image (map scale d)), (''labels'', map OneHot (to_categorical binarized))]
      (ensure_dir prep_dir fs)"
    by (simp add: covid_preprocess_data_def Let_def)
  from load_images_Inr [OF ld] have
    d: "d = map (\<lambda>p. cvt_resize (the (imread p))) (filter qualifies (list_images data_dir))"
    and l: "l = map dir_label (filter qualifies (list_images data_dir))" by simp_all
  from LabelBinarizer_rows [OF bin] obtain f where f: "binarized = map f l" ..
  from to_categorical_rows obtain h where h: "to_categorical binarized = map h binarized" ..
  have "to_categorical binarized = map (h \<circ> f) l"
    by (subst h) (simp add: f)
  then have "map OneHot (to_categorical binarized)
      = map (\<lambda>p. OneHot ((h \<circ> f) (dir_label p))) (filter qualifies (list_images data_dir))"
    by (simp add: l)
  moreover have "map Image (map scale d)
      = map (\<lambda>p. Image (scale (cvt_resize (the (imread p)))))
          (filter qualifies (list_images data_dir))"
    by (simp add: d)
  ultimately show ?thesis
    unfolding fs' files_np_savez_kw by blast
qed

lemma n_test_rows_ceiling:
  assumes "0 \<le> f"
  shows "int (n_test_rows f n) = \<lceil>f * of_nat n\<rceil>"
proof -
  have "0 \<le> f * of_nat n" using assms by simp
  then have "- 1 < f * of_nat n" by simp
  then have "0 \<le> \<lceil>f * of_nat n\<rceil>" by (simp only: zero_le_ceiling)
  then show ?thesis by (simp add: n_test_rows_def)
qed

lemma n_test_rows_le:
  assumes "0 \<le> f" "f \<le> 1"
  shows "n_test_rows f n \<le> n"
proof -
  have "f * of_nat n \<le> of_int (int n)"
    using assms mult_right_mono [of f 1 "of_nat n"] by simp
  then have "\<lceil>f * of_nat n\<rceil> \<le> int n" by (simp only: ceiling_le_iff)
  then show ?thesis by (simp add: n_test_rows_def)
qed

lemma train_test_split_Inr:
  assumes "train_test_split order f X y = Inr (Xtr, Xte, ytr, yte)"
  shows "length X = length y \<and> 0 < f \<and> f < 1
       \<and> Xtr = map ((!) X) (take (length X - n_test_rows f (length X))
                                (drop (n_test_rows f (length X)) order))
       \<and> ytr = map ((!) y) (take (length X - n_test_rows f (length X))
                                (drop (n_test_rows f (length X)) order))
       \<and> Xte = map ((!) X) (take (n_test_rows f (length X)) order)
       \<and> yte = map ((!) y) (take (n_test_rows f (length X)) order)"
  using assms
  by (auto simp: train_test_split_def Let_def split: if_splits)

lemma train_test_split_stratify_Inr:
  assumes "train_test_split_stratify order f X y s = Inr r"
  shows "train_test_split order f X y = Inr r"
  using assms
  by (auto simp: train_test_split_stratify_def Let_def split: if_splits)

lemma split_part_sizes:
  assumes "train_test_split order f X y = Inr (Xtr, Xte, ytr, yte)"
    and "length order = length X"
  shows "length Xtr + length Xte = length X
       \<and> length ytr = length Xtr \<and> length yte = length Xte
       \<and> int (length Xte) = \<lceil>f * of_nat (length X)\<rceil>"
proof -
  note s = train_test_split_Inr [OF assms(1)]
  from s have f: "0 \<le> f" "f \<le> 1" by simp_all
  have le: "n_test_rows f (length X) \<le> length X" using f by (rule n_test_rows_le)
  from s assms(2) le have te: "length Xte = n_test_rows f (length X)" by simp
  from s assms(2) le have tr: "length Xtr = length X - n_test_rows f (length X)" by simp
  from s have "length ytr = length Xtr" "length yte = length Xte" by simp_all
  with te tr le n_test_rows_ceiling [OF f(1), of "length X"] show ?thesis by simp
qed

lemma train_test_split_aligned:
  assumes "train_test_split order f X y = Inr (Xtr, Xte, ytr, yte)"
    and "set order \<subseteq> {0..<length X}"
  shows "(\<forall>i<length Xtr. \<exists>j<length X. Xtr ! i = X ! j \<and> ytr ! i = y ! j)
       \<and> (\<forall>i<length Xte. \<exists>j<length X. Xte ! i = X ! j \<and> yte ! i = y ! j)"
proof -
  note s = train_test_split_Inr [OF assms(1)]
  let ?train = "take (length X - n_test_rows f (length X)) (drop (n_test_rows f (length X)) order)"
  let ?test = "take (n_test_rows f (length X)) order"
  have tr: "set ?train \<subseteq> {0..<length X}"
    using assms(2) set_take_subset set_drop_subset by fastforce
  have te: "set ?test \<subseteq> {0..<length X}"
    using assms(2) set_take_subset by fastforce
  have a: "\<forall>i<length (map ((!) X) idx). \<exists>j<length X.
             map ((!) X) idx ! i = X ! j \<and> map ((!) y) idx ! i = y ! j"
    if "set idx \<subseteq> {0..<length X}" for idx
  proof (intro allI impI)
    fix i assume "i < length (map ((!) X) idx)"
    then have i: "i < length idx" by simp
    then have "idx ! i \<in> set idx" by simp
    with that have "idx ! i < length X" by auto
    with i show "\<exists>j<length X. map ((!) X) idx ! i = X ! j \<and> map ((!) y) idx ! i = y ! j"
      by auto
  qed
  from a [OF tr] a [OF te] s show ?thesis by simp
qed

lemma files_np_savez_same: "files (np_savez p a b fs) p = Some (Npz [(''arr_0'', a), (''arr_1'', b)])"
  by (simp add: np_savez_def write_file_def)

lemma files_np_savez_other: "q \<noteq> p \<Longrightarrow> files (np_savez p a b fs) q = files fs q"
  by (simp add: np_savez_def write_file_def)

lemma covid_traintestsplit_data_Inr:
  assumes "covid_traintestsplit_data order prep_dir file_name traintest_dir fs = (Inr (), fs')"
  shows "\<exists>data labels trainX testX trainY testY.
           np_load_key fs (''/'' @ prep_dir @ ''/data.npz'') ''data'' = Inr data
         \<and> np_load_key fs (''/'' @ prep_dir @ ''/data.npz'') ''labels'' = Inr labels
         \<and> train_test_split order 0.40 data labels = Inr (trainX, testX, trainY, testY)
         \<and> files fs' (''/'' @ traintest_dir @ ''/train_data.npz'')
             = Some (Npz [(''arr_0'', trainX), (''arr_1'', trainY)])
         \<and> files fs' (''/'' @ traintest_dir @ ''/val_data.npz'')
             = Some (Npz [(''arr_0'', testX), (''arr_1'', testY)])"
proof -
  let ?p = "''/'' @ prep_dir @ ''/data.npz''"
  from assms obtain data where d: "np_load_key fs ?p ''data'' = Inr data"
    by (auto simp: covid_traintestsplit_data_def split: sum.splits)
  from assms d obtain labels where l: "np_load_key fs ?p ''labels'' = Inr labels"
    by (auto simp: covid_traintestsplit_data_def split: sum.splits)
  from assms d l obtain trainX testX trainY testY where
    s: "train_test_split_stratify order 0.40 data labels labels
          = Inr (trainX, testX, trainY, testY)"
    by (auto simp: covid_traintestsplit_data_def split: sum.splits)
  from assms d l s have fs': "fs' =
      np_savez (''/'' @ traintest_dir @ ''/val_data.npz'') testX testY
        (np_savez (''/'' @ traintest_dir @ ''/train_data.npz'') trainX trainY
           (ensure_dir traintest_dir fs))"
    by (simp add: covid_traintestsplit_data_def Let_def)
  have ne: "''/'' @ traintest_dir @ ''/train_data.npz'' \<noteq> ''/'' @ traintest_dir @ ''/val_data.npz''"
    by simp
  have "files fs' (''/'' @ traintest_dir @ ''/train_data.npz'')
             = Some (Npz [(''arr_0'', trainX), (''arr_1'', trainY)])"
    unfolding fs' by (simp only: files_np_savez_other [OF ne] files_np_savez_same)
  moreover have "files fs' (''/'' @ traintest_dir @ ''/val_data.npz'')
             = Some (Npz [(''arr_0'', testX), (''arr_1'', testY)])"
    unfolding fs' by (simp only: files_np_savez_same)
  ultimately show ?thesis
    using d l train_test_split_stratify_Inr [OF s] by blast
qed

lemma df_column_length: "df_column df name = Inr vals \<Longrightarrow> length vals = length (rows df)"
  by (auto simp: df_column_def split: if_splits)

lemma df_drop_rows: "df_drop df name = Inr X \<Longrightarrow> length (rows X) = length (rows df)"
  by (auto simp: df_drop_def split: if_splits)

lemma fraud_train_model_Inr:
  assumes "fraud_train_model order fit prep_data_dir model_dir traintest_dir fs = (Inr (), fs')"
  shows "\<exists>df X y X_train X_test y_train y_test.
           pd_read_pickle fs (prep_data_dir @ ''/df.pkl'') = Inr df
         \<and> df_attribute df ''fraud'' = Inr y \<and> df_drop df ''fraud'' = Inr X
         \<and> length (rows X) = length (rows df)
         \<and> train_test_split order 0.2 (rows X) y = Inr (X_train, X_test, y_train, y_test)
         \<and> files fs' (traintest_dir @ ''/train_data.npz'')
             = Some (Npz [(''arr_0'', map Features X_train), (''arr_1'', map Target y_train)])
         \<and> files fs' (traintest_dir @ ''/val_data.npz'')
             = Some (Npz [(''arr_0'', map Features X_test), (''arr_1'', map Target y_test)])"
proof -
  from assms obtain r where
    r: "err_bind (pd_read_pickle fs (prep_data_dir @ ''/df.pkl'')) (\<lambda>df.
           err_bind (df_attribute df ''fraud'') (\<lambda>y.
           err_bind (df_drop df ''fraud'') (\<lambda>X.
           train_test_split order 0.2 (rows X) y))) = Inr r"
    by (auto simp: fraud_train_model_def split: sum.splits)
  then obtain df y X where
    df: "pd_read_pickle fs (prep_data_dir @ ''/df.pkl'') = Inr df"
    and y: "df_attribute df ''fraud'' = Inr y" and X: "df_drop df ''fraud'' = Inr X"
    and s: "train_test_split order 0.2 (rows X) y = Inr r"
    by (auto simp: err_bind_Inr)
  obtain X_train X_test y_train y_test where rr: "r = (X_train, X_test, y_train, y_test)"
    by (cases r) auto
  from assms r rr have fs': "fs' =
     np_savez (traintest_dir @ ''/val_data.npz'') (map Features X_test) (map Target y_test)
       (np_savez (traintest_dir @ ''/train_data.npz'') (map Features X_train) (map Target y_train)
          (write_file (model_dir @ ''/trained_model.sav'') (Estimator (fit X_train y_train))
             (ensure_dir traintest_dir (ensure_dir model_dir fs))))"
    by (simp add: fraud_train_model_def Let_def)
  have ne: "traintest_dir @ ''/train_data.npz'' \<noteq> traintest_dir @ ''/val_data.npz''"
    by simp
  have "files fs' (traintest_dir @ ''/train_data.npz'')
             = Some (Npz [(''arr_0'', map Features X_train), (''arr_1'', map Target y_train)])"
    unfolding fs' by (simp only: files_np_savez_other [OF ne] files_np_savez_same)
  moreover have "files fs' (traintest_dir @ ''/val_data.npz'')
             = Some (Npz [(''arr_0'', map Features X_test), (''arr_1'', map Target y_test)])"
    unfolding fs' by (simp only: files_np_savez_same)
  ultimately show ?thesis
    using df y X s rr df_drop_rows [OF X] by blast
qed

text \<open>
  C4. A train/test split of a step, on \<open>n\<close> aligned rows and with test fraction \<open>f\<close>: the
  covid split step (\<open>f = 0.40\<close>) and the fraud training step (\<open>f = 0.2\<close>) write a train and
  a validation bundle whose sizes sum to \<open>n\<close>, the validation bundle has \<open>ceil(f * n)\<close> rows,
  and features and labels have the same number of rows in each bundle. \<open>order\<close> is the
  library's ordering of the \<open>n\<close> row indices.
\<close>

theorem train_test_split_sizes_of_steps:
  "(covid_traintestsplit_data order prep_dir file_name traintest_dir fs = (Inr (), fs')
      \<and> np_load_key fs (''/'' @ prep_dir @ ''/data.npz'') ''data'' = Inr data
      \<and> length order = length data
     \<longrightarrow> (\<exists>trainX trainY testX testY.
            files fs' (''/'' @ traintest_dir @ ''/train_data.npz'')
              = Some (Npz [(''arr_0'', trainX), (''arr_1'', trainY)])
          \<and> files fs' (''/'' @ traintest_dir @ ''/val_data.npz'')
              = Some (Npz [(''arr_0'', testX), (''arr_1'', testY)])
          \<and> length trainX + length testX = length data
          \<and> length trainY = length trainX \<and> length testY = length testX
          \<and> int (length testX) = \<lceil>(0.40 :: rat) * of_nat (length data)\<rceil>))
   \<and> (fraud_train_model order' fit prep_data_dir model_dir traintest_dir' ffs = (Inr (), ffs')
      \<and> pd_read_pickle ffs (prep_data_dir @ ''/df.pkl'') = Inr df
      \<and> length order' = length (rows df)
     \<longrightarrow> (\<exists>X_train y_train X_test y_test.
            files ffs' (traintest_dir' @ ''/train_data.npz'')
              = Some (Npz [(''arr_0'', X_train), (''arr_1'', y_train)])
          \<and> files ffs' (traintest_dir' @ ''/val_data.npz'')
              = Some (Npz [(''arr_0'', X_test), (''arr_1'', y_test)])
          \<and> length X_train + length X_test = length (rows df)
          \<and> length y_train = length X_train \<and> length y_test = length X_test
          \<and> int (length X_test) = \<lceil>(0.2 :: rat) * of_nat (length (rows df))\<rceil>))"
proof (intro conjI impI)
  assume a: "covid_traintestsplit_data order prep_dir file_name traintest_dir fs = (Inr (), fs')
      \<and> np_load_key fs (''/'' @ prep_dir @ ''/data.npz'') ''data'' = Inr data
      \<and> length order = length data"
  then have run: "covid_traintestsplit_data order prep_dir file_name traintest_dir fs
      = (Inr (), fs')" by simp
  from covid_traintestsplit_data_Inr [OF run]
  show "\<exists>trainX trainY testX testY.
            files fs' (''/'' @ traintest_dir @ ''/train_data.npz'')
              = Some (Npz [(''arr_0'', trainX), (''arr_1'', trainY)])
          \<and> files fs' (''/'' @ traintest_dir @ ''/val_data.npz'')
              = Some (Npz [(''arr_0'', testX), (''arr_1'', testY)])
          \<and> length trainX + length testX = length data
          \<and> length trainY = length trainX \<and> length testY = length testX
          \<and> int (length testX) = \<lceil>(0.40 :: rat) * of_nat (length data)\<rceil>"
  proof (elim exE conjE)
    fix data' labels trainX testX trainY testY
    assume d': "np_load_key fs (''/'' @ prep_dir @ ''/data.npz'') ''data'' = Inr data'"
      and s': "train_test_split order 0.40 data' labels = Inr (trainX, testX, trainY, testY)"
      and w: "files fs' (''/'' @ traintest_dir @ ''/train_data.npz'')
                = Some (Npz [(''arr_0'', trainX), (''arr_1'', trainY)])"
         "files fs' (''/'' @ traintest_dir @ ''/val_data.npz'')
                = Some (Npz [(''arr_0'', testX), (''arr_1'', testY)])"
    from a d' have "data' = data" by simp
    with s' have s: "train_test_split order 0.40 data labels
        = Inr (trainX, testX, trainY, testY)" by simp
    from a have "length order = length data" by simp
    then have sz: "length trainX + length testX = length data
       \<and> length trainY = length trainX \<and> length testY = length testX
       \<and> int (length testX) = \<lceil>(0.40 :: rat) * of_nat (length data)\<rceil>"
      by (rule split_part_sizes [OF s])
    show ?thesis
      by (rule exI [of _ trainX], rule exI [of _ trainY], rule exI [of _ testX],
          rule exI [of _ testY]) (use sz w in simp)
  qed
next
  assume a: "fraud_train_model order' fit prep_data_dir model_dir traintest_dir' ffs = (Inr (), ffs')
      \<and> pd_read_pickle ffs (prep_data_dir @ ''/df.pkl'') = Inr df
      \<and> length order' = length (rows df)"
  then have run: "fraud_train_model order' fit prep_data_dir model_dir traintest_dir' ffs
      = (Inr (), ffs')" by simp
  from fraud_train_model_Inr [OF run]
  show "\<exists>X_train y_train X_test y_test.
            files ffs' (traintest_dir' @ ''/train_data.npz'')
              = Some (Npz [(''arr_0'', X_train), (''arr_1'', y_train)])
          \<and> files ffs' (traintest_dir' @ ''/val_data.npz'')
              = Some (Npz [(''arr_0'', X_test), (''arr_1'', y_test)])
          \<and> length X_train + length X_test = length (rows df)
          \<and> length y_train = length X_train \<and> length y_test = length X_test
          \<and> int (length X_test) = \<lceil>(0.2 :: rat) * of_nat (length (rows df))\<rceil>"
  proof (elim exE conjE)
    fix df' X y X_train X_test y_train y_test
    assume df': "pd_read_pickle ffs (prep_data_dir @ ''/df.pkl'') = Inr df'"
      and n': "length (rows X) = length (rows df')"
      and s: "train_test_split order' 0.2 (rows X) y = Inr (X_train, X_test, y_train, y_test)"
      and w: "files ffs' (traintest_dir' @ ''/train_data.npz'')
               = Some (Npz [(''arr_0'', map Features X_train), (''arr_1'', map Target y_train)])"
         "files ffs' (traintest_dir' @ ''/val_data.npz'')
               = Some (Npz [(''arr_0'', map Features X_test), (''arr_1'', map Target y_test)])"
    from a df' have "df' = df" by simp
    with n' have n: "length (rows X) = length (rows df)" by simp
    from a n have "length order' = length (rows X)" by simp
    then have sz: "length X_train + length X_test = length (rows X)
       \<and> length y_train = length X_train \<and> length y_test = length X_test
       \<and> int (length X_test) = \<lceil>(0.2 :: rat) * of_nat (length (rows X))\<rceil>"
      by (rule split_part_sizes [OF s])
    show ?thesis
      by (rule exI [of _ "map Features X_train"], rule exI [of _ "map Target y_train"],
          rule exI [of _ "map Features X_test"], rule exI [of _ "map Target y_test"])
        (use sz n w in simp)
  qed
qed

text \<open>
  C5. Whenever the covid preprocessing step finishes, the data array and the label array
  it writes have as many rows as there are qualifying image files under the input
  directory, a file qualifying when the directory it is in is named \<open>covid\<close> or \<open>normal\<close>.
\<close>

theorem covid_preprocess_data_row_count:
  assumes "covid_preprocess_data list_images imread cvt_resize scale data_dir prep_dir fs
             = (Inr (), fs')"
  shows "\<exists>data labels.
           files fs' (''/'' @ prep_dir @ ''/data.npz'')
             = Some (Npz [(''data'', data), (''labels'', labels)])
         \<and> length data = length (filter qualifies (list_images data_dir))
         \<and> length labels = length (filter qualifies (list_images data_dir))"
proof -
  from covid_preprocess_data_Inr [OF assms] obtain enc where
    "files fs' (''/'' @ prep_dir @ ''/data.npz'')
       = Some (Npz
           [(''data'', map (\<lambda>p. Image (scale (cvt_resize (the (imread p)))))
                         (filter qualifies (list_images data_dir))),
            (''labels'', map (\<lambda>p. OneHot (enc (dir_label p)))
                         (filter qualifies (list_images data_dir)))])" ..
  then show ?thesis
    by (rule_tac x = "map (\<lambda>p. Image (scale (cvt_resize (the (imread p)))))
                         (filter qualifies (list_images data_dir))" in exI,
        rule_tac x = "map (\<lambda>p. OneHot (enc (dir_label p)))
                         (filter qualifies (list_images data_dir))" in exI) simp
qed

lemma example_parent_labels:
  "parent_dir_label ''/data/covid/a.png'' = Inr ''covid''"
  "parent_dir_label ''/data/normal/b.png'' = Inr ''normal''"
  "parent_dir_label ''/data/other/c.png'' = Inr ''other''"
  "parent_dir_label ''/data/covid/d.png'' = Inr ''covid''"
  by (simp_all add: parent_dir_label_def py_get_def)

lemma example_covid_preprocess_runs:
  "fst (covid_preprocess_data example_list_images example_imread (\<lambda>i. i) (\<lambda>i. i)
          ''/data'' ''/prep'' example_empty_fs) = Inr ()"
proof -
  have "load_images example_imread (\<lambda>i. i) (example_list_images ''/data'') ([], [])
      = Inr ([17, 18, 17], [''covid'', ''normal'', ''covid''])"
    unfolding example_list_images_def
    by (simp add: example_parent_labels example_imread_def)
  moreover have "\<exists>b. LabelBinarizer_fit_transform [''covid'', ''normal'', ''covid''] = Inr b"
    by (simp add: LabelBinarizer_fit_transform_def Let_def)
  ultimately show ?thesis
    by (auto simp: covid_preprocess_data_def Let_def)
qed

theorem covid_preprocess_data_row_count_witness:
  "fst (covid_preprocess_data example_list_images example_imread (\<lambda>i. i) (\<lambda>i. i)
          ''/data'' ''/prep'' example_empty_fs) = Inr ()
   \<and> length (filter qualifies (example_list_images ''/data'')) = 3
   \<and> (\<exists>data labels.
         files (snd (covid_preprocess_data example_list_images example_imread (\<lambda>i. i) (\<lambda>i. i)
                       ''/data'' ''/prep'' example_empty_fs)) ''//prep/data.npz''
           = Some (Npz [(''data'', data), (''labels'', labels)])
       \<and> length data = 3 \<and> length labels = 3)"
proof -
  let ?r = "covid_preprocess_data example_list_images example_imread (\<lambda>i. i) (\<lambda>i. i)
              ''/data'' ''/prep'' example_empty_fs"
  have run: "?r = (Inr (), snd ?r)"
    using example_covid_preprocess_runs by (metis prod.collapse)
  have q: "length (filter qualifies (example_list_images ''/data'')) = 3"
    unfolding example_list_images_def
    by (simp add: qualifies_def example_parent_labels)
  from covid_preprocess_data_row_count [OF run] q example_covid_preprocess_runs
  show ?thesis by simp
qed

text \<open>
  C7. The array bundles keep features and labels aligned. The covid preprocessing step
  writes data and labels of equal length, row \<open>i\<close> of both coming from the \<open>i\<close>-th retained
  image file (its image, and the encoding of its directory label). The covid split step
  writes a train and a validation bundle in which features and labels have equal length
  and row \<open>i\<close> of both is one and the same row \<open>j\<close> of the input arrays.
\<close>

theorem bundles_keep_rows_aligned:
  "(covid_preprocess_data list_images imread cvt_resize scale data_dir prep_dir fs = (Inr (), fs')
     \<longrightarrow> (\<exists>enc data labels.
            files fs' (''/'' @ prep_dir @ ''/data.npz'')
              = Some (Npz [(''data'', data), (''labels'', labels)])
          \<and> length data = length labels
          \<and> data = map (\<lambda>p. Image (scale (cvt_resize (the (imread p)))))
                       (filter qualifies (list_images data_dir))
          \<and> labels = map (\<lambda>p. OneHot (enc (dir_label p)))
                         (filter qualifies (list_images data_dir))))
   \<and> (covid_traintestsplit_data order prep_dir' file_name traintest_dir sfs = (Inr (), sfs')
      \<and> np_load_key sfs (''/'' @ prep_dir' @ ''/data.npz'') ''data'' = Inr X
      \<and> np_load_key sfs (''/'' @ prep_dir' @ ''/data.npz'') ''labels'' = Inr Y
      \<and> set order \<subseteq> {0..<length X}
     \<longrightarrow> (\<exists>trainX trainY testX testY.
            files sfs' (''/'' @ traintest_dir @ ''/train_data.npz'')
              = Some (Npz [(''arr_0'', trainX), (''arr_1'', trainY)])
          \<and> files sfs' (''/'' @ traintest_dir @ ''/val_data.npz'')
              = Some (Npz [(''arr_0'', testX), (''arr_1'', testY)])
          \<and> length trainX = length trainY \<and> length testX = length testY
          \<and> (\<forall>i<length trainX. \<exists>j<length X. trainX ! i = X ! j \<and> trainY ! i = Y ! j)
          \<and> (\<forall>i<length testX. \<exists>j<length X. testX ! i = X ! j \<and> testY ! i = Y ! j)))"
proof (intro conjI impI)
  assume run: "covid_preprocess_data list_images imread cvt_resize scale data_dir prep_dir fs
      = (Inr (), fs')"
  from covid_preprocess_data_Inr [OF run] obtain enc where
    w: "files fs' (''/'' @ prep_dir @ ''/data.npz'')
       = Some (Npz
           [(''data'', map (\<lambda>p. Image (scale (cvt_resize (the (imread p)))))
                         (filter qualifies (list_images data_dir))),
            (''labels'', map (\<lambda>p. OneHot (enc (dir_label p)))
                         (filter qualifies (list_images data_dir)))])" ..
  show "\<exists>enc data labels.
            files fs' (''/'' @ prep_dir @ ''/data.npz'')
              = Some (Npz [(''data'', data), (''labels'', labels)])
          \<and> length data = length labels
          \<and> data = map (\<lambda>p. Image (scale (cvt_resize (the (imread p)))))
                       (filter qualifies (list_images data_dir))
          \<and> labels = map (\<lambda>p. OneHot (enc (dir_label p)))
                         (filter qualifies (list_images data_dir))"
    by (rule exI [of _ enc],
        rule exI [of _ "map (\<lambda>p. Image (scale (cvt_resize (the (imread p)))))
                         (filter qualifies (list_images data_dir))"],
        rule exI [of _ "map (\<lambda>p. OneHot (enc (dir_label p)))
                         (filter qualifies (list_images data_dir))"])
       (use w in simp)
next
  assume a: "covid_traintestsplit_data order prep_dir' file_name traintest_dir sfs = (Inr (), sfs')
      \<and> np_load_key sfs (''/'' @ prep_dir' @ ''/data.npz'') ''data'' = Inr X
      \<and> np_load_key sfs (''/'' @ prep_dir' @ ''/data.npz'') ''labels'' = Inr Y
      \<and> set order \<subseteq> {0..<length X}"
  then have run: "covid_traintestsplit_data order prep_dir' file_name traintest_dir sfs
      = (Inr (), sfs')" by simp
  from covid_traintestsplit_data_Inr [OF run]
  show "\<exists>trainX trainY testX testY.
            files sfs' (''/'' @ traintest_dir @ ''/train_data.npz'')
              = Some (Npz [(''arr_0'', trainX), (''arr_1'', trainY)])
          \<and> files sfs' (''/'' @ traintest_dir @ ''/val_data.npz'')
              = Some (Npz [(''arr_0'', testX), (''arr_1'', testY)])
          \<and> length trainX = length trainY \<and> length testX = length testY
          \<and> (\<forall>i<length trainX. \<exists>j<length X. trainX ! i = X ! j \<and> trainY ! i = Y ! j)
          \<and> (\<forall>i<length testX. \<exists>j<length X. testX ! i = X ! j \<and> testY ! i = Y ! j)"
  proof (elim exE conjE)
    fix data labels trainX testX trainY testY
    assume d: "np_load_key sfs (''/'' @ prep_dir' @ ''/data.npz'') ''data'' = Inr data"
      and l: "np_load_key sfs (''/'' @ prep_dir' @ ''/data.npz'') ''labels'' = Inr labels"
      and s': "train_test_split order 0.40 data labels = Inr (trainX, testX, trainY, testY)"
      and w: "files sfs' (''/'' @ traintest_dir @ ''/train_data.npz'')
                = Some (Npz [(''arr_0'', trainX), (''arr_1'', trainY)])"
         "files sfs' (''/'' @ traintest_dir @ ''/val_data.npz'')
                = Some (Npz [(''arr_0'', testX), (''arr_1'', testY)])"
    from a d l have "data = X" "labels = Y" by simp_all
    with s' have s: "train_test_split order 0.40 X Y = Inr (trainX, testX, trainY, testY)"
      by simp
    from a have sub: "set order \<subseteq> {0..<length X}" by simp
    note al = train_test_split_aligned [OF s sub]
    from train_test_split_Inr [OF s] have len: "length trainX = length trainY"
      "length testX = length testY" by simp_all
    show ?thesis
      by (rule exI [of _ trainX], rule exI [of _ trainY], rule exI [of _ testX],
          rule exI [of _ testY]) (use al len w in simp)
  qed
qed

lemma example_covid_split_loads:
  "np_load_key example_covid_prep_fs (''/'' @ ''/prep'' @ ''/data.npz'') ''data''
     = Inr [Image 1, Image 2, Image 3, Image 4, Image 5]"
  "np_load_key example_covid_prep_fs (''/'' @ ''/prep'' @ ''/data.npz'') ''labels''
     = Inr [OneHot [1, 0], OneHot [0, 1], OneHot [1, 0], OneHot [0, 1], OneHot [1, 0]]"
  by (simp_all add: np_load_key_def example_covid_prep_fs_def)

lemma example_covid_split:
  "train_test_split_stratify [4, 2, 0, 1, 3] 0.40
          [Image 1, Image 2, Image 3, Image 4, Image (5::nat)]
          [OneHot [1, 0], OneHot [0, 1], OneHot [1, 0], OneHot [0, 1], OneHot [1, 0] :: nat covid_row]
          [OneHot [1, 0], OneHot [0, 1], OneHot [1, 0], OneHot [0, 1], OneHot [1, 0] :: nat covid_row]
     = Inr ([Image 1, Image 2, Image 4], [Image 5, Image 3],
            [OneHot [1, 0], OneHot [0, 1], OneHot [0, 1]], [OneHot [1, 0], OneHot [1, 0]])"
  by (simp add: train_test_split_stratify_def train_test_split_def n_test_rows_def Let_def)

lemma example_covid_split_runs:
  "fst (covid_traintestsplit_data [4, 2, 0, 1, 3] ''/prep'' ''data.zip'' ''/traintest''
          example_covid_prep_fs) = Inr ()"
  unfolding covid_traintestsplit_data_def
  by (simp only: example_covid_split_loads example_covid_split sum.case prod.case Let_def
      fst_conv)

lemma example_fraud_steps:
  "pd_read_pickle example_fraud_fs (''/prep'' @ ''/df.pkl'')
     = Inr \<lparr>columns = [''distance'', ''fraud''],
            rows = [[Num 1, Num 0], [Num 2, Num 1], [Num 3, Num 0],
                    [Num 4, Num 0], [Num 5, Num 1]]\<rparr>"
  "df_attribute \<lparr>columns = [''distance'', ''fraud''],
            rows = [[Num 1, Num 0], [Num 2, Num 1], [Num 3, Num 0],
                    [Num 4, Num 0], [Num 5, Num 1]]\<rparr> ''fraud''
     = Inr [Num 0, Num 1, Num 0, Num 0, Num 1]"
  "df_drop \<lparr>columns = [''distance'', ''fraud''],
            rows = [[Num 1, Num 0], [Num 2, Num 1], [Num 3, Num 0],
                    [Num 4, Num 0], [Num 5, Num 1]]\<rparr> ''fraud''
     = Inr \<lparr>columns = [''distance''],
            rows = [[Num 1], [Num 2], [Num 3], [Num 4], [Num 5]]\<rparr>"
  "train_test_split [4, 0, 1, 2, 3] 0.2
     (rows \<lparr>columns = [''distance''], rows = [[Num 1], [Num 2], [Num 3], [Num 4], [Num 5]]\<rparr>)
     [Num 0, Num 1, Num 0, Num 0, Num 1]
     = Inr ([[Num 1], [Num 2], [Num 3], [Num 4]], [[Num 5]],
            [Num 0, Num 1, Num 0, Num 0], [Num 1])"
  by (simp_all add: pd_read_pickle_def example_fraud_fs_def df_attribute_def df_column_def
      df_drop_def drop_nth_def train_test_split_def n_test_rows_def Let_def)

lemma example_fraud_runs:
  "fst (fraud_train_model [4, 0, 1, 2, 3] (\<lambda>X y. ()) ''/prep'' ''/model'' ''/traintest''
          example_fraud_fs) = Inr ()"
  unfolding fraud_train_model_def
  by (simp only: example_fraud_steps err_bind_def sum.case prod.case Let_def fst_conv)

theorem train_test_split_sizes_of_steps_witness:
  "fst (covid_traintestsplit_data [4, 2, 0, 1, 3] ''/prep'' ''data.zip'' ''/traintest''
          example_covid_prep_fs) = Inr ()
   \<and> (\<exists>trainX trainY testX testY.
         files (snd (covid_traintestsplit_data [4, 2, 0, 1, 3] ''/prep'' ''data.zip''
                       ''/traintest'' example_covid_prep_fs))
               (''/'' @ ''/traintest'' @ ''/train_data.npz'')
           = Some (Npz [(''arr_0'', trainX), (''arr_1'', trainY)])
       \<and> files (snd (covid_traintestsplit_data [4, 2, 0, 1, 3] ''/prep'' ''data.zip''
                       ''/traintest'' example_covid_prep_fs))
               (''/'' @ ''/traintest'' @ ''/val_data.npz'')
           = Some (Npz [(''arr_0'', testX), (''arr_1'', testY)])
       \<and> length trainX + length testX = 5 \<and> length testX = 2)
   \<and> fst (fraud_train_model [4, 0, 1, 2, 3] (\<lambda>X y. ()) ''/prep'' ''/model'' ''/traintest''
          example_fraud_fs) = Inr ()
   \<and> (\<exists>X_train y_train X_test y_test.
         files (snd (fraud_train_model [4, 0, 1, 2, 3] (\<lambda>X y. ()) ''/prep'' ''/model''
                       ''/traintest'' example_fraud_fs))
               (''/traintest'' @ ''/train_data.npz'')
           = Some (Npz [(''arr_0'', X_train), (''arr_1'', y_train)])
       \<and> files (snd (fraud_train_model [4, 0, 1, 2, 3] (\<lambda>X y. ()) ''/prep'' ''/model''
                       ''/traintest'' example_fraud_fs))
               (''/traintest'' @ ''/val_data.npz'')
           = Some (Npz [(''arr_0'', X_test), (''arr_1'', y_test)])
       \<and> length X_train + length X_test = 5 \<and> length X_test = 1)"
proof -
  let ?c = "covid_traintestsplit_data [4, 2, 0, 1, 3] ''/prep'' ''data.zip'' ''/traintest''
              example_covid_prep_fs"
  let ?f = "fraud_train_model [4, 0, 1, 2, 3] (\<lambda>X y. ()) ''/prep'' ''/model'' ''/traintest''
              example_fraud_fs"
  have c: "?c = (Inr (), snd ?c)" using example_covid_split_runs by (metis prod.collapse)
  have f: "?f = (Inr (), snd ?f)" using example_fraud_runs by (metis prod.collapse)
  note T = train_test_split_sizes_of_steps
    [where order = "[4, 2, 0, 1, 3]" and prep_dir = "''/prep''" and file_name = "''data.zip''"
       and traintest_dir = "''/traintest''" and fs = example_covid_prep_fs and fs' = "snd ?c"
       and data = "[Image 1, Image 2, Image 3, Image 4, Image 5]"
       and order' = "[4, 0, 1, 2, 3]" and fit = "\<lambda>X y. ()" and prep_data_dir = "''/prep''"
       and model_dir = "''/model''" and traintest_dir' = "''/traintest''"
       and ffs = example_fraud_fs and ffs' = "snd ?f"
       and df = "\<lparr>columns = [''distance'', ''fraud''],
            rows = [[Num 1, Num 0], [Num 2, Num 1], [Num 3, Num 0],
                    [Num 4, Num 0], [Num 5, Num 1]]\<rparr>"]
  have c5: "\<lceil>(0.40 :: rat) * of_nat (length [Image 1, Image 2, Image 3, Image 4, Image (5::nat)])\<rceil> = 2"
    by simp
  have f5: "\<lceil>(0.2 :: rat) * of_nat (length (rows \<lparr>columns = [''distance'', ''fraud''],
            rows = [[Num 1, Num 0], [Num 2, Num 1], [Num 3, Num 0],
                    [Num 4, Num 0], [Num 5, Num 1]]\<rparr>))\<rceil> = 1"
    by simp
  from T [THEN conjunct1, rule_format, OF conjI [OF c conjI [OF example_covid_split_loads(1)]]]
  have a1: "\<exists>trainX trainY testX testY.
         files (snd ?c) (''/'' @ ''/traintest'' @ ''/train_data.npz'')
           = Some (Npz [(''arr_0'', trainX), (''arr_1'', trainY)])
       \<and> files (snd ?c) (''/'' @ ''/traintest'' @ ''/val_data.npz'')
           = Some (Npz [(''arr_0'', testX), (''arr_1'', testY)])
       \<and> length trainX + length testX = 5 \<and> length testX = 2"
    unfolding c5 by auto
  from T [THEN conjunct2, rule_format, OF conjI [OF f conjI [OF example_fraud_steps(1)]]]
  have a2: "\<exists>X_train y_train X_test y_test.
         files (snd ?f) (''/traintest'' @ ''/train_data.npz'')
           = Some (Npz [(''arr_0'', X_train), (''arr_1'', y_train)])
       \<and> files (snd ?f) (''/traintest'' @ ''/val_data.npz'')
           = Some (Npz [(''arr_0'', X_test), (''arr_1'', y_test)])
       \<and> length X_train + length X_test = 5 \<and> length X_test = 1"
    unfolding f5 by auto
  from a1 a2 example_covid_split_runs example_fraud_runs show ?thesis by (intro conjI)
qed

theorem bundles_keep_rows_aligned_witness:
  "fst (covid_preprocess_data example_list_images example_imread (\<lambda>i. i) (\<lambda>i. i)
          ''/data'' ''/prep'' example_empty_fs) = Inr ()
   \<and> (\<exists>data labels.
         files (snd (covid_preprocess_data example_list_images example_imread (\<lambda>i. i) (\<lambda>i. i)
                       ''/data'' ''/prep'' example_empty_fs)) (''/'' @ ''/prep'' @ ''/data.npz'')
           = Some (Npz [(''data'', data), (''labels'', labels)])
       \<and> length data = length labels)
   \<and> fst (covid_traintestsplit_data [4, 2, 0, 1, 3] ''/prep'' ''data.zip'' ''/traintest''
          example_covid_prep_fs) = Inr ()
   \<and> set [4, 2, 0, 1, 3] \<subseteq> {0..<length [Image 1, Image 2, Image 3, Image 4, Image (5::nat)]}
   \<and> (\<exists>trainX trainY testX testY.
         files (snd (covid_traintestsplit_data [4, 2, 0, 1, 3] ''/prep'' ''data.zip''
                       ''/traintest'' example_covid_prep_fs))
               (''/'' @ ''/traintest'' @ ''/train_data.npz'')
           = Some (Npz [(''arr_0'', trainX), (''arr_1'', trainY)])
       \<and> files (snd (covid_traintestsplit_data [4, 2, 0, 1, 3] ''/prep'' ''data.zip''
                       ''/traintest'' example_covid_prep_fs))
               (''/'' @ ''/traintest'' @ ''/val_data.npz'')
           = Some (Npz [(''arr_0'', testX), (''arr_1'', testY)])
       \<and> length trainX = length trainY \<and> length testX = length testY)"
proof -
  let ?p = "covid_preprocess_data example_list_images example_imread (\<lambda>i. i) (\<lambda>i. i)
              ''/data'' ''/prep'' example_empty_fs"
  let ?c = "covid_traintestsplit_data [4, 2, 0, 1, 3] ''/prep'' ''data.zip'' ''/traintest''
              example_covid_prep_fs"
  have p: "?p = (Inr (), snd ?p)" using example_covid_preprocess_runs by (metis prod.collapse)
  have c: "?c = (Inr (), snd ?c)" using example_covid_split_runs by (metis prod.collapse)
  have sub: "set [4, 2, 0, 1, 3]
      \<subseteq> {0..<length [Image 1, Image 2, Image 3, Image 4, Image (5::nat)]}"
    by simp
  note T = bundles_keep_rows_aligned
    [where list_images = example_list_images and imread = example_imread
       and cvt_resize = "\<lambda>i. i" and scale = "\<lambda>i. i" and data_dir = "''/data''"
       and prep_dir = "''/prep''" and fs = example_empty_fs and fs' = "snd ?p"
       and order = "[4, 2, 0, 1, 3]" and prep_dir' = "''/prep''" and file_name = "''data.zip''"
       and traintest_dir = "''/traintest''" and sfs = example_covid_prep_fs and sfs' = "snd ?c"
       and X = "[Image 1, Image 2, Image 3, Image 4, Image 5]"
       and Y = "[OneHot [1, 0], OneHot [0, 1], OneHot [1, 0], OneHot [0, 1], OneHot [1, 0]]"]
  from T [THEN conjunct1, rule_format, OF p]
  have a1: "\<exists>data labels.
         files (snd ?p) (''/'' @ ''/prep'' @ ''/data.npz'')
           = Some (Npz [(''data'', data), (''labels'', labels)])
       \<and> length data = length labels"
    by blast
  from T [THEN conjunct2, rule_format,
      OF conjI [OF c conjI [OF example_covid_split_loads(1)
                  conjI [OF example_covid_split_loads(2) sub]]]]
  have a2: "\<exists>trainX trainY testX testY.
         files (snd ?c) (''/'' @ ''/traintest'' @ ''/train_data.npz'')
           = Some (Npz [(''arr_0'', trainX), (''arr_1'', trainY)])
       \<and> files (snd ?c) (''/'' @ ''/traintest'' @ ''/val_data.npz'')
           = Some (Npz [(''arr_0'', testX), (''arr_1'', testY)])
       \<and> length trainX = length trainY \<and> length testX = length testY"
    by blast
  from a1 a2 sub example_covid_preprocess_runs example_covid_split_runs
  show ?thesis by (intro conjI)
qed

subsection \<open>The task graphs\<close>

lemma covid_data_edges:
  "data_edges covid19_lung_classification_pipeline =
    [(''download_and_extract_task'', ''preprocess_data_task''),
     (''preprocess_data_task'', ''traintestsplit_data_task''),
     (''traintestsplit_data_task'', ''train_model_task''),
     (''traintestsplit_data_task'', ''evaluate_model_task''),
     (''train_model_task'', ''evaluate_model_task''),
     (''traintestsplit_data_task'', ''plot_confusion_matrix_task''),
     (''train_model_task'', ''plot_confusion_matrix_task''),
     (''train_model_task'', ''convert_model_to_onnx_task''),
     (''convert_model_to_onnx_task'', ''upload_model_task'')]"
  by (simp add: data_edges_def covid19_lung_classification_pipeline_def new_task_def
      task_outputs_def task_output_def after_def set_gpu_limit_def)

lemma covid_after_edges:
  "after_edges covid19_lung_classification_pipeline =
    [(''upload_model_task'', ''deploy_model_with_kserve_task'')]"
  by (simp add: after_edges_def covid19_lung_classification_pipeline_def new_task_def
      task_outputs_def task_output_def after_def set_gpu_limit_def)

lemma fingerprint_data_edges:
  "data_edges fingerprint_pipeline =
    [(''download_and_extract_task'', ''preprocess_data_task''),
     (''preprocess_data_task'', ''train_model_task''),
     (''preprocess_data_task'', ''evaluate_model_task''),
     (''train_model_task'', ''evaluate_model_task''),
     (''train_model_task'', ''convert_model_to_onnx_task''),
     (''convert_model_to_onnx_task'', ''upload_model_task'')]"
  by (simp add: data_edges_def fingerprint_pipeline_def new_task_def
      task_outputs_def task_output_def after_def set_gpu_limit_def)

lemma fingerprint_after_edges:
  "after_edges fingerprint_pipeline =
    [(''upload_model_task'', ''deploy_model_with_kserve_task'')]"
  by (simp add: after_edges_def fingerprint_pipeline_def new_task_def
      task_outputs_def task_output_def after_def set_gpu_limit_def)

text \<open>
  C8. In the covid and the fingerprint pipeline the only ordering edge that does not come
  from passing an output of one task to another is the edge from the upload task to the
  deployment task. The deployment task takes no output of any task, its only incoming
  edge is that one, and it is the only explicit \<open>after\<close> dependency of the pipeline.
\<close>

theorem deploy_is_the_only_explicit_edge:
  "filter (\<lambda>e. e \<notin> set (data_edges covid19_lung_classification_pipeline))
      (ordering_edges covid19_lung_classification_pipeline)
     = [(''upload_model_task'', ''deploy_model_with_kserve_task'')]
   \<and> filter (\<lambda>e. snd e = ''deploy_model_with_kserve_task'')
      (data_edges covid19_lung_classification_pipeline) = []
   \<and> filter (\<lambda>e. snd e = ''deploy_model_with_kserve_task'')
      (ordering_edges covid19_lung_classification_pipeline)
     = [(''upload_model_task'', ''deploy_model_with_kserve_task'')]
   \<and> after_edges covid19_lung_classification_pipeline
     = [(''upload_model_task'', ''deploy_model_with_kserve_task'')]
   \<and> filter (\<lambda>e. e \<notin> set (data_edges fingerprint_pipeline)) (ordering_edges fingerprint_pipeline)
     = [(''upload_model_task'', ''deploy_model_with_kserve_task'')]
   \<and> filter (\<lambda>e. snd e = ''deploy_model_with_kserve_task'') (data_edges fingerprint_pipeline) = []
   \<and> filter (\<lambda>e. snd e = ''deploy_model_with_kserve_task'') (ordering_edges fingerprint_pipeline)
     = [(''upload_model_task'', ''deploy_model_with_kserve_task'')]
   \<and> after_edges fingerprint_pipeline
     = [(''upload_model_task'', ''deploy_model_with_kserve_task'')]"
  by (simp add: ordering_edges_def covid_data_edges covid_after_edges
      fingerprint_data_edges fingerprint_after_edges)

subsection \<open>The evaluation step of the fingerprint notebook\<close>

text \<open>
  C9. In the evaluation step of the fingerprint notebook the probe index is drawn from
  the inclusive range from 0 to \<open>len(x_val)\<close>: every draw lies in that range, and for
  every non-empty validation set there is a state of the generator whose draw is
  \<open>len(x_val)\<close> itself, at which the indexing of \<open>x_val\<close> is out of bounds and the step
  raises IndexError.
\<close>

theorem evaluate_model_probe_out_of_bounds:
  assumes "x_val \<noteq> []"
  shows "(\<forall>g. \<exists>i g'. random_randint 0 (int (length x_val)) g = Inr (i, g')
              \<and> 0 \<le> i \<and> i \<le> int (length x_val))
       \<and> (\<exists>g g'. random_randint 0 (int (length x_val)) g = Inr (int (length x_val), g')
              \<and> py_get x_val (int (length x_val)) = Inl IndexError
              \<and> evaluate_model_probe x_val label_val g = Inl IndexError)"
proof (intro conjI allI)
  fix g :: rng
  let ?n = "length x_val"
  have "raw_bits (shd g) mod (Suc ?n) \<le> ?n"
    by (simp add: less_Suc_eq_le [symmetric])
  then show "\<exists>i g'. random_randint 0 (int ?n) g = Inr (i, g') \<and> 0 \<le> i \<and> i \<le> int ?n"
    by (simp add: random_randint_def randbelow_def nat_add_distrib)
next
  let ?n = "length x_val"
  let ?g = "sconst (Draw 0 ?n)"
  have draw: "random_randint 0 (int ?n) ?g = Inr (int ?n, ?g)"
    by (simp add: random_randint_def randbelow_def nat_add_distrib)
  have oob: "py_get x_val (int ?n) = Inl IndexError"
    by (simp add: py_get_def)
  have "evaluate_model_probe x_val label_val ?g = Inl IndexError"
    by (simp add: evaluate_model_probe_def draw oob)
  with draw oob
  show "\<exists>g g'. random_randint 0 (int ?n) g = Inr (int ?n, g')
          \<and> py_get x_val (int ?n) = Inl IndexError
          \<and> evaluate_model_probe x_val label_val g = Inl IndexError"
    by blast
qed

theorem evaluate_model_probe_out_of_bounds_witness:
  "[CHR ''a'', CHR ''b''] \<noteq> []
   \<and> (\<exists>g g'. random_randint 0 2 g = Inr (2, g')
          \<and> evaluate_model_probe [CHR ''a'', CHR ''b''] [True, False] g = Inl IndexError)"
  using evaluate_model_probe_out_of_bounds [of "[CHR ''a'', CHR ''b'']" "[True, False]"]
  by auto

end
